(* ===== verification/Prelude.thy ===== *)
theory Prelude
  imports Main "HOL-Library.Word" "HOL-Library.Multiset" "HOL-Library.AList"
begin

text \<open>
  Shared vocabulary of the development: the machine types of the Rust code, big-endian
  32-bit words, exact reads from a byte stream, the hash map of the Rust standard library
  with its arbitrary iteration order, a generic notion of reachable state, and the two
  interfaces (\<open>frame_codec\<close>, \<open>invariant_system\<close>) that several components share.
\<close>

unbundle bit_operations_syntax

named_theorems codec_simps \<open>equations of encoders and decoders\<close>
named_theorems wf_intros \<open>preservation of well-formedness\<close>
named_theorems op_defs \<open>unfolding of the operations of a state machine\<close>

section \<open>Machine types\<close>

type_synonym byte = "8 word"
type_synonym bytes = "byte list"
type_synonym u32 = "32 word"
type_synonym u64 = "64 word"

text \<open>A Rust \<open>String\<close> is its UTF-8 bytes; one \<^typ>\<open>char\<close> is one byte.\<close>

definition as_bytes :: "string \<Rightarrow> bytes" where
  "as_bytes s = map of_char s"

definition string_of_bytes :: "bytes \<Rightarrow> string" where
  "string_of_bytes bs = map (\<lambda>b. char_of (unat b)) bs"

lemma unat_of_char_byte [simp]: "unat (of_char c :: byte) = of_char c"
proof -
  have "(of_char c :: byte) = of_nat (of_char c)"
    by (simp add: of_nat_of_char)
  moreover have "(of_char c :: nat) < 256"
    by (rule nat_of_char_less_256)
  ultimately show ?thesis by (simp add: unat_of_nat)
qed

lemma char_of_of_char_byte: "char_of (unat (of_char c :: byte)) = c"
  by simp

lemma string_of_as_bytes [simp]: "string_of_bytes (as_bytes s) = s"
  by (simp add: string_of_bytes_def as_bytes_def comp_def)

lemma as_bytes_inject [simp]: "as_bytes s = as_bytes t \<longleftrightarrow> s = t"
  by (metis string_of_as_bytes)

lemma as_bytes_append [simp]: "as_bytes (s @ t) = as_bytes s @ as_bytes t"
  by (simp add: as_bytes_def)

lemma as_bytes_Nil [simp]: "as_bytes [] = []"
  by (simp add: as_bytes_def)

lemma as_bytes_eq_Nil [simp]: "as_bytes s = [] \<longleftrightarrow> s = []"
  by (simp add: as_bytes_def)

lemma length_as_bytes [simp]: "length (as_bytes s) = length s"
  by (simp add: as_bytes_def)

section \<open>Big-endian 32-bit words\<close>

definition u32_to_be_bytes :: "u32 \<Rightarrow> bytes" where
  "u32_to_be_bytes w =
     [ucast (drop_bit 24 w), ucast (drop_bit 16 w), ucast (drop_bit 8 w), ucast w]"

definition u32_from_be_bytes :: "byte \<Rightarrow> byte \<Rightarrow> byte \<Rightarrow> byte \<Rightarrow> u32" where
  "u32_from_be_bytes a b c d =
     push_bit 24 (ucast a) OR push_bit 16 (ucast b) OR push_bit 8 (ucast c) OR ucast d"

lemma u32_be_roundtrip [simp]:
  "u32_from_be_bytes (ucast (drop_bit 24 w)) (ucast (drop_bit 16 w))
     (ucast (drop_bit 8 w)) (ucast w) = w"
  unfolding u32_from_be_bytes_def
proof (rule bit_word_eqI)
  fix n assume n: "n < LENGTH(32)"
  consider "n < 8" | "8 \<le> n" "n < 16" | "16 \<le> n" "n < 24" | "24 \<le> n" "n < 32"
    using n by fastforce
  then show "bit (push_bit 24 (ucast (ucast (drop_bit 24 w) :: byte)) OR
      push_bit 16 (ucast (ucast (drop_bit 16 w) :: byte)) OR
      push_bit 8 (ucast (ucast (drop_bit 8 w) :: byte)) OR ucast (ucast w :: byte) :: u32) n = bit w n"
    by cases (auto simp: bit_simps)
qed

lemma length_u32_to_be_bytes [simp]: "length (u32_to_be_bytes w) = 4"
  by (simp add: u32_to_be_bytes_def)

lemma u32_to_be_bytes_inject [simp]: "u32_to_be_bytes v = u32_to_be_bytes w \<longleftrightarrow> v = w"
proof
  assume "u32_to_be_bytes v = u32_to_be_bytes w"
  then have eq: "ucast (drop_bit 24 v) = (ucast (drop_bit 24 w) :: byte)"
    "ucast (drop_bit 16 v) = (ucast (drop_bit 16 w) :: byte)"
    "ucast (drop_bit 8 v) = (ucast (drop_bit 8 w) :: byte)" "ucast v = (ucast w :: byte)"
    unfolding u32_to_be_bytes_def list.inject by blast+
  have "v = u32_from_be_bytes (ucast (drop_bit 24 v)) (ucast (drop_bit 16 v))
      (ucast (drop_bit 8 v)) (ucast v)"
    by (rule u32_be_roundtrip [symmetric])
  also have "\<dots> = w"
    unfolding eq by (rule u32_be_roundtrip)
  finally show "v = w" .
qed simp

lemma unat_of_nat_u32: "n < 2 ^ 32 \<Longrightarrow> unat (of_nat n :: u32) = n"
  by (simp add: unat_of_nat)

section \<open>Exact reads\<close>

text \<open>\<open>read_exact\<close> into a buffer of \<open>n\<close> bytes: it fails when the stream ends early.\<close>

definition read_exact :: "nat \<Rightarrow> bytes \<Rightarrow> (bytes \<times> bytes) option" where
  "read_exact n s = (if length s < n then None else Some (take n s, drop n s))"

lemma read_exact_append [simp]:
  "n = length p \<Longrightarrow> read_exact n (p @ rest) = Some (p, rest)"
  by (simp add: read_exact_def)

lemma read_exact_SomeD:
  "read_exact n s = Some (p, rest) \<Longrightarrow> s = p @ rest \<and> length p = n"
  by (auto simp: read_exact_def split: if_splits)

section \<open>Hash maps\<close>

text \<open>
  A \<open>std::collections::HashMap\<close> is an association list with distinct keys. Its iteration
  order is unspecified: every definition that iterates takes the order as a function, and
  \<open>iter_order\<close> (the order visits each entry exactly once) is the only thing known about it.
\<close>

type_synonym ('k, 'v) hashmap = "('k \<times> 'v) list"

definition iter_order :: "('a list \<Rightarrow> 'a list) \<Rightarrow> bool" where
  "iter_order ord \<longleftrightarrow> (\<forall>xs. mset (ord xs) = mset xs)"

lemma iter_order_set: "iter_order ord \<Longrightarrow> set (ord xs) = set xs"
  unfolding iter_order_def by (metis set_mset_mset)

lemma iter_order_id [simp]: "iter_order (\<lambda>xs. xs)"
  by (simp add: iter_order_def)

lemma iter_order_rev [simp]: "iter_order rev"
  by (simp add: iter_order_def)

lemma find_None_set: "find P xs = None \<longleftrightarrow> (\<forall>x \<in> set xs. \<not> P x)"
  by (auto simp: find_None_iff)

lemma find_SomeD: "find P xs = Some x \<Longrightarrow> x \<in> set xs \<and> P x"
  by (induction xs) (auto split: if_splits)

lemma find_append:
  "find P (xs @ ys) = (case find P xs of None \<Rightarrow> find P ys | Some x \<Rightarrow> Some x)"
  by (induction xs) auto

text \<open>When at most one entry qualifies, every order finds that one.\<close>

lemma find_iter_order_unique:
  assumes "iter_order ord" and "x \<in> set xs" and "P x"
    and "\<And>y. y \<in> set xs \<Longrightarrow> P y \<Longrightarrow> y = x"
  shows "find P (ord xs) = Some x"
proof (cases "find P (ord xs)")
  case None
  then have "\<not> P x"
    using assms(1,2) iter_order_set [of ord xs] unfolding find_None_set by blast
  with assms(3) show ?thesis by blast
next
  case (Some y)
  then have "y \<in> set xs" "P y"
    using find_SomeD [OF Some] iter_order_set [OF assms(1), of xs] by simp_all
  then have "y = x" by (rule assms(4))
  with Some show ?thesis by simp
qed

abbreviation hm_get :: "('k, 'v) hashmap \<Rightarrow> 'k \<Rightarrow> 'v option" where
  "hm_get \<equiv> map_of"

abbreviation hm_insert :: "'k \<Rightarrow> 'v \<Rightarrow> ('k, 'v) hashmap \<Rightarrow> ('k, 'v) hashmap" where
  "hm_insert \<equiv> AList.update"

abbreviation hm_remove :: "'k \<Rightarrow> ('k, 'v) hashmap \<Rightarrow> ('k, 'v) hashmap" where
  "hm_remove \<equiv> AList.delete"

definition hm_wf :: "('k, 'v) hashmap \<Rightarrow> bool" where
  "hm_wf m \<longleftrightarrow> distinct (map fst m)"

lemma hm_wf_Nil [simp, wf_intros]: "hm_wf []"
  by (simp add: hm_wf_def)

lemma hm_wf_insert [wf_intros]: "hm_wf m \<Longrightarrow> hm_wf (hm_insert k v m)"
  by (simp add: hm_wf_def distinct_update)

lemma hm_wf_remove [wf_intros]: "hm_wf m \<Longrightarrow> hm_wf (hm_remove k m)"
  by (simp add: hm_wf_def distinct_delete)

lemma hm_get_insert: "hm_get (hm_insert k v m) k' = (if k' = k then Some v else hm_get m k')"
  by (simp add: update_conv')

lemma hm_get_remove: "hm_get (hm_remove k m) k' = (if k' = k then None else hm_get m k')"
  by (simp add: delete_conv')

lemma hm_get_in_set: "hm_wf m \<Longrightarrow> hm_get m k = Some v \<longleftrightarrow> (k, v) \<in> set m"
  by (auto simp: hm_wf_def)

lemma hm_set_remove: "set (hm_remove k m) = {(k', v) \<in> set m. k' \<noteq> k}"
  by (induction m) auto

lemma hm_set_insert:
  "hm_wf m \<Longrightarrow> set (hm_insert k v m) = insert (k, v) {(k', v') \<in> set m. k' \<noteq> k}"
  by (auto simp: hm_get_in_set [symmetric] hm_wf_insert hm_get_insert split: if_splits)

section \<open>Reachable states\<close>

inductive reach :: "('s \<Rightarrow> bool) \<Rightarrow> ('s \<Rightarrow> 'e \<Rightarrow> 's \<Rightarrow> bool) \<Rightarrow> 's \<Rightarrow> bool"
  for init step where
  reach_init: "init s \<Longrightarrow> reach init step s"
| reach_step: "reach init step s \<Longrightarrow> step s e t \<Longrightarrow> reach init step t"

lemma reach_strengthen: "reach init step s \<Longrightarrow> P \<Longrightarrow> reach init (\<lambda>s e t. P \<and> step s e t) s"
  by (induction rule: reach.induct) (auto intro: reach.intros)

text \<open>The contract of an inductive invariant; its client lemma is the reachability theorem.\<close>

locale invariant_system =
  fixes init :: "'s \<Rightarrow> bool"
    and step :: "'s \<Rightarrow> 'e \<Rightarrow> 's \<Rightarrow> bool"
    and invar :: "'s \<Rightarrow> bool"
  assumes invar_init: "init s \<Longrightarrow> invar s"
    and invar_step: "invar s \<Longrightarrow> step s e t \<Longrightarrow> invar t"
begin

lemma reach_invar: "reach init step s \<Longrightarrow> invar s"
  by (induction rule: reach.induct) (auto intro: invar_init invar_step)

end

section \<open>Frames on a byte stream\<close>

text \<open>
  Every transport of the system cuts a byte stream into messages: newline-delimited JSON
  between the avatar and its service avatars, a 4-byte length before each message on the
  SSH-agent socket and on the Nostr client socket. The contract is that a decoder gets back
  the first encoded message and leaves the rest of the stream untouched.
\<close>

fun decode_many :: "(bytes \<Rightarrow> ('p \<times> bytes) option) \<Rightarrow> nat \<Rightarrow> bytes \<Rightarrow> ('p list \<times> bytes) option" where
  "decode_many dec 0 s = Some ([], s)"
| "decode_many dec (Suc n) s =
     (case dec s of
        None \<Rightarrow> None
      | Some (p, s') \<Rightarrow> map_option (\<lambda>(ps, r). (p # ps, r)) (decode_many dec n s'))"

lemma decode_many_snoc:
  "decode_many dec n s = Some (ps, r) \<Longrightarrow> dec r = Some (p, r') \<Longrightarrow>
     decode_many dec (Suc n) s = Some (ps @ [p], r')"
proof (induction n arbitrary: s ps)
  case (Suc n)
  then obtain a s1 ps' where a: "dec s = Some (a, s1)" "decode_many dec n s1 = Some (ps', r)" "ps = a # ps'"
    by (auto split: option.splits prod.splits)
  then have "decode_many dec (Suc n) s1 = Some (ps' @ [p], r')" using Suc by blast
  with a show ?case by (simp del: decode_many.simps(2) add: decode_many.simps(2) [of dec "Suc n" s])
qed simp

locale frame_codec =
  fixes enc :: "'p \<Rightarrow> bytes"
    and dec :: "bytes \<Rightarrow> ('p \<times> bytes) option"
    and sendable :: "'p \<Rightarrow> bool"
  assumes dec_enc: "sendable p \<Longrightarrow> dec (enc p @ rest) = Some (p, rest)"
begin

lemma dec_stream:
  "list_all sendable ps \<Longrightarrow>
     decode_many dec (length ps) (concat (map enc ps) @ rest) = Some (ps, rest)"
  by (induction ps) (auto simp: dec_enc)

lemma enc_inject: "sendable p \<Longrightarrow> sendable q \<Longrightarrow> enc p @ r = enc q @ s \<Longrightarrow> p = q \<and> r = s"
  by (metis dec_enc option.inject prod.inject)

lemma enc_prefix_free: "sendable p \<Longrightarrow> sendable q \<Longrightarrow> enc p = enc q @ s \<Longrightarrow> p = q \<and> s = []"
  using enc_inject [of p q "[]" s] by simp

end

text \<open>
  A connection on which a server answers each message: it goes on until its input ends or does
  not decode. Then the output is the answers, one for each message and in order.
\<close>

locale answering_loop = frame_codec enc dec sendable
  for enc :: "'p \<Rightarrow> bytes" and dec :: "bytes \<Rightarrow> ('p \<times> bytes) option" and sendable :: "'p \<Rightarrow> bool" +
  fixes answer :: "'p \<Rightarrow> bytes"
    and serve_loop :: "bytes \<Rightarrow> bytes"
  assumes loop_message: "dec s = Some (p, rest) \<Longrightarrow> serve_loop s = answer p @ serve_loop rest"
    and loop_end: "dec s = None \<Longrightarrow> serve_loop s = []"
begin

lemma loop_stream:
  "list_all sendable ps \<Longrightarrow> dec tail = None \<Longrightarrow>
     serve_loop (concat (map enc ps) @ tail) = concat (map answer ps)"
  by (induction ps) (auto simp: loop_end loop_message [OF dec_enc])

lemma loop_one: "sendable p \<Longrightarrow> dec [] = None \<Longrightarrow> serve_loop (enc p) = answer p"
  using loop_stream [of "[p]" "[]"] by simp

end

end
