(* ===== verification/Rust_Str.thy ===== *)
theory Rust_Str
  imports Prelude
begin

text \<open>
  The string functions of the Rust standard library that the program calls, on UTF-8 bytes:
  validation (\<open>utf8_valid\<close>), Unicode white space (\<open>trim\<close>, \<open>split_whitespace\<close>,
  \<open>find(char::is_whitespace)\<close>), \<open>u8::from_str_radix(_, 16)\<close>, decimal and hexadecimal
  formatting. White space is the Unicode property \<open>White_Space\<close>, whose members beyond
  ASCII are two and three bytes long in UTF-8.
\<close>

abbreviation cn :: "char \<Rightarrow> nat" where
  "cn c \<equiv> of_char c"

abbreviation newline :: char where
  "newline \<equiv> CHR 0x0A"

section \<open>UTF-8\<close>

definition utf8_cont :: "byte \<Rightarrow> bool" where
  "utf8_cont b \<longleftrightarrow> 0x80 \<le> b \<and> b \<le> 0xBF"

definition utf8_second3 :: "byte \<Rightarrow> byte \<Rightarrow> bool" where
  "utf8_second3 a b \<longleftrightarrow>
     (if a = 0xE0 then 0xA0 \<le> b \<and> b \<le> 0xBF
      else if a = 0xED then 0x80 \<le> b \<and> b \<le> 0x9F
      else utf8_cont b)"

definition utf8_second4 :: "byte \<Rightarrow> byte \<Rightarrow> bool" where
  "utf8_second4 a b \<longleftrightarrow>
     (if a = 0xF0 then 0x90 \<le> b \<and> b \<le> 0xBF
      else if a = 0xF4 then 0x80 \<le> b \<and> b \<le> 0x8F
      else utf8_cont b)"

text \<open>The length a leading byte announces, 0 for a byte that starts no character.\<close>

definition utf8_lead :: "byte \<Rightarrow> nat" where
  "utf8_lead a =
     (if a < 0x80 then 1
      else if 0xC2 \<le> a \<and> a \<le> 0xDF then 2
      else if 0xE0 \<le> a \<and> a \<le> 0xEF then 3
      else if 0xF0 \<le> a \<and> a \<le> 0xF4 then 4
      else 0)"

text \<open>The length of the well-formed character a byte string starts with, 0 if there is none.\<close>

fun utf8_len :: "bytes \<Rightarrow> nat" where
  "utf8_len [] = 0"
| "utf8_len (a # r) =
     (if utf8_lead a = 1 then 1
      else if utf8_lead a = 2 then
        (case r of b # _ \<Rightarrow> if utf8_cont b then 2 else 0 | _ \<Rightarrow> 0)
      else if utf8_lead a = 3 then
        (case r of b # c # _ \<Rightarrow> if utf8_second3 a b \<and> utf8_cont c then 3 else 0 | _ \<Rightarrow> 0)
      else if utf8_lead a = 4 then
        (case r of b # c # d # _ \<Rightarrow>
             if utf8_second4 a b \<and> utf8_cont c \<and> utf8_cont d then 4 else 0
         | _ \<Rightarrow> 0)
      else 0)"

function utf8_valid :: "bytes \<Rightarrow> bool" where
  "utf8_valid s =
     (if s = [] then True
      else if utf8_len s = 0 then False
      else utf8_valid (drop (utf8_len s) s))"
  by pat_completeness auto
termination
  by (relation "measure length") auto

declare utf8_valid.simps [simp del]

definition from_utf8 :: "bytes \<Rightarrow> string option" where
  "from_utf8 bs = (if utf8_valid bs then Some (string_of_bytes bs) else None)"

lemma utf8_valid_Nil [simp]: "utf8_valid []"
  by (simp add: utf8_valid.simps)

lemma utf8_len_append: "0 < utf8_len s \<Longrightarrow> utf8_len (s @ t) = utf8_len s \<and> utf8_len s \<le> length s"
  by (cases s) (auto split: if_splits list.splits)

lemma utf8_valid_append: "utf8_valid s \<Longrightarrow> utf8_valid t \<Longrightarrow> utf8_valid (s @ t)"
proof (induction s rule: utf8_valid.induct)
  case (1 s)
  show ?case
  proof (cases "s = []")
    case False
    from "1.prems"(1) False have len: "utf8_len s \<noteq> 0" and tail: "utf8_valid (drop (utf8_len s) s)"
      by (simp_all add: utf8_valid.simps [of s] split: if_splits)
    from False len tail "1.prems"(2) have "utf8_valid (drop (utf8_len s) s @ t)"
      by (rule "1.IH")
    with False len utf8_len_append [of s t] show ?thesis
      by (simp add: utf8_valid.simps [of "s @ t"])
  qed (use "1.prems" in simp)
qed

lemma utf8_valid_ascii: "list_all (\<lambda>b. b < 0x80) s \<Longrightarrow> utf8_valid s"
  by (induction s) (simp_all add: utf8_valid.simps [of "_ # _"] utf8_lead_def)

lemma from_utf8_as_bytes [simp]:
  "utf8_valid (as_bytes s) \<Longrightarrow> from_utf8 (as_bytes s) = Some s"
  by (simp add: from_utf8_def)

section \<open>White space\<close>

definition ascii_ws :: "char \<Rightarrow> bool" where
  "ascii_ws c \<longleftrightarrow> (9 \<le> cn c \<and> cn c \<le> 13) \<or> cn c = 32"

definition ws2 :: "char \<Rightarrow> char \<Rightarrow> bool" where
  "ws2 a b \<longleftrightarrow> cn a = 0xC2 \<and> (cn b = 0x85 \<or> cn b = 0xA0)"

definition ws3 :: "char \<Rightarrow> char \<Rightarrow> char \<Rightarrow> bool" where
  "ws3 a b c \<longleftrightarrow>
     (cn a = 0xE1 \<and> cn b = 0x9A \<and> cn c = 0x80) \<or>
     (cn a = 0xE2 \<and> cn b = 0x80 \<and>
        ((0x80 \<le> cn c \<and> cn c \<le> 0x8A) \<or> cn c = 0xA8 \<or> cn c = 0xA9 \<or> cn c = 0xAF)) \<or>
     (cn a = 0xE2 \<and> cn b = 0x81 \<and> cn c = 0x9F) \<or>
     (cn a = 0xE3 \<and> cn b = 0x80 \<and> cn c = 0x80)"

text \<open>The length in bytes of the white-space character a string starts with, 0 if none.\<close>

fun ws_len :: "string \<Rightarrow> nat" where
  "ws_len (a # b # c # _) =
     (if ascii_ws a then 1 else if ws2 a b then 2 else if ws3 a b c then 3 else 0)"
| "ws_len [a, b] = (if ascii_ws a then 1 else if ws2 a b then 2 else 0)"
| "ws_len [a] = (if ascii_ws a then 1 else 0)"
| "ws_len [] = 0"

text \<open>The same for the character a string ends with, on the reversed string.\<close>

fun ws_rev_len :: "string \<Rightarrow> nat" where
  "ws_rev_len (c # b # a # _) =
     (if ascii_ws c then 1 else if ws2 b c then 2 else if ws3 a b c then 3 else 0)"
| "ws_rev_len [c, b] = (if ascii_ws c then 1 else if ws2 b c then 2 else 0)"
| "ws_rev_len [c] = (if ascii_ws c then 1 else 0)"
| "ws_rev_len [] = 0"

lemma ws_len_le: "ws_len s \<le> length s"
  by (induction s rule: ws_len.induct) auto

function trim_start :: "string \<Rightarrow> string" where
  "trim_start s = (if ws_len s = 0 then s else trim_start (drop (ws_len s) s))"
  by pat_completeness auto
termination
proof (relation "measure length")
  fix s assume "ws_len s \<noteq> 0"
  then have "s \<noteq> []" by auto
  with \<open>ws_len s \<noteq> 0\<close> show "(drop (ws_len s) s, s) \<in> measure length" by simp
qed simp

function trim_rev :: "string \<Rightarrow> string" where
  "trim_rev s = (if ws_rev_len s = 0 then s else trim_rev (drop (ws_rev_len s) s))"
  by pat_completeness auto
termination
proof (relation "measure length")
  fix s assume "ws_rev_len s \<noteq> 0"
  then have "s \<noteq> []" by auto
  with \<open>ws_rev_len s \<noteq> 0\<close> show "(drop (ws_rev_len s) s, s) \<in> measure length" by simp
qed simp

declare trim_start.simps [simp del] trim_rev.simps [simp del]

definition trim_end :: "string \<Rightarrow> string" where
  "trim_end s = rev (trim_rev (rev s))"

definition trim :: "string \<Rightarrow> string" where
  "trim s = trim_end (trim_start s)"

text \<open>\<open>str::find(char::is_whitespace)\<close>: the byte index of the first white-space character.\<close>

fun find_ws :: "string \<Rightarrow> nat option" where
  "find_ws [] = None"
| "find_ws (c # cs) = (if 0 < ws_len (c # cs) then Some 0 else map_option Suc (find_ws cs))"

text \<open>\<open>split_whitespace().collect::<String>()\<close>: the string without its white space.\<close>

function remove_ws :: "string \<Rightarrow> string" where
  "remove_ws [] = []"
| "remove_ws (c # cs) =
     (if 0 < ws_len (c # cs) then remove_ws (drop (ws_len (c # cs)) (c # cs))
      else c # remove_ws cs)"
  by pat_completeness auto
termination
  by (relation "measure length") auto

text \<open>A string is solid when it contains no white space at all.\<close>

definition solid :: "string \<Rightarrow> bool" where
  "solid s \<longleftrightarrow> (\<forall>i. ws_len (drop i s) = 0)"

lemma solid_Cons: "solid (c # cs) \<longleftrightarrow> ws_len (c # cs) = 0 \<and> solid cs"
  unfolding solid_def
  by (metis drop0 drop_Suc_Cons not0_implies_Suc)

lemma solid_Nil [simp]: "solid []"
  by (simp add: solid_def)

lemma trim_start_fix: "ws_len s = 0 \<Longrightarrow> trim_start s = s"
  by (simp add: trim_start.simps)

lemma trim_end_fix: "ws_rev_len (rev s) = 0 \<Longrightarrow> trim_end s = s"
  by (simp add: trim_end_def trim_rev.simps)

lemma ws_rev_len_newline [simp]: "ws_rev_len (newline # s) = 1"
  by (cases s rule: ws_rev_len.cases) (auto simp: ascii_ws_def)

lemma trim_end_newline: "ws_rev_len (rev s) = 0 \<Longrightarrow> trim_end (s @ [newline]) = s"
  by (simp add: trim_end_def trim_rev.simps [of "newline # rev s"] trim_rev.simps [of "rev s"])

lemma find_ws_None: "find_ws s = None \<longleftrightarrow> solid s"
  by (induction s) (auto simp: solid_Cons)

lemma find_ws_SomeD: "find_ws s = Some i \<Longrightarrow> i < length s \<and> 0 < ws_len (drop i s)"
  by (induction s arbitrary: i) (auto split: if_splits)

lemma remove_ws_solid: "solid s \<Longrightarrow> remove_ws s = s"
  by (induction s) (auto simp: solid_Cons)

text \<open>Printable ASCII characters other than the blank are never part of white space.\<close>

definition graph :: "char \<Rightarrow> bool" where
  "graph c \<longleftrightarrow> 33 \<le> cn c \<and> cn c \<le> 126"

lemma ws_len_graph [simp]: "graph c \<Longrightarrow> ws_len (c # s) = 0"
  by (cases "c # s" rule: ws_len.cases) (auto simp: graph_def ascii_ws_def ws2_def ws3_def)

lemma ws_rev_len_graph [simp]: "graph c \<Longrightarrow> ws_rev_len (c # s) = 0"
  by (cases "c # s" rule: ws_rev_len.cases) (auto simp: graph_def ascii_ws_def ws2_def ws3_def)

lemma solid_graph: "list_all graph s \<Longrightarrow> solid s"
  by (induction s) (auto simp: solid_Cons)

lemma trim_graph: "list_all graph s \<Longrightarrow> trim s = s"
proof -
  assume g: "list_all graph s"
  have "ws_len s = 0" using g by (cases s) auto
  moreover have "ws_rev_len (rev s) = 0"
    using g by (cases s rule: rev_cases) auto
  ultimately show ?thesis by (simp add: trim_def trim_start_fix trim_end_fix)
qed

section \<open>Numbers in text\<close>

definition hex_digit_val :: "char \<Rightarrow> nat option" where
  "hex_digit_val c =
     (if 48 \<le> cn c \<and> cn c \<le> 57 then Some (cn c - 48)
      else if 65 \<le> cn c \<and> cn c \<le> 70 then Some (cn c - 55)
      else if 97 \<le> cn c \<and> cn c \<le> 102 then Some (cn c - 87)
      else None)"

definition is_ascii_hexdigit :: "char \<Rightarrow> bool" where
  "is_ascii_hexdigit c \<longleftrightarrow> hex_digit_val c \<noteq> None"

datatype int_error_kind = Empty | InvalidDigit | PosOverflow

fun int_error_text :: "int_error_kind \<Rightarrow> string" where
  "int_error_text Empty = ''cannot parse integer from empty string''"
| "int_error_text InvalidDigit = ''invalid digit found in string''"
| "int_error_text PosOverflow = ''number too large to fit in target type''"

fun radix16_digits :: "nat \<Rightarrow> string \<Rightarrow> int_error_kind + nat" where
  "radix16_digits acc [] = Inr acc"
| "radix16_digits acc (c # cs) =
     (case hex_digit_val c of
        None \<Rightarrow> Inl InvalidDigit
      | Some d \<Rightarrow> if acc * 16 + d < 256 then radix16_digits (acc * 16 + d) cs else Inl PosOverflow)"

text \<open>
  \<open>u8::from_str_radix(s, 16)\<close>: an optional \<open>+\<close> sign, then at least one digit. A \<open>-\<close> is not
  a sign of an unsigned type and is refused as a digit.
\<close>

definition u8_from_str_radix16 :: "string \<Rightarrow> int_error_kind + byte" where
  "u8_from_str_radix16 s =
     (if s = [] then Inl Empty
      else if s = ''+'' \<or> s = ''-'' then Inl InvalidDigit
      else map_sum id of_nat (radix16_digits 0 (if hd s = CHR ''+'' then tl s else s)))"

fun nat_to_dec :: "nat \<Rightarrow> string" where
  "nat_to_dec n =
     (if n < 10 then [char_of (48 + n)] else nat_to_dec (n div 10) @ [char_of (48 + n mod 10)])"

declare nat_to_dec.simps [simp del]

definition hex_digit_upper :: "nat \<Rightarrow> char" where
  "hex_digit_upper n = char_of (if n < 10 then 48 + n else 55 + n)"

text \<open>\<open>format!("{:02X}", b)\<close>\<close>

definition hex_byte_upper :: "byte \<Rightarrow> string" where
  "hex_byte_upper b = [hex_digit_upper (unat b div 16), hex_digit_upper (unat b mod 16)]"

lemma hex_digit_val_upper: "n < 16 \<Longrightarrow> hex_digit_val (hex_digit_upper n) = Some n"
  by (auto simp: hex_digit_upper_def hex_digit_val_def)

lemma unat_byte_less [simp]: "unat (b :: byte) < 256"
  using unsigned_less [of b, where ?'a = nat] by simp

text \<open>Two hexadecimal digits are read as the byte they print.\<close>

lemma u8_from_hex_byte_upper [codec_simps]: "u8_from_str_radix16 (hex_byte_upper b) = Inr b"
proof -
  have hi: "unat b div 16 < 16" and lo: "unat b mod 16 < 16"
    using unat_byte_less [of b] by (simp_all add: less_mult_imp_div_less)
  have ne: "hex_digit_upper (unat b div 16) \<noteq> CHR ''+''"
    using hex_digit_val_upper [OF hi] by (auto simp: hex_digit_val_def)
  have "unat b div 16 * 16 + unat b mod 16 = unat b" by simp
  moreover have "unat b div 16 < 256" using hi by linarith
  ultimately show ?thesis using ne unat_byte_less [of b]
    by (simp add: u8_from_str_radix16_def hex_byte_upper_def
        hex_digit_val_upper [OF hi] hex_digit_val_upper [OF lo])
qed

text \<open>\<open>str::is_char_boundary\<close>: the byte at the index does not continue a character.\<close>

definition is_char_boundary :: "string \<Rightarrow> nat \<Rightarrow> bool" where
  "is_char_boundary s i \<longleftrightarrow>
     i = 0 \<or> i = length s \<or> (i < length s \<and> \<not> (0x80 \<le> cn (s ! i) \<and> cn (s ! i) \<le> 0xBF))"

definition starts_with :: "string \<Rightarrow> string \<Rightarrow> bool" where
  "starts_with s p \<longleftrightarrow> take (length p) s = p"

lemma starts_with_append [simp]: "starts_with (p @ s) p"
  by (simp add: starts_with_def)

end
