(* ===== verification/Json.thy ===== *)
theory Json
  imports Rust_Str "HOL-Library.Char_ord" "HOL-Library.List_Lexorder"
begin

text \<open>
  JSON values as the program handles them: the public enumeration \<open>serde_json::Value\<close> with
  its accessors. The text format (\<open>to_string\<close>, \<open>from_str\<close>) belongs to the library and is a
  parameter, the record \<open>json_text\<close>: it maps texts to documents, and \<open>norm_json\<close> turns a
  document into a value, whose objects are sorted by key with the last duplicate winning, as
  the library's default (BTreeMap) object type does.
\<close>

datatype json_number =
    PosInt u64
  | NegInt "64 word"
  | Float "64 word" \<comment> \<open>the bits of an f64; the program never computes with it\<close>

datatype json =
    JNull
  | JBool bool
  | JNumber json_number
  | JString string
  | JArray "json list"
  | JObject "(string \<times> json) list"

section \<open>Objects\<close>

fun map_insert :: "string \<Rightarrow> json \<Rightarrow> (string \<times> json) list \<Rightarrow> (string \<times> json) list" where
  "map_insert k v [] = [(k, v)]"
| "map_insert k v ((k', v') # m) =
     (if k = k' then (k, v) # m
      else if k < k' then (k, v) # (k', v') # m
      else (k', v') # map_insert k v m)"

definition map_sorted :: "(string \<times> json) list \<Rightarrow> bool" where
  "map_sorted m \<longleftrightarrow> sorted_wrt (<) (map fst m)"

definition map_of_entries :: "(string \<times> json) list \<Rightarrow> (string \<times> json) list" where
  "map_of_entries kvs = fold (\<lambda>(k, v). map_insert k v) kvs []"

text \<open>\<open>json!({ ... })\<close> with the entries in the order written.\<close>

definition json_object :: "(string \<times> json) list \<Rightarrow> json" where
  "json_object kvs = JObject (map_of_entries kvs)"

lemma map_of_map_insert [simp]: "map_of (map_insert k v m) = (map_of m)(k \<mapsto> v)"
  by (induction m) (auto simp: fun_eq_iff)

lemma map_insert_keys: "fst ` set (map_insert k v m) = insert k (fst ` set m)"
  by (metis dom_fun_upd dom_map_of_conv_image_fst map_of_map_insert option.discI)

lemma map_sorted_insert [wf_intros]: "map_sorted m \<Longrightarrow> map_sorted (map_insert k v m)"
proof (induction m)
  case (Cons e m)
  obtain k' v' where e: "e = (k', v')" by (cases e)
  from Cons.prems e have hd: "\<forall>x \<in> fst ` set m. k' < x" and tl: "map_sorted m"
    by (auto simp: map_sorted_def)
  have "k' < k \<Longrightarrow> \<forall>x \<in> fst ` set (map_insert k v m). k' < x"
    using hd by (simp add: map_insert_keys)
  with e hd tl Cons.IH show ?case
    by (auto simp: map_sorted_def not_less_iff_gr_or_eq intro: less_trans)
qed (simp add: map_sorted_def)

lemma fold_map_insert:
  "map_of (fold (\<lambda>(k, v). map_insert k v) kvs m) = map_of m ++ map_of (rev kvs)"
  by (induction kvs arbitrary: m) (auto simp: map_add_upd_left fun_eq_iff map_add_def split: option.split)

lemma map_of_entries_lookup: "map_of (map_of_entries kvs) = map_of (rev kvs)"
  by (simp add: map_of_entries_def fold_map_insert)

lemma fold_map_insert_sorted: "map_sorted m \<Longrightarrow> map_sorted (fold (\<lambda>(k, v). map_insert k v) kvs m)"
  by (induction kvs arbitrary: m) (auto intro: map_sorted_insert)

lemma map_sorted_entries [simp]: "map_sorted (map_of_entries kvs)"
  unfolding map_of_entries_def by (rule fold_map_insert_sorted) (simp add: map_sorted_def)

text \<open>A sorted object is determined by what it maps each key to.\<close>

lemma map_sorted_distinct: "map_sorted m \<Longrightarrow> distinct (map fst m)"
  by (simp add: map_sorted_def strict_sorted_iff)

lemma map_sorted_unique: "map_sorted m \<Longrightarrow> map_sorted m' \<Longrightarrow> map_of m = map_of m' \<Longrightarrow> m = m'"
proof -
  assume s: "map_sorted m" "map_sorted m'" and eq: "map_of m = map_of m'"
  have d: "distinct (map fst m)" "distinct (map fst m')"
    using s by (simp_all add: map_sorted_distinct)
  have set: "set m = set m'"
    using eq d by (simp add: map_of_inject_set)
  have "inj_on fst (set m \<union> set m')"
    using d set by (simp add: distinct_map)
  then show "m = m'"
    using s d set
    by (intro map_sorted_distinct_set_unique) (auto simp: map_sorted_def strict_sorted_iff)
qed

lemma map_of_rev_distinct: "distinct (map fst m) \<Longrightarrow> map_of (rev m) = map_of m"
  by (subst map_of_inject_set) (simp_all flip: rev_map)

lemma map_of_entries_sorted [simp]: "map_sorted m \<Longrightarrow> map_of_entries m = m"
  by (rule map_sorted_unique)
    (simp_all add: map_of_entries_lookup map_of_rev_distinct map_sorted_distinct)

section \<open>Accessors\<close>

definition jget :: "json \<Rightarrow> string \<Rightarrow> json option" where
  "jget v k = (case v of JObject m \<Rightarrow> map_of m k | _ \<Rightarrow> None)"

definition as_str :: "json \<Rightarrow> string option" where
  "as_str v = (case v of JString s \<Rightarrow> Some s | _ \<Rightarrow> None)"

definition as_array :: "json \<Rightarrow> json list option" where
  "as_array v = (case v of JArray xs \<Rightarrow> Some xs | _ \<Rightarrow> None)"

definition as_object :: "json \<Rightarrow> (string \<times> json) list option" where
  "as_object v = (case v of JObject m \<Rightarrow> Some m | _ \<Rightarrow> None)"

definition as_u64 :: "json \<Rightarrow> u64 option" where
  "as_u64 v = (case v of JNumber (PosInt n) \<Rightarrow> Some n | _ \<Rightarrow> None)"

text \<open>
  \<open>as_i64\<close>: a non-negative number fits only below \<open>2 ^ 63\<close>, where its sign bit is clear.
  An i64 is a 64-bit word read with \<open>sint\<close>.
\<close>

definition as_i64 :: "json \<Rightarrow> 64 word option" where
  "as_i64 v =
     (case v of
        JNumber (PosInt n) \<Rightarrow> if 0 \<le> sint n then Some n else None
      | JNumber (NegInt n) \<Rightarrow> Some n
      | _ \<Rightarrow> None)"

text \<open>An i64 prints as a non-negative or as a negative number.\<close>

definition json_of_i64 :: "64 word \<Rightarrow> json" where
  "json_of_i64 n = JNumber (if 0 \<le> sint n then PosInt n else NegInt n)"

lemma as_i64_of_i64 [simp]: "as_i64 (json_of_i64 n) = Some n"
  by (simp add: as_i64_def json_of_i64_def)

definition json_of_nat :: "nat \<Rightarrow> json" where
  "json_of_nat n = JNumber (PosInt (of_nat n))"

definition get_str :: "json \<Rightarrow> string \<Rightarrow> string option" where
  "get_str v k = Option.bind (jget v k) as_str"

text \<open>
  \<open>obj[field] = x\<close> on an object. The program only assigns to a field that it has just read,
  so the cases where the library would panic (\<open>obj\<close> is not an object) are left unchanged.
\<close>

definition jset :: "json \<Rightarrow> string \<Rightarrow> json \<Rightarrow> json" where
  "jset v k x = (case v of JObject m \<Rightarrow> JObject (map_insert k x m) | _ \<Rightarrow> v)"

lemma jget_simps [simp]:
  "jget JNull k = None" "jget (JBool b) k = None" "jget (JNumber n) k = None"
  "jget (JString s) k = None" "jget (JArray xs) k = None" "jget (JObject m) k = map_of m k"
  by (simp_all add: jget_def)

lemma as_str_simps [simp]:
  "as_str (JString s) = Some s" "as_str JNull = None" "as_str (JBool b) = None"
  "as_str (JNumber n) = None" "as_str (JArray xs) = None" "as_str (JObject m) = None"
  by (simp_all add: as_str_def)

lemma as_array_simps [simp]:
  "as_array (JArray xs) = Some xs" "as_array JNull = None" "as_array (JObject m) = None"
  by (simp_all add: as_array_def)

lemma as_str_SomeD: "as_str v = Some s \<Longrightarrow> v = JString s"
  by (cases v) (auto simp: as_str_def)

lemma jget_SomeD: "jget v k = Some x \<Longrightarrow> \<exists>m. v = JObject m \<and> map_of m k = Some x"
  by (cases v) auto

lemma jget_json_object: "jget (json_object kvs) k = map_of (rev kvs) k"
  by (simp add: json_object_def map_of_entries_lookup)

lemma jget_jset: "jget v k \<noteq> None \<Longrightarrow> jget (jset v k x) k' = (if k' = k then Some x else jget v k')"
  by (cases v) (auto simp: jset_def)

section \<open>Documents and values\<close>

fun norm_json :: "json \<Rightarrow> json" where
  "norm_json (JArray xs) = JArray (map norm_json xs)"
| "norm_json (JObject m) = JObject (map_of_entries (map (\<lambda>(k, v). (k, norm_json v)) m))"
| "norm_json v = v"

fun json_wf :: "json \<Rightarrow> bool" where
  "json_wf (JArray xs) = (\<forall>x \<in> set xs. json_wf x)"
| "json_wf (JObject m) = (map_sorted m \<and> (\<forall>(k, v) \<in> set m. json_wf v))"
| "json_wf v = True"

lemma norm_json_wf [simp]: "json_wf v \<Longrightarrow> norm_json v = v"
proof (induction v rule: json_wf.induct)
  case (1 xs)
  then show ?case by (simp add: map_idI)
next
  case (2 m)
  then have "map (\<lambda>(k, v). (k, norm_json v)) m = m"
    by (intro map_idI) (auto split: prod.splits)
  with 2 show ?case by simp
qed simp_all

lemma map_insert_set: "set (map_insert k v m) \<subseteq> insert (k, v) (set m)"
  by (induction m) (auto split: if_splits)

lemma fold_map_insert_set: "set (fold (\<lambda>(k, v). map_insert k v) kvs m) \<subseteq> set kvs \<union> set m"
  using map_insert_set by (induction kvs arbitrary: m) (fastforce split: prod.splits)+

lemma map_of_entries_set: "set (map_of_entries kvs) \<subseteq> set kvs"
  unfolding map_of_entries_def using fold_map_insert_set [of kvs "[]"] by simp

lemma json_wf_object [wf_intros]: "\<forall>(k, v) \<in> set kvs. json_wf v \<Longrightarrow> json_wf (json_object kvs)"
  using map_of_entries_set [of kvs] by (auto simp: json_object_def)

lemma json_wf_norm [simp]: "json_wf (norm_json v)"
proof (induction v rule: norm_json.induct)
  case (2 m)
  have "\<forall>(k, v) \<in> set (map (\<lambda>(k, v). (k, norm_json v)) m). json_wf v"
    using "2.IH" by auto
  from json_wf_object [OF this] show ?case by (simp add: json_object_def)
qed auto

text \<open>
  The text format of \<open>serde_json\<close>: \<open>json_to_string\<close> prints a value compactly,
  \<open>json_from_str\<close> reads a text as a document. Only the facts a theorem names are assumed.
\<close>

record json_text =
  json_to_string :: "json \<Rightarrow> string"
  json_from_str :: "string \<Rightarrow> json option"

definition from_str_value :: "json_text \<Rightarrow> string \<Rightarrow> json option" where
  "from_str_value J s = map_option norm_json (json_from_str J s)"

text \<open>
  What is used of the printer for one value \<open>v\<close>: its text is read back as \<open>v\<close>, is valid
  UTF-8 without a line break, and ends in a character that is not white space.
\<close>

definition prints_line :: "json_text \<Rightarrow> json \<Rightarrow> bool" where
  "prints_line J v \<longleftrightarrow>
     json_from_str J (json_to_string J v) = Some v \<and>
     utf8_valid (as_bytes (json_to_string J v)) \<and>
     newline \<notin> set (json_to_string J v) \<and>
     json_to_string J v \<noteq> [] \<and>
     ws_rev_len (rev (json_to_string J v)) = 0"

end
