(* ===== verification/Protocol.thy ===== *)
theory Protocol
  imports Json "HOL-Library.Monad_Syntax"
begin

text \<open>
  The crate \<open>avatar-protocol\<close> (crates/avatar-protocol/src/lib.rs): the BIP-32 index of a
  protocol name, the JSON-RPC 2.0 message types with what their \<open>serde\<close> attributes make of
  them on the wire, and newline-delimited framing.
\<close>

section \<open>Protocol index\<close>

text \<open>SHA-256 belongs to the crate \<open>sha2\<close> and is a parameter; its digest has 32 bytes.\<close>

definition protocol_index :: "(bytes \<Rightarrow> bytes) \<Rightarrow> string \<Rightarrow> u32" where
  "protocol_index sha256 name =
     (let hash = sha256 (as_bytes name);
          raw = u32_from_be_bytes (hash ! 0) (hash ! 1) (hash ! 2) (hash ! 3)
      in raw AND 0x7FFFFFFF)"

lemma unat_and_31: "unat (w AND 0x7FFFFFFF :: u32) < 2 ^ 31"
proof -
  have "w AND 0x7FFFFFFF \<le> (0x7FFFFFFF :: u32)" by (rule word_and_le1)
  then show ?thesis by (simp add: word_le_nat_alt)
qed

section \<open>Message types\<close>

definition MAX_LINE_SIZE :: nat where
  "MAX_LINE_SIZE = 1024 * 1024"

record json_rpc_request =
  req_jsonrpc :: string
  req_method :: string
  req_params :: json
  req_id :: "json option"

record json_rpc_error =
  err_code :: "64 word"
  err_message :: string
  err_data :: "json option"

record json_rpc_response =
  resp_jsonrpc :: string
  resp_result :: "json option"
  resp_error :: "json_rpc_error option"
  resp_id :: json

record json_rpc_message =
  msg_jsonrpc :: string
  msg_method :: "string option"
  msg_params :: json
  msg_result :: "json option"
  msg_error :: "json_rpc_error option"
  msg_id :: "json option"

definition request_new :: "string \<Rightarrow> json \<Rightarrow> json \<Rightarrow> json_rpc_request" where
  "request_new meth params i =
     \<lparr>req_jsonrpc = ''2.0'', req_method = meth, req_params = params, req_id = Some i\<rparr>"

definition request_notification :: "string \<Rightarrow> json \<Rightarrow> json_rpc_request" where
  "request_notification meth params =
     \<lparr>req_jsonrpc = ''2.0'', req_method = meth, req_params = params, req_id = None\<rparr>"

definition response_success :: "json \<Rightarrow> json \<Rightarrow> json_rpc_response" where
  "response_success i res =
     \<lparr>resp_jsonrpc = ''2.0'', resp_result = Some res, resp_error = None, resp_id = i\<rparr>"

definition response_error :: "json \<Rightarrow> 64 word \<Rightarrow> string \<Rightarrow> json_rpc_response" where
  "response_error i code message =
     \<lparr>resp_jsonrpc = ''2.0'', resp_result = None,
      resp_error = Some \<lparr>err_code = code, err_message = message, err_data = None\<rparr>,
      resp_id = i\<rparr>"

definition JSONRPC_PARSE_ERROR :: "64 word" where "JSONRPC_PARSE_ERROR = - 32700"
definition JSONRPC_INVALID_REQUEST :: "64 word" where "JSONRPC_INVALID_REQUEST = - 32600"
definition JSONRPC_METHOD_NOT_FOUND :: "64 word" where "JSONRPC_METHOD_NOT_FOUND = - 32601"
definition JSONRPC_INVALID_PARAMS :: "64 word" where "JSONRPC_INVALID_PARAMS = - 32602"
definition JSONRPC_INTERNAL_ERROR :: "64 word" where "JSONRPC_INTERNAL_ERROR = - 32603"
definition JSONRPC_NO_SESSION :: "64 word" where "JSONRPC_NO_SESSION = - 32001"
definition JSONRPC_SEND_FAILED :: "64 word" where "JSONRPC_SEND_FAILED = - 32002"
definition JSONRPC_TIMEOUT :: "64 word" where "JSONRPC_TIMEOUT = - 32003"
definition JSONRPC_CHANNEL_DROPPED :: "64 word" where "JSONRPC_CHANNEL_DROPPED = - 32004"

definition is_request :: "json_rpc_message \<Rightarrow> bool" where
  "is_request m \<longleftrightarrow> msg_method m \<noteq> None"

definition is_response :: "json_rpc_message \<Rightarrow> bool" where
  "is_response m \<longleftrightarrow> msg_result m \<noteq> None \<or> msg_error m \<noteq> None"

section \<open>Serialisation\<close>

text \<open>
  The derived \<open>Serialize\<close> writes the fields in declaration order; \<open>skip_serializing_if\<close>
  leaves out null parameters and absent options. The result is a document.
\<close>

definition opt_entry :: "string \<Rightarrow> json option \<Rightarrow> (string \<times> json) list" where
  "opt_entry k v = (case v of None \<Rightarrow> [] | Some x \<Rightarrow> [(k, x)])"

definition encode_request :: "json_rpc_request \<Rightarrow> json" where
  "encode_request r = JObject
     ([(''jsonrpc'', JString (req_jsonrpc r)), (''method'', JString (req_method r))] @
      (if req_params r = JNull then [] else [(''params'', req_params r)]) @
      opt_entry ''id'' (req_id r))"

definition encode_error :: "json_rpc_error \<Rightarrow> json" where
  "encode_error e = JObject
     ([(''code'', json_of_i64 (err_code e)), (''message'', JString (err_message e))] @
      opt_entry ''data'' (err_data e))"

definition encode_response :: "json_rpc_response \<Rightarrow> json" where
  "encode_response r = JObject
     ([(''jsonrpc'', JString (resp_jsonrpc r))] @
      opt_entry ''result'' (resp_result r) @
      opt_entry ''error'' (map_option encode_error (resp_error r)) @
      [(''id'', resp_id r)])"

section \<open>Deserialisation\<close>

text \<open>
  The derived \<open>Deserialize\<close> takes an object, whose unknown keys it ignores and whose repeated
  known keys it refuses, or an array with the fields by position. A missing key is an absent
  option or the default; an explicit null is an absent option too. A positional field can be
  left out only when it has a default.
\<close>

datatype field = Missing | Repeated | Present json

definition field_of :: "string \<Rightarrow> (string \<times> json) list \<Rightarrow> field" where
  "field_of k m =
     (case filter (\<lambda>(k', _). k' = k) m of
        [] \<Rightarrow> Missing | [(_, v)] \<Rightarrow> Present v | _ \<Rightarrow> Repeated)"

fun de_string :: "field \<Rightarrow> string option" where
  "de_string (Present (JString s)) = Some s"
| "de_string _ = None"

fun de_opt_string :: "field \<Rightarrow> string option option" where
  "de_opt_string Missing = Some None"
| "de_opt_string (Present JNull) = Some None"
| "de_opt_string (Present (JString s)) = Some (Some s)"
| "de_opt_string _ = None"

fun de_value :: "field \<Rightarrow> json option" where
  "de_value (Present v) = Some (norm_json v)"
| "de_value _ = None"

fun de_default_value :: "field \<Rightarrow> json option" where
  "de_default_value Missing = Some JNull"
| "de_default_value (Present v) = Some (norm_json v)"
| "de_default_value Repeated = None"

fun de_opt_value :: "field \<Rightarrow> json option option" where
  "de_opt_value Missing = Some None"
| "de_opt_value (Present JNull) = Some None"
| "de_opt_value (Present v) = Some (Some (norm_json v))"
| "de_opt_value Repeated = None"

fun de_i64 :: "field \<Rightarrow> 64 word option" where
  "de_i64 (Present v) = as_i64 v"
| "de_i64 _ = None"

definition de_error_fields :: "field \<Rightarrow> field \<Rightarrow> field \<Rightarrow> json_rpc_error option" where
  "de_error_fields c m d = do {
     code \<leftarrow> de_i64 c;
     message \<leftarrow> de_string m;
     data \<leftarrow> de_opt_value d;
     Some \<lparr>err_code = code, err_message = message, err_data = data\<rparr> }"

definition decode_error :: "json \<Rightarrow> json_rpc_error option" where
  "decode_error v =
     (case v of
        JObject m \<Rightarrow> de_error_fields (field_of ''code'' m) (field_of ''message'' m) (field_of ''data'' m)
      | JArray [c, m, d] \<Rightarrow> de_error_fields (Present c) (Present m) (Present d)
      | _ \<Rightarrow> None)"

fun de_opt_error :: "field \<Rightarrow> json_rpc_error option option" where
  "de_opt_error Missing = Some None"
| "de_opt_error (Present JNull) = Some None"
| "de_opt_error (Present v) = map_option Some (decode_error v)"
| "de_opt_error Repeated = None"

definition de_request_fields :: "field \<Rightarrow> field \<Rightarrow> field \<Rightarrow> field \<Rightarrow> json_rpc_request option" where
  "de_request_fields j m p i = do {
     jsonrpc \<leftarrow> de_string j;
     meth \<leftarrow> de_string m;
     params \<leftarrow> de_default_value p;
     ident \<leftarrow> de_opt_value i;
     Some \<lparr>req_jsonrpc = jsonrpc, req_method = meth, req_params = params, req_id = ident\<rparr> }"

definition decode_request :: "json \<Rightarrow> json_rpc_request option" where
  "decode_request v =
     (case v of
        JObject m \<Rightarrow> de_request_fields (field_of ''jsonrpc'' m) (field_of ''method'' m)
                       (field_of ''params'' m) (field_of ''id'' m)
      | JArray [j, m, p, i] \<Rightarrow> de_request_fields (Present j) (Present m) (Present p) (Present i)
      | _ \<Rightarrow> None)"

definition de_response_fields :: "field \<Rightarrow> field \<Rightarrow> field \<Rightarrow> field \<Rightarrow> json_rpc_response option" where
  "de_response_fields j r e i = do {
     jsonrpc \<leftarrow> de_string j;
     result \<leftarrow> de_opt_value r;
     err \<leftarrow> de_opt_error e;
     ident \<leftarrow> de_value i;
     Some \<lparr>resp_jsonrpc = jsonrpc, resp_result = result, resp_error = err, resp_id = ident\<rparr> }"

definition decode_response :: "json \<Rightarrow> json_rpc_response option" where
  "decode_response v =
     (case v of
        JObject m \<Rightarrow> de_response_fields (field_of ''jsonrpc'' m) (field_of ''result'' m)
                       (field_of ''error'' m) (field_of ''id'' m)
      | JArray [j, r, e, i] \<Rightarrow> de_response_fields (Present j) (Present r) (Present e) (Present i)
      | _ \<Rightarrow> None)"

definition de_message_fields ::
    "field \<Rightarrow> field \<Rightarrow> field \<Rightarrow> field \<Rightarrow> field \<Rightarrow> field \<Rightarrow> json_rpc_message option" where
  "de_message_fields j m p r e i = do {
     jsonrpc \<leftarrow> de_string j;
     meth \<leftarrow> de_opt_string m;
     params \<leftarrow> de_default_value p;
     result \<leftarrow> de_opt_value r;
     err \<leftarrow> de_opt_error e;
     ident \<leftarrow> de_opt_value i;
     Some \<lparr>msg_jsonrpc = jsonrpc, msg_method = meth, msg_params = params,
           msg_result = result, msg_error = err, msg_id = ident\<rparr> }"

definition decode_message :: "json \<Rightarrow> json_rpc_message option" where
  "decode_message v =
     (case v of
        JObject m \<Rightarrow> de_message_fields (field_of ''jsonrpc'' m) (field_of ''method'' m)
                       (field_of ''params'' m) (field_of ''result'' m) (field_of ''error'' m)
                       (field_of ''id'' m)
      | JArray [j, m, p, r, e] \<Rightarrow> de_message_fields (Present j) (Present m) (Present p)
                       (Present r) (Present e) Missing
      | JArray [j, m, p, r, e, i] \<Rightarrow> de_message_fields (Present j) (Present m) (Present p)
                       (Present r) (Present e) (Present i)
      | _ \<Rightarrow> None)"

section \<open>What survives the wire\<close>

definition wire_opt :: "json option \<Rightarrow> json option" where
  "wire_opt v = (case v of None \<Rightarrow> None | Some x \<Rightarrow> if x = JNull then None else Some (norm_json x))"

definition wire_request :: "json_rpc_request \<Rightarrow> json_rpc_request" where
  "wire_request r = r\<lparr>req_params := norm_json (req_params r), req_id := wire_opt (req_id r)\<rparr>"

definition wire_error :: "json_rpc_error \<Rightarrow> json_rpc_error" where
  "wire_error e = e\<lparr>err_data := wire_opt (err_data e)\<rparr>"

definition wire_response :: "json_rpc_response \<Rightarrow> json_rpc_response" where
  "wire_response r = r\<lparr>resp_result := wire_opt (resp_result r),
     resp_error := map_option wire_error (resp_error r), resp_id := norm_json (resp_id r)\<rparr>"

definition message_of_request :: "json_rpc_request \<Rightarrow> json_rpc_message" where
  "message_of_request r = \<lparr>msg_jsonrpc = req_jsonrpc r, msg_method = Some (req_method r),
     msg_params = req_params r, msg_result = None, msg_error = None, msg_id = req_id r\<rparr>"

definition message_of_response :: "json_rpc_response \<Rightarrow> json_rpc_message" where
  "message_of_response r = \<lparr>msg_jsonrpc = resp_jsonrpc r, msg_method = None, msg_params = JNull,
     msg_result = resp_result r, msg_error = resp_error r,
     msg_id = (if resp_id r = JNull then None else Some (resp_id r))\<rparr>"

lemma de_opt_value_wire [codec_simps]:
  "de_opt_value (case v of None \<Rightarrow> Missing | Some x \<Rightarrow> Present x) = Some (wire_opt v)"
proof (cases v)
  case (Some x)
  then show ?thesis by (cases x) (auto simp: wire_opt_def)
qed (simp add: wire_opt_def)

lemma field_of_Cons [codec_simps]:
  "field_of k ((k', v) # m) =
     (if k' = k then (case field_of k m of Missing \<Rightarrow> Present v | _ \<Rightarrow> Repeated) else field_of k m)"
  by (auto simp: field_of_def split: list.splits)

lemma field_of_Nil [codec_simps]: "field_of k [] = Missing"
  by (simp add: field_of_def)

lemma field_of_opt_other [codec_simps]:
  "k' \<noteq> k \<Longrightarrow> field_of k (opt_entry k' x @ m) = field_of k m"
  "k' \<noteq> k \<Longrightarrow> field_of k (opt_entry k' x) = Missing"
  by (auto simp: opt_entry_def field_of_Cons field_of_Nil split: option.splits)

lemma field_of_opt_same [codec_simps]:
  "field_of k m = Missing \<Longrightarrow>
     field_of k (opt_entry k x @ m) = (case x of None \<Rightarrow> Missing | Some y \<Rightarrow> Present y)"
  "field_of k (opt_entry k x) = (case x of None \<Rightarrow> Missing | Some y \<Rightarrow> Present y)"
  by (auto simp: opt_entry_def field_of_Cons field_of_Nil split: option.splits)

lemma decode_encode_error [codec_simps]: "decode_error (encode_error e) = Some (wire_error e)"
  by (simp add: decode_error_def encode_error_def de_error_fields_def codec_simps wire_error_def)

lemma de_opt_error_wire [codec_simps]:
  "de_opt_error (case e of None \<Rightarrow> Missing | Some y \<Rightarrow> (Present \<circ> encode_error) y) =
     Some (map_option wire_error e)"
proof (cases e)
  case (Some x)
  have "de_opt_error (Present (encode_error x)) = map_option Some (decode_error (encode_error x))"
    by (simp add: encode_error_def)
  with Some show ?thesis by (simp add: decode_encode_error)
qed simp

lemma params_field [codec_simps]:
  "de_default_value (field_of ''params'' ((if p = JNull then [] else [(''params'', p)]) @ m)) =
     (case field_of ''params'' m of Missing \<Rightarrow> Some (norm_json p)
      | Present v \<Rightarrow> if p = JNull then Some (norm_json v) else None
      | Repeated \<Rightarrow> None)"
  by (auto simp: codec_simps split: field.splits)

lemma params_field_other [codec_simps]:
  "k \<noteq> ''params'' \<Longrightarrow>
     field_of k ((if p = JNull then [] else [(''params'', p)]) @ m) = field_of k m"
  by (auto simp: field_of_Cons)

lemma decode_encode_request: "decode_request (encode_request r) = Some (wire_request r)"
  by (simp add: decode_request_def encode_request_def de_request_fields_def codec_simps
      wire_request_def)

lemma decode_encode_response: "decode_response (encode_response r) = Some (wire_response r)"
  by (simp add: decode_response_def encode_response_def de_response_fields_def codec_simps
      wire_response_def)

lemma jget_norm_response:
  "jget (norm_json (encode_response r)) ''result'' = map_option norm_json (resp_result r)"
  "jget (norm_json (encode_response r)) ''error'' = map_option (norm_json \<circ> encode_error) (resp_error r)"
  by (auto simp: encode_response_def map_of_entries_lookup opt_entry_def split: option.split)

lemma de_opt_value_Present:
  "de_opt_value (Present v) = Some (if v = JNull then None else Some (norm_json v))"
  by (cases v) simp_all

lemma norm_json_eq_JNull [simp]: "norm_json v = JNull \<longleftrightarrow> v = JNull"
  by (cases v) auto

lemma decode_message_encode_request:
  "decode_message (encode_request r) = Some (message_of_request (wire_request r))"
  by (simp add: decode_message_def encode_request_def de_message_fields_def codec_simps
      wire_request_def message_of_request_def)

lemma decode_message_encode_response:
  "decode_message (encode_response r) = Some (message_of_response (wire_response r))"
  by (simp add: decode_message_def encode_response_def de_message_fields_def codec_simps
      wire_response_def message_of_response_def de_opt_value_Present)

section \<open>Newline-delimited framing\<close>

datatype read_error =
    ConnectionClosed
  | InvalidUtf8
  | LineTooLong nat
  | BadJson

text \<open>\<open>read_line\<close>: up to and including the first line break, or all that is left.\<close>

fun split_line :: "bytes \<Rightarrow> bytes \<times> bytes" where
  "split_line [] = ([], [])"
| "split_line (b # s) =
     (if b = 0x0A then ([b], s) else (let (l, r) = split_line s in (b # l, r)))"

definition read_line_message ::
    "json_text \<Rightarrow> (json \<Rightarrow> 'm option) \<Rightarrow> bytes \<Rightarrow> read_error + ('m \<times> bytes)" where
  "read_line_message J decode s =
     (let (line, rest) = split_line s; n = length line in
      case from_utf8 line of
        None \<Rightarrow> Inl InvalidUtf8
      | Some text \<Rightarrow>
          if n = 0 then Inl ConnectionClosed
          else if n > MAX_LINE_SIZE then Inl (LineTooLong n)
          else case Option.bind (json_from_str J (trim_end text)) decode of
                 None \<Rightarrow> Inl BadJson
               | Some m \<Rightarrow> Inr (m, rest))"

definition write_line_message :: "json_text \<Rightarrow> ('m \<Rightarrow> json) \<Rightarrow> 'm \<Rightarrow> bytes" where
  "write_line_message J encode m = as_bytes (json_to_string J (encode m)) @ [0x0A]"

definition ok_of :: "'e + 'a \<Rightarrow> 'a option" where
  "ok_of r = (case r of Inl _ \<Rightarrow> None | Inr x \<Rightarrow> Some x)"

lemma ok_of_simps [simp]: "ok_of (Inl e) = None" "ok_of (Inr x) = Some x"
  by (simp_all add: ok_of_def)

text \<open>What can be sent as one line: printable, short enough and unchanged by the wire.\<close>

definition sendable_line :: "json_text \<Rightarrow> ('m \<Rightarrow> json) \<Rightarrow> 'm \<Rightarrow> bool" where
  "sendable_line J encode m \<longleftrightarrow>
     prints_line J (encode m) \<and> length (json_to_string J (encode m)) < MAX_LINE_SIZE"

lemma split_line_append: "0x0A \<notin> set l \<Longrightarrow> split_line (l @ 0x0A # s) = (l @ [0x0A], s)"
  by (induction l) auto

lemma split_line_concat: "split_line s = (l, r) \<Longrightarrow> s = l @ r"
  by (induction s arbitrary: l r) (auto split: if_splits prod.splits)

lemma as_bytes_newline: "0x0A \<in> set (as_bytes s) \<longleftrightarrow> newline \<in> set s"
proof -
  have "(of_char c :: byte) = 0x0A \<longleftrightarrow> c = newline" for c
  proof
    assume "(of_char c :: byte) = 0x0A"
    then have "unat (of_char c :: byte) = 10" by simp
    then have "(of_char c :: nat) = of_char newline" by simp
    then show "c = newline" by (rule of_char_eqI)
  qed simp
  then show ?thesis by (force simp: as_bytes_def)
qed

lemma as_bytes_line: "as_bytes s @ [0x0A] = as_bytes (s @ [newline])"
  by (simp add: as_bytes_def)

lemma read_write_line:
  assumes "sendable_line J encode m" and "decode (encode m) = Some m'"
  shows "read_line_message J decode (write_line_message J encode m @ rest) = Inr (m', rest)"
proof -
  let ?t = "json_to_string J (encode m)"
  from assms(1) have p: "json_from_str J ?t = Some (encode m)" "utf8_valid (as_bytes ?t)"
    "newline \<notin> set ?t" "ws_rev_len (rev ?t) = 0" and len: "length ?t < MAX_LINE_SIZE"
    by (simp_all add: sendable_line_def prints_line_def)
  have split: "split_line (write_line_message J encode m @ rest) = (as_bytes (?t @ [newline]), rest)"
    using p(3) by (simp add: write_line_message_def split_line_append as_bytes_newline
        as_bytes_line [symmetric] del: as_bytes_append)
  have "utf8_valid (as_bytes (?t @ [newline]))"
    using p(2) by (simp add: utf8_valid_append utf8_valid_ascii as_bytes_def)
  then have "from_utf8 (as_bytes (?t @ [newline])) = Some (?t @ [newline])"
    by (rule from_utf8_as_bytes)
  with split p len assms(2) show ?thesis
    by (simp add: read_line_message_def trim_end_newline del: as_bytes_append)
qed

text \<open>The line protocol implements the framing contract for each message type.\<close>

interpretation request_line: frame_codec "write_line_message J encode_request"
    "\<lambda>s. ok_of (read_line_message J decode_request s)"
    "\<lambda>r. sendable_line J encode_request r \<and> wire_request r = r" for J
  by unfold_locales (simp add: read_write_line decode_encode_request)

interpretation response_line: frame_codec "write_line_message J encode_response"
    "\<lambda>s. ok_of (read_line_message J decode_response s)"
    "\<lambda>r. sendable_line J encode_response r \<and> wire_response r = r" for J
  by unfold_locales (simp add: read_write_line decode_encode_response)

section \<open>Properties\<close>

text \<open>
  Round trip of the line transport: requests written back to back on a connection are
  read back by \<open>read_line_message\<close> one by one and in order, whatever follows them in the
  stream, when each prints on one line below the size limit and has no explicit null id.
\<close>

lemma request_stream_roundtrip:
  assumes "list_all (\<lambda>r. sendable_line J encode_request r \<and> wire_request r = r) rs"
  shows "decode_many (\<lambda>s. ok_of (read_line_message J decode_request s)) (length rs)
      (concat (map (write_line_message J encode_request) rs) @ rest) = Some (rs, rest)"
  by (rule request_line.dec_stream [OF assms])

definition toy_text :: "json \<Rightarrow> json_text" where
  "toy_text v = \<lparr>json_to_string = (\<lambda>_. ''x''), json_from_str = (\<lambda>s. if s = ''x'' then Some v else None)\<rparr>"

definition ping :: json_rpc_request where
  "ping = request_new ''ping'' JNull (JString ''7'')"

lemma ping_sendable:
  "sendable_line (toy_text (encode_request ping)) encode_request ping \<and> wire_request ping = ping"
  by (simp add: sendable_line_def prints_line_def toy_text_def MAX_LINE_SIZE_def as_bytes_def
      ping_def wire_request_def wire_opt_def request_new_def utf8_valid_ascii ascii_ws_def)

text \<open>
  C11. Every request and every response that one side serialises is decoded by the other side
  as a message with the same content up to the normal form of the wire, and is classified
  correctly: a request is never taken for a response nor the converse. The exception is part
  of the statement: a success whose result is JSON null is not classified as a response.
\<close>

theorem message_roundtrip_and_classification:
  "decode_message (encode_request r) = Some (message_of_request (wire_request r)) \<and>
   is_request (message_of_request (wire_request r)) \<and>
   \<not> is_response (message_of_request (wire_request r)) \<and>
   decode_message (encode_response q) = Some (message_of_response (wire_response q)) \<and>
   \<not> is_request (message_of_response (wire_response q)) \<and>
   (is_response (message_of_response (wire_response q)) \<longleftrightarrow>
      resp_error q \<noteq> None \<or> resp_result q \<notin> {None, Some JNull})"
  by (auto simp: decode_message_encode_request decode_message_encode_response is_request_def
      is_response_def message_of_request_def message_of_response_def wire_request_def
      wire_response_def wire_opt_def split: option.splits if_splits)

theorem message_roundtrip_and_classification_witness:
  "is_response (message_of_response (wire_response (response_success JNull (JString ''ok'')))) \<and>
   \<not> is_response (message_of_response (wire_response (response_success (JString ''1'') JNull)))"
  using message_roundtrip_and_classification [of ping "response_success JNull (JString ''ok'')"]
    message_roundtrip_and_classification [of ping "response_success (JString ''1'') JNull"]
  by (simp add: response_success_def)

text \<open>
  The outcome of reading one message, on every branch: nothing is consumed beyond the
  line, the end of the stream and a line over the limit are errors, and a message is returned
  only for a valid UTF-8 line of at most \<open>MAX_LINE_SIZE\<close> bytes, line break included.
\<close>

lemma read_line_message_outcome:
  "case read_line_message J decode s of
     Inr (m, rest) \<Rightarrow> \<exists>line text. s = line @ rest \<and> line \<noteq> [] \<and> length line \<le> MAX_LINE_SIZE \<and>
       from_utf8 line = Some text \<and>
       Option.bind (json_from_str J (trim_end text)) decode = Some m
   | Inl ConnectionClosed \<Rightarrow> s = []
   | Inl (LineTooLong n) \<Rightarrow> n = length (fst (split_line s)) \<and> MAX_LINE_SIZE < n
   | Inl InvalidUtf8 \<Rightarrow> from_utf8 (fst (split_line s)) = None
   | Inl BadJson \<Rightarrow> \<exists>text. from_utf8 (fst (split_line s)) = Some text \<and>
       Option.bind (json_from_str J (trim_end text)) decode = None"
proof -
  obtain line rest where sp: "split_line s = (line, rest)" by fastforce
  then have s: "s = line @ rest" by (rule split_line_concat)
  have "line = [] \<longleftrightarrow> s = []"
    using sp by (cases s) (auto split: if_splits prod.splits)
  then show ?thesis
  proof (cases "from_utf8 line")
    case (Some t)
    with sp s \<open>line = [] \<longleftrightarrow> s = []\<close> show ?thesis
      by (cases "Option.bind (json_from_str J (trim_end t)) decode")
        (auto simp: read_line_message_def Let_def)
  qed (simp add: sp read_line_message_def Let_def)
qed

end
