(* ===== verification/Seed.thy ===== *)
theory Seed
  imports Protocol
begin

text \<open>
  The seed file and the BIP-32 key derivations of the avatar (crates/avatar/src/seed.rs).
  The file system is explicit state; the crates \<open>bitcoin\<close> and \<open>nostr\<close> are the parameters of
  the record \<open>key_lib\<close>, whose documented laws are the named hypotheses \<open>normal_index_law\<close>
  and \<open>derivation_law\<close>.
\<close>

section \<open>Paths and files\<close>

text \<open>A path is its components, as \<open>std::path\<close> sees it: empty and \<open>.\<close> parts are dropped.\<close>

record path =
  absolute :: bool
  comps :: "string list"

fun split_slash :: "string \<Rightarrow> string list" where
  "split_slash [] = [[]]"
| "split_slash (c # cs) =
     (if c = CHR ''/'' then [] # split_slash cs
      else case split_slash cs of [] \<Rightarrow> [[c]] | w # ws \<Rightarrow> (c # w) # ws)"

definition path_of :: "string \<Rightarrow> path" where
  "path_of s = \<lparr>absolute = starts_with s ''/'',
     comps = filter (\<lambda>w. w \<noteq> [] \<and> w \<noteq> ''.'') (split_slash s)\<rparr>"

definition path_join :: "path \<Rightarrow> path \<Rightarrow> path" where
  "path_join p q = (if absolute q then q else p\<lparr>comps := comps p @ comps q\<rparr>)"

definition path_parent :: "path \<Rightarrow> path option" where
  "path_parent p = (if comps p = [] then None else Some (p\<lparr>comps := butlast (comps p)\<rparr>))"

text \<open>
  The state the program sees of the file system: the content and mode of files, the set of
  directories, and what the operating system lets this process read, write and chmod.
\<close>

record file_system =
  files :: "path \<Rightarrow> bytes option"
  modes :: "path \<Rightarrow> nat"
  dirs :: "path set"
  can_read :: "path \<Rightarrow> bool"
  can_write :: "path \<Rightarrow> bool"
  can_chmod :: "path \<Rightarrow> bool"

definition path_exists :: "file_system \<Rightarrow> path \<Rightarrow> bool" where
  "path_exists fs p \<longleftrightarrow> files fs p \<noteq> None \<or> p \<in> dirs fs"

definition fs_read :: "file_system \<Rightarrow> path \<Rightarrow> bytes option" where
  "fs_read fs p = (if can_read fs p then files fs p else None)"

definition parent_is_dir :: "file_system \<Rightarrow> path \<Rightarrow> bool" where
  "parent_is_dir fs p = (case path_parent p of None \<Rightarrow> False | Some d \<Rightarrow> d \<in> dirs fs)"

definition fs_write :: "file_system \<Rightarrow> path \<Rightarrow> bytes \<Rightarrow> file_system option" where
  "fs_write fs p content =
     (if can_write fs p \<and> p \<notin> dirs fs \<and> parent_is_dir fs p
      then Some (fs\<lparr>files := (files fs)(p \<mapsto> content)\<rparr>) else None)"

definition fs_remove :: "file_system \<Rightarrow> path \<Rightarrow> file_system" where
  "fs_remove fs p = (if can_write fs p then fs\<lparr>files := (files fs)(p := None)\<rparr> else fs)"

definition fs_chmod :: "file_system \<Rightarrow> path \<Rightarrow> nat \<Rightarrow> file_system option" where
  "fs_chmod fs p m =
     (if can_chmod fs p then Some (fs\<lparr>modes := (modes fs)(p := m)\<rparr>) else None)"

definition MODE_0600 :: nat where "MODE_0600 = 6 * 8 * 8"

section \<open>The seed file\<close>

datatype seed_error =
    ReadFailed
  | WrongSize nat
  | NoParent
  | DirMissing
  | NotWritable
  | RandomFailed
  | WriteFailed
  | ChmodFailed

definition DEFAULT_SEED_PATH :: string where
  "DEFAULT_SEED_PATH = ''/var/lib/keymaster-avatar/seed''"

definition read_seed :: "file_system \<Rightarrow> path \<Rightarrow> seed_error + bytes" where
  "read_seed fs p =
     (case fs_read fs p of
        None \<Rightarrow> Inl ReadFailed
      | Some data \<Rightarrow> if length data \<noteq> 32 then Inl (WrongSize (length data)) else Inr data)"

text \<open>
  \<open>rng\<close> is what \<open>getrandom\<close> fills the 32-byte buffer with, if it succeeds. The file system is
  returned on every path, because a failure after a write leaves the write in place.
\<close>

definition resolve_seed ::
    "bytes option \<Rightarrow> file_system \<Rightarrow> path \<Rightarrow> (seed_error + bytes) \<times> file_system" where
  "resolve_seed rng fs seed_path =
     (if path_exists fs seed_path then (read_seed fs seed_path, fs)
      else case path_parent seed_path of
        None \<Rightarrow> (Inl NoParent, fs)
      | Some parent \<Rightarrow>
          if \<not> path_exists fs parent then (Inl DirMissing, fs)
          else let probe = path_join parent (path_of ''.seed-probe'') in
            case fs_write fs probe [] of
              None \<Rightarrow> (Inl NotWritable, fs)
            | Some fs1 \<Rightarrow>
                let fs2 = fs_remove fs1 probe in
                case rng of
                  None \<Rightarrow> (Inl RandomFailed, fs2)
                | Some seed \<Rightarrow>
                    (case fs_write fs2 seed_path seed of
                       None \<Rightarrow> (Inl WriteFailed, fs2)
                     | Some fs3 \<Rightarrow>
                         (case fs_chmod fs3 seed_path MODE_0600 of
                            None \<Rightarrow> (Inl ChmodFailed, fs3)
                          | Some fs4 \<Rightarrow> (Inr seed, fs4))))"

section \<open>Key derivation\<close>

text \<open>Values of the libraries' types, identified with their serialised form.\<close>

datatype xpriv = Xpriv bytes
datatype xpub = Xpub bytes
datatype keys = Keys bytes
datatype public_key = PublicKey bytes

record key_lib =
  new_master :: "bytes \<Rightarrow> xpriv option"
  from_normal_idx :: "u32 \<Rightarrow> u32 option"
  derive_priv :: "xpriv \<Rightarrow> u32 list \<Rightarrow> xpriv option"
  derive_pub :: "xpub \<Rightarrow> u32 list \<Rightarrow> xpub option"
  xpub_from_priv :: "xpriv \<Rightarrow> xpub"
  secret_bytes :: "xpriv \<Rightarrow> bytes"
  serialize_public :: "xpub \<Rightarrow> bytes"
  keys_of_secret :: "bytes \<Rightarrow> keys option"
  public_key_from_slice :: "bytes \<Rightarrow> public_key option"
  key_pair_public :: "keys \<Rightarrow> public_key"

record login_keys =
  lk_xpriv :: xpriv
  lk_xpub :: xpub
  lk_nostr_keys :: keys

datatype derive_error =
    BadMaster
  | BadIndex u32
  | BadDerivation
  | BadSecret
  | BadPublicKey

definition ok_or :: "'e \<Rightarrow> 'a option \<Rightarrow> 'e + 'a" where
  "ok_or e x = (case x of None \<Rightarrow> Inl e | Some y \<Rightarrow> Inr y)"

definition and_then :: "'e + 'a \<Rightarrow> ('a \<Rightarrow> 'e + 'b) \<Rightarrow> 'e + 'b" where
  "and_then r f = (case r of Inl e \<Rightarrow> Inl e | Inr x \<Rightarrow> f x)"

lemma ok_or_simps [simp]: "ok_or e None = Inl e" "ok_or e (Some x) = Inr x"
  by (simp_all add: ok_or_def)

lemma and_then_simps [simp]: "and_then (Inl e) f = Inl e" "and_then (Inr x) f = f x"
  by (simp_all add: and_then_def)

definition normal_index :: "key_lib \<Rightarrow> u32 \<Rightarrow> derive_error + u32" where
  "normal_index K i = ok_or (BadIndex i) (from_normal_idx K i)"

definition derive_login_keys :: "key_lib \<Rightarrow> bytes \<Rightarrow> u32 \<Rightarrow> derive_error + login_keys" where
  "derive_login_keys K seed login_seq =
     and_then (ok_or BadMaster (new_master K seed)) (\<lambda>master.
     and_then (normal_index K login_seq) (\<lambda>i.
     and_then (ok_or BadDerivation (derive_priv K master [i])) (\<lambda>login_xpriv.
     and_then (ok_or BadSecret (keys_of_secret K (secret_bytes K login_xpriv))) (\<lambda>nostr_keys.
     Inr \<lparr>lk_xpriv = login_xpriv, lk_xpub = xpub_from_priv K login_xpriv,
          lk_nostr_keys = nostr_keys\<rparr>))))"

definition derive_service_keys ::
    "key_lib \<Rightarrow> (bytes \<Rightarrow> bytes) \<Rightarrow> xpriv \<Rightarrow> string \<Rightarrow> u32 \<Rightarrow> derive_error + keys" where
  "derive_service_keys K sha256 login_xpriv protocol seq =
     and_then (normal_index K (protocol_index sha256 protocol)) (\<lambda>h.
     and_then (normal_index K seq) (\<lambda>s.
     and_then (ok_or BadDerivation (derive_priv K login_xpriv [h, s])) (\<lambda>child.
     ok_or BadSecret (keys_of_secret K (secret_bytes K child)))))"

text \<open>The x-only key is bytes 1 to 32 of the 33-byte compressed key.\<close>

definition derive_service_pubkey ::
    "key_lib \<Rightarrow> (bytes \<Rightarrow> bytes) \<Rightarrow> xpub \<Rightarrow> string \<Rightarrow> u32 \<Rightarrow> derive_error + public_key" where
  "derive_service_pubkey K sha256 xp protocol seq =
     and_then (normal_index K (protocol_index sha256 protocol)) (\<lambda>h.
     and_then (normal_index K seq) (\<lambda>s.
     and_then (ok_or BadDerivation (derive_pub K xp [h, s])) (\<lambda>child_xpub.
     ok_or BadPublicKey (public_key_from_slice K (take 32 (drop 1 (serialize_public K child_xpub)))))))"

text \<open>\<open>ChildNumber::from_normal_idx\<close> accepts exactly the indices below \<open>2 ^ 31\<close>.\<close>

definition normal_index_law :: "key_lib \<Rightarrow> bool" where
  "normal_index_law K \<longleftrightarrow>
     (\<forall>i. from_normal_idx K i = (if unat i < 2 ^ 31 then Some i else None))"

text \<open>
  BIP-32: deriving along normal indices commutes with taking the public key, and BIP-340: the
  x-only part of a compressed public key is the Nostr public key of its secret.
\<close>

definition derivation_law :: "key_lib \<Rightarrow> bool" where
  "derivation_law K \<longleftrightarrow>
     (\<forall>x is. derive_pub K (xpub_from_priv K x) is = map_option (xpub_from_priv K) (derive_priv K x is)) \<and>
     (\<forall>x. \<exists>ks. keys_of_secret K (secret_bytes K x) = Some ks \<and>
        public_key_from_slice K (take 32 (drop 1 (serialize_public K (xpub_from_priv K x)))) =
          Some (key_pair_public K ks))"

lemma protocol_index_normal:
  "normal_index_law K \<Longrightarrow>
     normal_index K (protocol_index sha256 name) = Inr (protocol_index sha256 name)"
  by (simp add: normal_index_law_def normal_index_def protocol_index_def Let_def
      unat_and_31 [simplified])

section \<open>Properties\<close>

definition probe_path :: "path \<Rightarrow> path" where
  "probe_path seed_path =
     (case path_parent seed_path of
        None \<Rightarrow> seed_path | Some parent \<Rightarrow> path_join parent (path_of ''.seed-probe''))"

lemma fs_write_SomeD:
  "fs_write fs p c = Some fs' \<Longrightarrow> fs' = fs\<lparr>files := (files fs)(p \<mapsto> c)\<rparr>"
  by (simp add: fs_write_def split: if_splits)

lemma fs_chmod_SomeD: "fs_chmod fs p m = Some fs' \<Longrightarrow> fs' = fs\<lparr>modes := (modes fs)(p := m)\<rparr>"
  by (simp add: fs_chmod_def split: if_splits)

text \<open>What a call that generated a seed did to the file system.\<close>

lemma resolve_seed_generated:
  assumes "resolve_seed rng fs p = (Inr seed, fs')" and "\<not> path_exists fs p"
  shows "rng = Some seed \<and>
    fs' = (fs_remove (fs\<lparr>files := (files fs)(probe_path p \<mapsto> [])\<rparr>) (probe_path p))
      \<lparr>files := (files (fs_remove (fs\<lparr>files := (files fs)(probe_path p \<mapsto> [])\<rparr>) (probe_path p)))(p \<mapsto> seed),
       modes := (modes fs)(p := MODE_0600)\<rparr>"
  using assms
  by (auto simp: resolve_seed_def Let_def probe_path_def fs_remove_def
      split: option.splits if_splits dest!: fs_write_SomeD fs_chmod_SomeD)

text \<open>
  The seed survives restarts: after a start that obtained a seed, every later start on the
  file system it left obtains the same seed and leaves the file system alone, whatever the
  random source now delivers. The process can read its own file and \<open>getrandom\<close> fills 32
  bytes.
\<close>

lemma resolve_seed_persistent:
  assumes "resolve_seed rng fs p = (Inr seed, fs')" and "can_read fs p"
    and "case rng of None \<Rightarrow> True | Some r \<Rightarrow> length r = 32"
  shows "resolve_seed rng' fs' p = (Inr seed, fs')"
proof (cases "path_exists fs p")
  case True
  with assms(1) have "fs' = fs" and "read_seed fs p = Inr seed" unfolding resolve_seed_def by auto
  with True show ?thesis by (simp only: resolve_seed_def if_True)
next
  case False
  note gen = resolve_seed_generated [OF assms(1) False]
  then have "files fs' p = Some seed" "can_read fs' p"
    using assms(2) by (simp_all add: fs_remove_def)
  moreover have "length seed = 32" using gen assms(3) by simp
  ultimately show ?thesis
    by (simp add: resolve_seed_def path_exists_def read_seed_def fs_read_def)
qed

definition sample_fs :: file_system where
  "sample_fs = \<lparr>files = (\<lambda>_. None), modes = (\<lambda>_. 0), dirs = {path_of ''/var''},
     can_read = (\<lambda>_. True), can_write = (\<lambda>_. True), can_chmod = (\<lambda>_. True)\<rparr>"

lemmas seed_run_defs = resolve_seed_def path_exists_def path_parent_def path_of_def path_join_def
  fs_write_def fs_remove_def fs_chmod_def parent_is_dir_def sample_fs_def starts_with_def Let_def

text \<open>
  What resolving the seed can touch: an existing seed file, or any file system in which
  the seed path exists, is left as it is; otherwise only the seed file and the probe file of
  its directory can change, and a seed is returned as generated only when it is on disk with
  mode 0600.
\<close>

lemma resolve_seed_frame:
  "case resolve_seed rng fs p of (r, fs') \<Rightarrow>
     (path_exists fs p \<longrightarrow> fs' = fs \<and> r = read_seed fs p) \<and>
     (\<forall>q. q \<noteq> p \<and> q \<noteq> probe_path p \<longrightarrow> files fs' q = files fs q \<and> modes fs' q = modes fs q) \<and>
     (\<forall>seed. \<not> path_exists fs p \<and> r = Inr seed \<longrightarrow>
        rng = Some seed \<and> files fs' p = Some seed \<and> modes fs' p = MODE_0600)"
proof (cases "path_exists fs p")
  case False
  have frame: "files (snd (resolve_seed rng fs p)) q = files fs q \<and>
      modes (snd (resolve_seed rng fs p)) q = modes fs q" if "q \<noteq> p" "q \<noteq> probe_path p" for q
    using that False
    by (auto simp: resolve_seed_def Let_def probe_path_def fs_remove_def
        split: option.splits dest!: fs_write_SomeD fs_chmod_SomeD)
  have gen: "rng = Some seed \<and> files fs' p = Some seed \<and> modes fs' p = MODE_0600"
    if "resolve_seed rng fs p = (Inr seed, fs')" for seed fs'
    using resolve_seed_generated [OF that False] by simp
  obtain r fs' where eq: "resolve_seed rng fs p = (r, fs')" by fastforce
  with frame gen False show ?thesis by auto
qed (simp add: resolve_seed_def)

text \<open>
  C8. Both ends of a service channel derive matching keys: the public key the other side
  computes from the extended public key alone is the public key of the pair the avatar
  derives from its private key, for every service name and sequence number, and the two
  computations fail with the same error when the sequence number is not a normal index.
\<close>

theorem service_keys_agree:
  assumes "normal_index_law K" and "derivation_law K"
  shows "case derive_service_keys K sha256 x protocol seq of
      Inr ks \<Rightarrow> derive_service_pubkey K sha256 (xpub_from_priv K x) protocol seq =
        Inr (key_pair_public K ks)
    | Inl e \<Rightarrow> derive_service_pubkey K sha256 (xpub_from_priv K x) protocol seq = Inl e \<and>
        (e = BadIndex seq \<longleftrightarrow> 2 ^ 31 \<le> unat seq)"
proof -
  let ?h = "protocol_index sha256 protocol"
  show ?thesis
  proof (cases "unat seq < 2 ^ 31")
    case True
    then have seq: "normal_index K seq = Inr seq"
      using assms(1) by (simp add: normal_index_law_def normal_index_def)
    have pub: "derive_pub K (xpub_from_priv K x) [?h, seq] =
        map_option (xpub_from_priv K) (derive_priv K x [?h, seq])"
      using assms(2) by (simp add: derivation_law_def)
    show ?thesis
    proof (cases "derive_priv K x [?h, seq]")
      case (Some child)
      obtain ks where "keys_of_secret K (secret_bytes K child) = Some ks"
        "public_key_from_slice K (take 32 (drop 1 (serialize_public K (xpub_from_priv K child)))) =
          Some (key_pair_public K ks)"
        using assms(2) unfolding derivation_law_def by blast
      with Some seq pub show ?thesis
        by (simp add: derive_service_keys_def derive_service_pubkey_def
            protocol_index_normal [OF assms(1)])
    qed (use True seq pub in \<open>simp add: derive_service_keys_def derive_service_pubkey_def
            protocol_index_normal [OF assms(1)]\<close>)
  next
    case False
    then have "normal_index K seq = Inl (BadIndex seq)"
      using assms(1) by (simp add: normal_index_law_def normal_index_def)
    with False show ?thesis
      by (simp add: derive_service_keys_def derive_service_pubkey_def
          protocol_index_normal [OF assms(1)])
  qed
qed

definition toy_keys :: key_lib where
  "toy_keys = \<lparr>new_master = (\<lambda>s. Some (Xpriv s)),
     from_normal_idx = (\<lambda>i. if unat i < 2 ^ 31 then Some i else None),
     derive_priv = (\<lambda>x is. case x of Xpriv b \<Rightarrow> Some (Xpriv (b @ concat (map u32_to_be_bytes is)))),
     derive_pub = (\<lambda>x is. case x of Xpub b \<Rightarrow> Some (Xpub (b @ concat (map u32_to_be_bytes is)))),
     xpub_from_priv = (\<lambda>x. case x of Xpriv b \<Rightarrow> Xpub b), secret_bytes = (\<lambda>x. case x of Xpriv b \<Rightarrow> b),
     serialize_public = (\<lambda>x. case x of Xpub b \<Rightarrow> 2 # b), keys_of_secret = (\<lambda>b. Some (Keys b)),
     public_key_from_slice = (\<lambda>b. Some (PublicKey b)),
     key_pair_public = (\<lambda>k. case k of Keys b \<Rightarrow> PublicKey (take 32 b))\<rparr>"

lemma toy_keys_laws: "normal_index_law toy_keys" "derivation_law toy_keys"
  by (auto simp: normal_index_law_def derivation_law_def toy_keys_def split: xpriv.splits)

theorem service_keys_agree_witness:
  "derive_service_pubkey toy_keys (\<lambda>_. replicate 32 0xFF) (Xpub [9]) ''ssh'' 3 =
     Inr (PublicKey [9, 0x7F, 0xFF, 0xFF, 0xFF, 0, 0, 0, 3])"
  using service_keys_agree [OF toy_keys_laws, of "\<lambda>_. replicate 32 0xFF" "Xpriv [9]" "''ssh''" 3]
  by (simp add: toy_keys_def derive_service_keys_def normal_index_def protocol_index_def
      u32_from_be_bytes_def u32_to_be_bytes_def)

end
