(* ===== verification/User_Map.thy ===== *)
theory User_Map
  imports Seed
begin

text \<open>
  The map from Nostr keys to Unix users (crates/avatar/src/user_map.rs) and the two small
  readers of the daemon's start-up: the identity allowlist and tilde expansion
  (crates/avatar/src/main.rs). The TOML parser (crate \<open>toml\<close>) and the user database (crate
  \<open>nix\<close>) are parameters.
\<close>

section \<open>User mappings\<close>

record user_entry =
  ue_unix_user :: string
  ue_uid :: u32
  ue_gid :: u32
  ue_home :: path

type_synonym user_map = "(string, user_entry) hashmap"

record raw_user_entry =
  raw_npub :: string
  raw_unix_user :: string

record sys_user =
  su_uid :: u32
  su_gid :: u32
  su_dir :: path

datatype user_map_error =
    UsersUnreadable
  | UsersUnparsable
  | UserLookupFailed string
  | UserNotFound string

text \<open>
  \<open>from_name\<close> is the lookup in the user database: \<open>None\<close> when it fails, \<open>Some None\<close> when
  there is no such user. Logging an entry slices the key at byte 8 when the info level is
  enabled, which panics inside a character; \<open>None\<close> of the whole load is that panic.
\<close>

definition log_slice_ok :: "bool \<Rightarrow> string \<Rightarrow> bool" where
  "log_slice_ok info_enabled npub \<longleftrightarrow>
     (info_enabled \<longrightarrow> is_char_boundary npub (min 8 (length npub)))"

fun load_entries ::
    "bool \<Rightarrow> (string \<Rightarrow> sys_user option option) \<Rightarrow> raw_user_entry list \<Rightarrow> user_map \<Rightarrow>
     (user_map_error + user_map) option" where
  "load_entries info from_name [] entries = Some (Inr entries)"
| "load_entries info from_name (raw # raws) entries =
     (case from_name (raw_unix_user raw) of
        None \<Rightarrow> Some (Inl (UserLookupFailed (raw_unix_user raw)))
      | Some None \<Rightarrow> Some (Inl (UserNotFound (raw_unix_user raw)))
      | Some (Some user) \<Rightarrow>
          if log_slice_ok info (raw_npub raw) then
            load_entries info from_name raws
              (hm_insert (raw_npub raw)
                 \<lparr>ue_unix_user = raw_unix_user raw, ue_uid = su_uid user, ue_gid = su_gid user,
                  ue_home = su_dir user\<rparr> entries)
          else None)"

definition user_map_load ::
    "bool \<Rightarrow> (string \<Rightarrow> sys_user option option) \<Rightarrow> (string \<Rightarrow> raw_user_entry list option) \<Rightarrow>
     file_system \<Rightarrow> path \<Rightarrow> (user_map_error + user_map) option" where
  "user_map_load info from_name parse_users fs p =
     (case Option.bind (fs_read fs p) from_utf8 of
        None \<Rightarrow> Some (Inl UsersUnreadable)
      | Some content \<Rightarrow>
          (case parse_users content of
             None \<Rightarrow> Some (Inl UsersUnparsable)
           | Some raws \<Rightarrow> load_entries info from_name raws []))"

definition user_map_lookup :: "user_map \<Rightarrow> string \<Rightarrow> user_entry option" where
  "user_map_lookup m npub = hm_get m npub"

text \<open>What a successful load maps a key to: the last entry of the file for it.\<close>

lemma load_entries_lookup:
  "load_entries info from_name raws entries = Some (Inr m) \<Longrightarrow>
     hm_get m npub =
       (case find (\<lambda>r. raw_npub r = npub) (rev raws) of
          None \<Rightarrow> hm_get entries npub
        | Some r \<Rightarrow>
            (case from_name (raw_unix_user r) of
               Some (Some u) \<Rightarrow> Some \<lparr>ue_unix_user = raw_unix_user r, ue_uid = su_uid u,
                 ue_gid = su_gid u, ue_home = su_dir u\<rparr>
             | _ \<Rightarrow> None))"
proof (induction raws arbitrary: entries)
  case (Cons raw raws)
  then obtain user where user: "from_name (raw_unix_user raw) = Some (Some user)"
    by (auto split: option.splits if_splits)
  from Cons user show ?case
    by (auto simp: hm_get_insert find_append split: option.splits if_splits)
qed simp

section \<open>The allowlist\<close>

text \<open>\<open>str::lines\<close>: split at line feeds, a carriage return before one is dropped.\<close>

fun lines_from :: "string \<Rightarrow> string \<Rightarrow> string list" where
  "lines_from acc [] = (if acc = [] then [] else [rev acc])"
| "lines_from acc (c # cs) =
     (if c = newline
      then rev (if acc \<noteq> [] \<and> hd acc = CHR 0x0D then tl acc else acc) # lines_from [] cs
      else lines_from (c # acc) cs)"

definition lines_of :: "string \<Rightarrow> string list" where
  "lines_of s = lines_from [] s"

definition allowlist_entry :: "string \<Rightarrow> bool" where
  "allowlist_entry l \<longleftrightarrow> trim l \<noteq> [] \<and> \<not> starts_with (trim l) ''#''"

definition load_allowlist :: "file_system \<Rightarrow> path \<Rightarrow> string set" where
  "load_allowlist fs p =
     (case Option.bind (fs_read fs p) from_utf8 of
        None \<Rightarrow> {}
      | Some content \<Rightarrow> trim ` set (filter allowlist_entry (lines_of content)))"

definition expand_tilde :: "string option \<Rightarrow> string \<Rightarrow> path" where
  "expand_tilde home p =
     (if starts_with p ''~/''
      then case home of
             Some h \<Rightarrow> path_join (path_of h) (path_of (drop 2 p))
           | None \<Rightarrow> path_of p
      else path_of p)"

end
