(* ===== verification/Startup.thy ===== *)
theory Startup
  imports User_Map
begin

text \<open>
  Configuration files (crates/avatar-protocol/src/config.rs) and the start of the daemon up to
  its event loop (crates/avatar/src/main.rs, \<open>main\<close>): settings, allowlist, user map, seed and
  login keys, descriptor. TOML, pretty-printed JSON and the text of an extended key are
  parameters; logging, the QR code and the connection to the relay are left out.
\<close>

section \<open>Configuration files\<close>

definition config_candidates :: "string \<Rightarrow> path option \<Rightarrow> string option \<Rightarrow> path list" where
  "config_candidates binary_name cli_path home =
     (case cli_path of
        Some p \<Rightarrow> [p]
      | None \<Rightarrow>
          (case home of
             None \<Rightarrow> []
           | Some h \<Rightarrow> [path_join (path_join (path_of h) (path_of ''.config/keymaster-avatar''))
                         (path_of (binary_name @ ''.toml''))]) @
          [path_of (''/etc/keymaster-avatar/'' @ binary_name @ ''.toml'')])"

fun first_config :: "(string \<Rightarrow> 'c option) \<Rightarrow> file_system \<Rightarrow> path list \<Rightarrow> 'c option" where
  "first_config parse fs [] = None"
| "first_config parse fs (p # ps) =
     (case Option.bind (Option.bind (fs_read fs p) from_utf8) parse of
        Some config \<Rightarrow> Some config
      | None \<Rightarrow> first_config parse fs ps)"

definition load_config ::
    "(string \<Rightarrow> 'c option) \<Rightarrow> string option \<Rightarrow> file_system \<Rightarrow> string \<Rightarrow> path option \<Rightarrow> 'c option" where
  "load_config parse home fs binary_name cli_path =
     first_config parse fs (config_candidates binary_name cli_path home)"

section \<open>Settings\<close>

record avatar_cli =
  cli_config :: "path option"
  cli_relay :: string
  cli_log_level :: string
  cli_local_api_socket :: path
  cli_seed_file :: string
  cli_allowlist :: string
  cli_users_file :: path
  cli_descriptor_path :: path
  cli_bt_addr :: "string option"
  cli_rfcomm_channel :: byte

record avatar_config =
  cfg_relay :: "string option"
  cfg_log_level :: "string option"
  cfg_local_api_socket :: "path option"
  cfg_seed_file :: "string option"
  cfg_allowlist :: "string option"
  cfg_users_file :: "path option"
  cfg_descriptor_path :: "path option"
  cfg_bt_addr :: "string option"
  cfg_rfcomm_channel :: "byte option"

record avatar_settings =
  set_relay :: string
  set_log_level :: string
  set_local_api_socket :: path
  set_seed_file :: string
  set_allowlist :: string
  set_users_file :: path
  set_descriptor_path :: path
  set_bt_addr :: "string option"
  set_rfcomm_channel :: byte

definition empty_config :: avatar_config where
  "empty_config = \<lparr>cfg_relay = None, cfg_log_level = None, cfg_local_api_socket = None, cfg_seed_file = None,
     cfg_allowlist = None, cfg_users_file = None, cfg_descriptor_path = None, cfg_bt_addr = None,
     cfg_rfcomm_channel = None\<rparr>"

text \<open>
  A value that differs from the command line's default wins, then the configuration, then
  \<open>fallback\<close>, which is the default again for every setting but the seed file.
\<close>

definition setting :: "'a \<Rightarrow> 'a \<Rightarrow> 'a \<Rightarrow> 'a option \<Rightarrow> 'a" where
  "setting default_value fallback cli_value config_value =
     (if cli_value \<noteq> default_value then cli_value
      else case config_value of Some v \<Rightarrow> v | None \<Rightarrow> fallback)"

definition resolve_settings :: "avatar_cli \<Rightarrow> avatar_config \<Rightarrow> avatar_settings" where
  "resolve_settings cli config =
     \<lparr>set_relay = setting ''ws://localhost:7000'' (cli_relay cli) (cli_relay cli) (cfg_relay config),
      set_log_level = setting ''info'' (cli_log_level cli) (cli_log_level cli) (cfg_log_level config),
      set_local_api_socket = setting (path_of ''/tmp/keymaster-avatar.sock'') (cli_local_api_socket cli)
        (cli_local_api_socket cli) (cfg_local_api_socket config),
      set_seed_file = setting ''~/.config/keymaster-avatar/seed'' DEFAULT_SEED_PATH (cli_seed_file cli) (cfg_seed_file config),
      set_allowlist = setting ''~/.config/keymaster-avatar/allowlist'' (cli_allowlist cli) (cli_allowlist cli)
        (cfg_allowlist config),
      set_users_file = setting (path_of ''/etc/keymaster-avatar/users.toml'') (cli_users_file cli) (cli_users_file cli)
        (cfg_users_file config),
      set_descriptor_path = setting (path_of ''/etc/keymaster-avatar/descriptor.json'') (cli_descriptor_path cli)
        (cli_descriptor_path cli) (cfg_descriptor_path config),
      set_bt_addr = (case cli_bt_addr cli of Some a \<Rightarrow> Some a | None \<Rightarrow> cfg_bt_addr config),
      set_rfcomm_channel = setting 3 (cli_rfcomm_channel cli) (cli_rfcomm_channel cli) (cfg_rfcomm_channel config)\<rparr>"

section \<open>The descriptor\<close>

definition descriptor :: "(xpub \<Rightarrow> string) \<Rightarrow> avatar_settings \<Rightarrow> xpub \<Rightarrow> json" where
  "descriptor xpub_text S login_xpub = json_object
     ([(''relay'', JString (set_relay S)), (''login_xpub'', JString (xpub_text login_xpub)),
       (''services'', JArray [JString ''ssh'', JString ''gpg'', JString ''nostr''])] @
      (case set_bt_addr S of
         None \<Rightarrow> []
       | Some addr \<Rightarrow> [(''bt_addr'', JString addr),
                        (''rfcomm_channel'', json_of_nat (unat (set_rfcomm_channel S)))]))"

text \<open>\<open>create_dir_all\<close>: every directory on the way, unless a file is in the way.\<close>

definition ancestors :: "path \<Rightarrow> path set" where
  "ancestors p = (\<lambda>n. p\<lparr>comps := take n (comps p)\<rparr>) ` {0..length (comps p)}"

definition fs_create_dir_all :: "file_system \<Rightarrow> path \<Rightarrow> file_system option" where
  "fs_create_dir_all fs p =
     (if p \<in> dirs fs then Some fs
      else if can_write fs p \<and> (\<forall>q \<in> ancestors p. files fs q = None) then
        Some (fs\<lparr>dirs := dirs fs \<union> ancestors p\<rparr>)
      else None)"

definition write_descriptor :: "path \<Rightarrow> bytes \<Rightarrow> file_system \<Rightarrow> file_system" where
  "write_descriptor p content fs =
     (let fs1 = (case path_parent p of
                   None \<Rightarrow> fs
                 | Some parent \<Rightarrow> (case fs_create_dir_all fs parent of None \<Rightarrow> fs | Some fs' \<Rightarrow> fs'))
      in case fs_write fs1 p content of None \<Rightarrow> fs1 | Some fs2 \<Rightarrow> fs2)"

section \<open>Start-up\<close>

record boot =
  boot_allowlist :: "string set"
  boot_user_map :: "user_map option"
  boot_login_keys :: login_keys
  boot_descriptor :: json

datatype boot_error = SeedError seed_error | KeyError derive_error

record boot_env =
  be_keys :: key_lib
  be_xpub_text :: "xpub \<Rightarrow> string"
  be_pretty :: "json \<Rightarrow> string"
  be_home :: "string option"
  be_info :: bool
  be_from_name :: "string \<Rightarrow> sys_user option option"
  be_parse_users :: "string \<Rightarrow> raw_user_entry list option"

text \<open>\<open>rng\<close> is the answer of the random source. \<open>None\<close> is the panic in loading the user map.\<close>

definition avatar_startup ::
    "boot_env \<Rightarrow> bytes option \<Rightarrow> avatar_settings \<Rightarrow> file_system \<Rightarrow>
      ((boot_error + boot) \<times> file_system) option" where
  "avatar_startup E rng S fs =
     (let allowlist = load_allowlist fs (expand_tilde (be_home E) (set_allowlist S)) in
      case user_map_load (be_info E) (be_from_name E) (be_parse_users E) fs (set_users_file S) of
        None \<Rightarrow> None
      | Some loaded \<Rightarrow>
          let user_map = (case loaded of Inl _ \<Rightarrow> None | Inr m \<Rightarrow> Some m) in
          (case resolve_seed rng fs (expand_tilde (be_home E) (set_seed_file S)) of
             (Inl e, fs1) \<Rightarrow> Some (Inl (SeedError e), fs1)
           | (Inr seed, fs1) \<Rightarrow>
               (case derive_login_keys (be_keys E) seed 0 of
                  Inl e \<Rightarrow> Some (Inl (KeyError e), fs1)
                | Inr login_keys \<Rightarrow>
                    let d = descriptor (be_xpub_text E) S (lk_xpub login_keys);
                        fs2 = write_descriptor (set_descriptor_path S) (as_bytes (be_pretty E d)) fs1
                    in Some (Inr \<lparr>boot_allowlist = allowlist, boot_user_map = user_map,
                               boot_login_keys = login_keys, boot_descriptor = d\<rparr>, fs2))))"

section \<open>Lemmas\<close>

lemma resolve_seed_gives:
  assumes "resolve_seed rng fs p = (Inr seed, fs')" and "can_read fs p"
    and "case rng of None \<Rightarrow> True | Some r \<Rightarrow> length r = 32"
  shows "files fs' p = Some seed \<and> can_read fs' p \<and> length seed = 32"
proof (cases "path_exists fs p")
  case True
  with assms(1) have "fs' = fs" and "read_seed fs p = Inr seed" unfolding resolve_seed_def by auto
  with assms(2) show ?thesis by (auto simp: read_seed_def fs_read_def split: option.splits if_splits)
next
  case False
  from resolve_seed_generated [OF assms(1) False] assms(2,3) show ?thesis by (simp add: fs_remove_def)
qed

lemma write_descriptor_keeps:
  "p \<noteq> q \<Longrightarrow> files (write_descriptor q c fs) p = files fs p \<and> can_read (write_descriptor q c fs) = can_read fs"
  by (auto simp: write_descriptor_def Let_def fs_create_dir_all_def fs_write_def split: option.split)

lemma resolve_seed_again:
  assumes "files fs p = Some seed" and "can_read fs p" and "length seed = 32"
  shows "resolve_seed rng fs p = (Inr seed, fs)"
  using assms by (simp add: resolve_seed_def path_exists_def read_seed_def fs_read_def)

lemma setting_cases:
  "setting d f c None = (if c \<noteq> d then c else f)"
  "setting d f c (Some v) = (if c \<noteq> d then c else v)"
  by (simp_all add: setting_def)

section \<open>Properties\<close>

text \<open>
  C40. The avatar keeps its identity across restarts: after a start that succeeded, every later
  start with the same settings on the file system it left that gets past the user map succeeds
  with the same login keys and the same descriptor, whatever the random source now delivers,
  when the seed file is readable and is not the descriptor file.
\<close>

theorem restart_same_identity:
  assumes "avatar_startup E rng S fs = Some (Inr b, fs')"
    and "can_read fs (expand_tilde (be_home E) (set_seed_file S))"
    and "expand_tilde (be_home E) (set_seed_file S) \<noteq> set_descriptor_path S"
    and "case rng of None \<Rightarrow> True | Some r \<Rightarrow> length r = 32"
    and "avatar_startup E rng' S fs' = Some (r, fs'')"
  shows "\<exists>b'. r = Inr b' \<and> boot_login_keys b' = boot_login_keys b \<and> boot_descriptor b' = boot_descriptor b"
proof -
  let ?p = "expand_tilde (be_home E) (set_seed_file S)"
  obtain seed fs1 where seed: "resolve_seed rng fs ?p = (Inr seed, fs1)"
    and keys: "derive_login_keys (be_keys E) seed 0 = Inr (boot_login_keys b)"
    and desc: "boot_descriptor b = descriptor (be_xpub_text E) S (lk_xpub (boot_login_keys b))"
    and fs': "fs' = write_descriptor (set_descriptor_path S) (as_bytes (be_pretty E (boot_descriptor b))) fs1"
    using assms(1) by (auto simp: avatar_startup_def Let_def split: option.splits prod.splits sum.splits)
  have "files fs' ?p = Some seed" "can_read fs' ?p" "length seed = 32"
    using resolve_seed_gives [OF seed assms(2,4)] write_descriptor_keeps [OF assms(3)] fs' by simp_all
  then have again: "resolve_seed rng' fs' ?p = (Inr seed, fs')" by (rule resolve_seed_again)
  from assms(5) show ?thesis
    by (auto simp: avatar_startup_def Let_def again keys desc split: option.splits)
qed

definition sample_boot_env :: boot_env where
  "sample_boot_env = \<lparr>be_keys = toy_keys, be_xpub_text = \<lambda>_. ''xpub'', be_pretty = \<lambda>_. ''{}'', be_home = None,
     be_info = False, be_from_name = \<lambda>_. Some None, be_parse_users = \<lambda>_. None\<rparr>"

definition sample_settings :: avatar_settings where
  "sample_settings = \<lparr>set_relay = ''ws://r'', set_log_level = ''info'', set_local_api_socket = path_of ''/s'',
     set_seed_file = ''/var/seed'', set_allowlist = ''/none'', set_users_file = path_of ''/none'',
     set_descriptor_path = path_of ''/etc/d'', set_bt_addr = None, set_rfcomm_channel = 3\<rparr>"

lemma sample_users: "\<exists>e. user_map_load (be_info sample_boot_env) (be_from_name sample_boot_env)
    (be_parse_users sample_boot_env) fs p = Some (Inl e)"
  by (auto simp: user_map_load_def sample_boot_env_def split: option.split)

lemma sample_startup: "\<exists>r fs'. avatar_startup sample_boot_env rng sample_settings fs = Some (r, fs')"
proof -
  obtain e where "user_map_load (be_info sample_boot_env) (be_from_name sample_boot_env)
      (be_parse_users sample_boot_env) fs (set_users_file sample_settings) = Some (Inl e)"
    using sample_users by blast
  then show ?thesis by (auto simp: avatar_startup_def Let_def split: prod.split sum.split)
qed

theorem restart_same_identity_witness:
  "\<exists>b fs' b' fs''. avatar_startup sample_boot_env (Some (replicate 32 5)) sample_settings sample_fs = Some (Inr b, fs') \<and>
     avatar_startup sample_boot_env (Some (replicate 32 9)) sample_settings fs' = Some (Inr b', fs'') \<and>
     boot_login_keys b' = boot_login_keys b"
proof -
  obtain e where users: "user_map_load (be_info sample_boot_env) (be_from_name sample_boot_env)
      (be_parse_users sample_boot_env) sample_fs (set_users_file sample_settings) = Some (Inl e)"
    using sample_users by blast
  have path: "expand_tilde (be_home sample_boot_env) (set_seed_file sample_settings) = path_of ''/var/seed''"
    by (simp add: sample_boot_env_def sample_settings_def expand_tilde_def starts_with_def)
  have "fst (resolve_seed (Some (replicate 32 5)) sample_fs (path_of ''/var/seed'')) = Inr (replicate 32 5)"
    by (simp add: seed_run_defs)
  then obtain fs1 where seed: "resolve_seed (Some (replicate 32 5)) sample_fs (path_of ''/var/seed'') =
      (Inr (replicate 32 5), fs1)" by (metis prod.collapse)
  obtain lk where keys: "derive_login_keys (be_keys sample_boot_env) (replicate 32 5) 0 = Inr lk"
    by (simp add: derive_login_keys_def sample_boot_env_def toy_keys_def normal_index_def)
  obtain b fs' where first: "avatar_startup sample_boot_env (Some (replicate 32 5)) sample_settings sample_fs = Some (Inr b, fs')"
    by (simp add: avatar_startup_def Let_def users path seed keys)
  obtain r fs'' where second: "avatar_startup sample_boot_env (Some (replicate 32 9)) sample_settings fs' = Some (r, fs'')"
    using sample_startup by blast
  from restart_same_identity [OF first _ _ _ second] first second path show ?thesis
    by (fastforce simp: sample_fs_def sample_settings_def path_of_def)
qed

end
