(* ===== verification/Connector.thy ===== *)
theory Connector
  imports User_Map
begin

text \<open>
  What an attach request carries and how the avatar authenticates it
  (crates/avatar/src/main.rs): the services, the claimed identity, the canonical form of the
  connector object and the verification of its Schnorr signature. Hexadecimal decoding, the
  key and signature types and the verification itself belong to the crate \<open>bitcoin\<close> and are
  the parameters of the record \<open>crypto_lib\<close>.
\<close>

section \<open>Parameters of an attach\<close>

definition attach_params :: "json \<Rightarrow> json" where
  "attach_params p =
     (case p of
        JArray xs \<Rightarrow> (case xs of [] \<Rightarrow> JObject [] | x # _ \<Rightarrow> x)
      | JObject m \<Rightarrow> JObject m
      | _ \<Rightarrow> JObject [])"

text \<open>The sequence number is read as a u64 and cast to a u32, which drops its upper half.\<close>

definition parse_service :: "json \<Rightarrow> (string \<times> u32) option" where
  "parse_service s =
     (case get_str s ''type'' of
        Some t \<Rightarrow>
          Some (t, ucast (case Option.bind (jget s ''seq'') as_u64 of None \<Rightarrow> 0 | Some n \<Rightarrow> n))
      | None \<Rightarrow> (case as_str s of Some t \<Rightarrow> Some (t, 0) | None \<Rightarrow> None))"

definition parse_services :: "json \<Rightarrow> (string \<times> u32) list" where
  "parse_services params =
     (case Option.bind (jget params ''services'') as_array of
        None \<Rightarrow> []
      | Some arr \<Rightarrow> List.map_filter parse_service arr)"

definition attach_identity :: "json \<Rightarrow> string" where
  "attach_identity params =
     (case Option.bind (jget params ''connector'') (\<lambda>c. get_str c ''identity_npub'') of
        Some s \<Rightarrow> s
      | None \<Rightarrow> (case get_str params ''identity'' of Some s \<Rightarrow> s | None \<Rightarrow> ''default''))"

section \<open>Canonical JSON\<close>

fun join :: "string \<Rightarrow> string list \<Rightarrow> string" where
  "join sep [] = []"
| "join sep [s] = s"
| "join sep (s # t # ss) = s @ sep @ join sep (t # ss)"

function canonicalize_json :: "json_text \<Rightarrow> json \<Rightarrow> string" where
  "canonicalize_json J (JObject m) =
     ''{'' @ join '','' (map (\<lambda>(k, v).
        json_to_string J (JString k) @ '':'' @
        (case v of JObject _ \<Rightarrow> canonicalize_json J v | _ \<Rightarrow> json_to_string J v))
      (map_of_entries m)) @ ''}''"
| "canonicalize_json J JNull = json_to_string J JNull"
| "canonicalize_json J (JBool b) = json_to_string J (JBool b)"
| "canonicalize_json J (JNumber n) = json_to_string J (JNumber n)"
| "canonicalize_json J (JString s) = json_to_string J (JString s)"
| "canonicalize_json J (JArray xs) = json_to_string J (JArray xs)"
  by pat_completeness auto
termination
proof (relation "measure (size \<circ> snd)")
  fix J :: json_text and m and e :: "string \<times> json" and k v and w
  assume e: "e \<in> set (map_of_entries m)" "(k, v) = e"
  then have "e \<in> set m" using map_of_entries_set by blast
  then have "size_prod (\<lambda>_. 0) size e < Suc (size_list (size_prod (\<lambda>_. 0) size) m)"
    by (meson less_Suc_eq_le size_list_estimation' order_refl)
  with e(2) show "((J, v), J, JObject m) \<in> measure (size \<circ> snd)" by auto
qed simp

section \<open>Verification\<close>

record crypto_lib =
  hex_decode_vec :: "string \<Rightarrow> bytes option"
  schnorr_from_slice :: "bytes \<Rightarrow> bytes option"
  xonly_from_slice :: "bytes \<Rightarrow> bytes option"
  verify_schnorr :: "bytes \<Rightarrow> bytes \<Rightarrow> bytes \<Rightarrow> bool"
  xpub_to_string :: "xpub \<Rightarrow> string"
  xpub_from_str :: "string \<Rightarrow> xpub option"

text \<open>
  Accepted, answered with an error, or abandoned: the \<open>?\<close> on an identity key that is not on
  the curve leaves the handler without a response.
\<close>

datatype verdict = Accept | Reject string | Abandon

definition hex_of_length :: "crypto_lib \<Rightarrow> nat \<Rightarrow> string \<Rightarrow> bytes option" where
  "hex_of_length C n s =
     (case hex_decode_vec C s of None \<Rightarrow> None | Some b \<Rightarrow> if length b = n then Some b else None)"

definition verify_signature ::
    "json_text \<Rightarrow> (bytes \<Rightarrow> bytes) \<Rightarrow> crypto_lib \<Rightarrow> json \<Rightarrow> string \<Rightarrow> verdict" where
  "verify_signature J sha256 C connector sig_hex =
     (let digest = sha256 (as_bytes (canonicalize_json J connector)) in
      case Option.bind (hex_of_length C 64 sig_hex) (schnorr_from_slice C) of
        None \<Rightarrow> Reject ''invalid connector_sig''
      | Some sig \<Rightarrow>
          (let identity_npub_hex =
             (case get_str connector ''identity_npub'' of None \<Rightarrow> '''' | Some s \<Rightarrow> s) in
           case hex_of_length C 32 identity_npub_hex of
             None \<Rightarrow> Reject ''invalid identity_npub''
           | Some identity_pk_bytes \<Rightarrow>
               (case xonly_from_slice C identity_pk_bytes of
                  None \<Rightarrow> Abandon
                | Some xonly \<Rightarrow>
                    if verify_schnorr C sig digest xonly then Accept
                    else Reject ''connector signature verification failed'')))"

definition verify_connector ::
    "json_text \<Rightarrow> (bytes \<Rightarrow> bytes) \<Rightarrow> crypto_lib \<Rightarrow> xpub \<Rightarrow> json \<Rightarrow> verdict" where
  "verify_connector J sha256 C login_xpub params =
     (case jget params ''connector'' of
        None \<Rightarrow> Accept
      | Some connector \<Rightarrow>
          if (case get_str connector ''login_xpub'' of
                Some s \<Rightarrow> s \<noteq> xpub_to_string C login_xpub | None \<Rightarrow> False)
          then Reject ''login_xpub mismatch''
          else (case get_str params ''connector_sig'' of
                  None \<Rightarrow> Accept \<comment> \<open>legacy attach, unverified\<close>
                | Some sig_hex \<Rightarrow> verify_signature J sha256 C connector sig_hex))"

definition attach_realm_xpub :: "crypto_lib \<Rightarrow> json \<Rightarrow> xpub option" where
  "attach_realm_xpub C params =
     Option.bind (Option.bind (jget params ''connector'') (\<lambda>c. get_str c ''realm_xpub''))
       (xpub_from_str C)"

definition allowed :: "string set \<Rightarrow> string \<Rightarrow> bool" where
  "allowed allowlist ident \<longleftrightarrow> allowlist = {} \<or> ident \<in> allowlist"

text \<open>
  What an accepted signature establishes: the hexadecimal identity of the connector is the
  x-only key under which the signature verifies over the digest of the canonical connector.
\<close>

definition signed_by_identity ::
    "json_text \<Rightarrow> (bytes \<Rightarrow> bytes) \<Rightarrow> crypto_lib \<Rightarrow> json \<Rightarrow> string \<Rightarrow> string \<Rightarrow> bool" where
  "signed_by_identity J sha256 C connector sig_hex ident \<longleftrightarrow>
     (\<exists>sb sig ib xonly. hex_of_length C 64 sig_hex = Some sb \<and> schnorr_from_slice C sb = Some sig \<and>
        hex_of_length C 32 ident = Some ib \<and> xonly_from_slice C ib = Some xonly \<and>
        verify_schnorr C sig (sha256 (as_bytes (canonicalize_json J connector))) xonly)"

lemma verify_signature_Accept:
  "verify_signature J sha256 C connector sig_hex = Accept \<Longrightarrow>
     signed_by_identity J sha256 C connector sig_hex
       (case get_str connector ''identity_npub'' of None \<Rightarrow> '''' | Some s \<Rightarrow> s)"
  by (auto simp: verify_signature_def signed_by_identity_def Let_def bind_eq_Some_conv
      split: option.splits if_splits)

end
