(* ===== verification/Session.thy ===== *)
theory Session
  imports Seed
begin

text \<open>
  The session manager of the avatar (crates/avatar/src/session.rs): root sessions keyed by the
  event that attached them, with the service channels derived for them. The manager iterates
  over hash maps, so its queries take the iteration orders of the two map types.
\<close>

datatype event_id = EventId bytes

text \<open>A \<open>watch::Sender\<open>bool\<close>\<close> is known by the number of its channel.\<close>

type_synonym watch_channel = nat

record service_channel =
  sc_service_type :: string
  sc_service_avatar_keys :: keys
  sc_km_service_pubkey :: public_key
  sc_km_realm_pubkey :: public_key

record root_session =
  rs_attached_session_event_id :: event_id
  rs_keymaster_pubkey :: public_key
  rs_services :: "string list"
  rs_identity :: string
  rs_alt_ids :: "string list"
  rs_realm_xpub :: "xpub option"
  rs_channels :: "(string, service_channel) hashmap"
  rs_shutdown :: "watch_channel option"
  rs_api_socket_shutdown :: "watch_channel option"

record session_manager =
  sessions :: "(event_id, root_session) hashmap"

type_synonym session_order =
  "(event_id, root_session) hashmap \<Rightarrow> (event_id, root_session) hashmap"

type_synonym channel_order =
  "(string, service_channel) hashmap \<Rightarrow> (string, service_channel) hashmap"

section \<open>Operations\<close>

definition session_manager_new :: session_manager where
  "session_manager_new = \<lparr>sessions = []\<rparr>"

definition create_root_session ::
    "session_manager \<Rightarrow> event_id \<Rightarrow> public_key \<Rightarrow> string list \<Rightarrow> string \<Rightarrow> string list \<Rightarrow>
     xpub option \<Rightarrow> watch_channel option \<Rightarrow> session_manager" where
  "create_root_session mgr eid km svcs ident alts xp shut =
     mgr\<lparr>sessions := hm_insert eid
       \<lparr>rs_attached_session_event_id = eid, rs_keymaster_pubkey = km, rs_services = svcs,
        rs_identity = ident, rs_alt_ids = alts, rs_realm_xpub = xp, rs_channels = [],
        rs_shutdown = shut, rs_api_socket_shutdown = None\<rparr> (sessions mgr)\<rparr>"

text \<open>\<open>get_mut\<close> on the map followed by an update of the session it found.\<close>

definition modify_session ::
    "session_manager \<Rightarrow> event_id \<Rightarrow> (root_session \<Rightarrow> root_session) \<Rightarrow> session_manager" where
  "modify_session mgr eid f =
     (case hm_get (sessions mgr) eid of
        None \<Rightarrow> mgr
      | Some s \<Rightarrow> mgr\<lparr>sessions := hm_insert eid (f s) (sessions mgr)\<rparr>)"

definition set_api_socket_shutdown ::
    "session_manager \<Rightarrow> event_id \<Rightarrow> watch_channel \<Rightarrow> session_manager" where
  "set_api_socket_shutdown mgr eid ch =
     modify_session mgr eid (\<lambda>s. s\<lparr>rs_api_socket_shutdown := Some ch\<rparr>)"

definition add_service_channel ::
    "session_manager \<Rightarrow> event_id \<Rightarrow> string \<Rightarrow> keys \<Rightarrow> public_key \<Rightarrow> public_key \<Rightarrow> session_manager" where
  "add_service_channel mgr eid svc ks km_svc km_realm =
     modify_session mgr eid (\<lambda>s. s\<lparr>rs_channels := hm_insert svc
       \<lparr>sc_service_type = svc, sc_service_avatar_keys = ks, sc_km_service_pubkey = km_svc,
        sc_km_realm_pubkey = km_realm\<rparr> (rs_channels s)\<rparr>)"

definition find_session_by_km_pubkey ::
    "session_order \<Rightarrow> session_manager \<Rightarrow> public_key \<Rightarrow> event_id option" where
  "find_session_by_km_pubkey ord mgr km =
     map_option (\<lambda>(_, s). rs_attached_session_event_id s)
       (find (\<lambda>(_, s). rs_keymaster_pubkey s = km) (ord (sessions mgr)))"

definition realm_xpub_matches ::
    "session_order \<Rightarrow> session_manager \<Rightarrow> public_key \<Rightarrow> xpub option \<Rightarrow> bool option" where
  "realm_xpub_matches ord mgr km xp =
     map_option (\<lambda>(_, s). rs_realm_xpub s = xp)
       (find (\<lambda>(_, s). rs_keymaster_pubkey s = km) (ord (sessions mgr)))"

definition opt_list :: "'a option \<Rightarrow> 'a list" where
  "opt_list x = (case x of None \<Rightarrow> [] | Some y \<Rightarrow> [y])"

text \<open>
  The removed session and the channels on which \<open>true\<close> was sent, in the order of the sends.
\<close>

definition remove_session ::
    "session_manager \<Rightarrow> event_id \<Rightarrow> root_session option \<times> watch_channel list \<times> session_manager" where
  "remove_session mgr eid =
     (let found = hm_get (sessions mgr) eid;
          signals = (case found of
             None \<Rightarrow> []
           | Some s \<Rightarrow> opt_list (rs_shutdown s) @ opt_list (rs_api_socket_shutdown s))
      in (found, signals, mgr\<lparr>sessions := hm_remove eid (sessions mgr)\<rparr>))"

definition channel_info :: "service_channel \<Rightarrow> keys \<times> public_key \<times> public_key" where
  "channel_info c = (sc_service_avatar_keys c, sc_km_service_pubkey c, sc_km_realm_pubkey c)"

fun first_some :: "('a \<Rightarrow> 'b option) \<Rightarrow> 'a list \<Rightarrow> 'b option" where
  "first_some f [] = None"
| "first_some f (x # xs) = (case f x of None \<Rightarrow> first_some f xs | Some y \<Rightarrow> Some y)"

definition find_service_channel ::
    "session_order \<Rightarrow> session_manager \<Rightarrow> string \<Rightarrow> (keys \<times> public_key \<times> public_key) option" where
  "find_service_channel ord mgr svc =
     first_some (\<lambda>(_, s). map_option channel_info (hm_get (rs_channels s) svc))
       (ord (sessions mgr))"

definition find_service_channel_for_identity ::
    "session_order \<Rightarrow> session_manager \<Rightarrow> string \<Rightarrow> string \<Rightarrow>
     (keys \<times> public_key \<times> public_key) option" where
  "find_service_channel_for_identity ord mgr svc ident =
     first_some (\<lambda>(_, s).
         if rs_identity s = ident then map_option channel_info (hm_get (rs_channels s) svc)
         else None)
       (ord (sessions mgr))"

text \<open>\<open>decrypt\<close> is \<open>nip44::decrypt\<close> with the secret key of a key pair.\<close>

definition try_decrypt_with_service_keys ::
    "(keys \<Rightarrow> public_key \<Rightarrow> string \<Rightarrow> string option) \<Rightarrow> session_order \<Rightarrow> channel_order \<Rightarrow>
     session_manager \<Rightarrow> public_key \<Rightarrow> string \<Rightarrow> string option" where
  "try_decrypt_with_service_keys decrypt ord cord mgr sender content =
     first_some (\<lambda>(_, s).
         first_some (\<lambda>(_, c). decrypt (sc_service_avatar_keys c) sender content)
           (cord (rs_channels s)))
       (ord (sessions mgr))"

section \<open>First matches\<close>

lemma first_some_None: "first_some f xs = None \<longleftrightarrow> (\<forall>x \<in> set xs. f x = None)"
  by (induction xs) (auto split: option.splits)

lemma first_some_SomeD: "first_some f xs = Some y \<Longrightarrow> \<exists>x \<in> set xs. f x = Some y"
  by (induction xs) (auto split: option.splits)

lemma first_some_ord_None:
  "iter_order ord \<Longrightarrow> first_some f (ord xs) = None \<longleftrightarrow> (\<forall>x \<in> set xs. f x = None)"
  by (simp add: first_some_None iter_order_set)

lemma first_some_ord_SomeD:
  "iter_order ord \<Longrightarrow> first_some f (ord xs) = Some y \<Longrightarrow> \<exists>x \<in> set xs. f x = Some y"
  by (drule first_some_SomeD) (simp add: iter_order_set)

section \<open>The invariant\<close>

text \<open>
  Every session sits under the event that attached it, every channel under its service type,
  and no two sessions belong to the same KeyMaster.
\<close>

definition session_wf :: "event_id \<times> root_session \<Rightarrow> bool" where
  "session_wf e \<longleftrightarrow> rs_attached_session_event_id (snd e) = fst e \<and> hm_wf (rs_channels (snd e)) \<and>
     (\<forall>(t, c) \<in> set (rs_channels (snd e)).
        sc_service_type c = t \<and> sc_km_realm_pubkey c = rs_keymaster_pubkey (snd e))"

definition mgr_wf :: "session_manager \<Rightarrow> bool" where
  "mgr_wf mgr \<longleftrightarrow> hm_wf (sessions mgr) \<and> (\<forall>e \<in> set (sessions mgr). session_wf e)"

definition one_per_km :: "session_manager \<Rightarrow> bool" where
  "one_per_km mgr \<longleftrightarrow>
     (\<forall>(i, s) \<in> set (sessions mgr). \<forall>(j, t) \<in> set (sessions mgr).
        rs_keymaster_pubkey s = rs_keymaster_pubkey t \<longrightarrow> i = j)"

definition mgr_inv :: "session_manager \<Rightarrow> bool" where
  "mgr_inv mgr \<longleftrightarrow> mgr_wf mgr \<and> one_per_km mgr"

lemma mgr_inv_new [wf_intros]: "mgr_inv session_manager_new"
  by (simp add: mgr_inv_def mgr_wf_def one_per_km_def session_manager_new_def)

text \<open>The invariant in terms of lookups, the form in which operations preserve it.\<close>

lemma mgr_inv_lookup:
  "mgr_inv mgr \<longleftrightarrow> hm_wf (sessions mgr) \<and>
     (\<forall>i s. hm_get (sessions mgr) i = Some s \<longrightarrow> session_wf (i, s)) \<and>
     (\<forall>i j s t. hm_get (sessions mgr) i = Some s \<longrightarrow> hm_get (sessions mgr) j = Some t \<longrightarrow>
        rs_keymaster_pubkey s = rs_keymaster_pubkey t \<longrightarrow> i = j)"
proof (cases "hm_wf (sessions mgr)")
  case True
  then show ?thesis
    unfolding mgr_inv_def mgr_wf_def one_per_km_def by (auto simp: hm_get_in_set; fast)
qed (simp add: mgr_inv_def mgr_wf_def)

lemma mgr_inv_hm_wf: "mgr_inv mgr \<Longrightarrow> hm_wf (sessions mgr)"
  by (simp add: mgr_inv_lookup)

lemma mgr_inv_session: "mgr_inv mgr \<Longrightarrow> hm_get (sessions mgr) i = Some s \<Longrightarrow> session_wf (i, s)"
  by (simp add: mgr_inv_lookup)

lemma mgr_inv_unique:
  "mgr_inv mgr \<Longrightarrow> hm_get (sessions mgr) i = Some s \<Longrightarrow> hm_get (sessions mgr) j = Some t \<Longrightarrow>
     rs_keymaster_pubkey s = rs_keymaster_pubkey t \<Longrightarrow> i = j"
  unfolding mgr_inv_lookup by blast

lemma modify_session_get:
  "hm_get (sessions (modify_session mgr eid f)) i =
     (if i = eid then map_option f (hm_get (sessions mgr) eid) else hm_get (sessions mgr) i)"
  by (auto simp: modify_session_def hm_get_insert split: option.split)

lemma modify_session_hm_wf: "hm_wf (sessions mgr) \<Longrightarrow> hm_wf (sessions (modify_session mgr eid f))"
  by (auto simp: modify_session_def hm_wf_insert split: option.split)

lemma modify_session_inv:
  assumes inv: "mgr_inv mgr"
    and keep: "\<And>s. hm_get (sessions mgr) eid = Some s \<Longrightarrow>
      session_wf (eid, f s) \<and> rs_keymaster_pubkey (f s) = rs_keymaster_pubkey s"
  shows "mgr_inv (modify_session mgr eid f)"
  unfolding mgr_inv_lookup
proof (intro conjI allI impI)
  show "hm_wf (sessions (modify_session mgr eid f))"
    using inv by (simp add: modify_session_hm_wf mgr_inv_hm_wf)
next
  fix i s assume "hm_get (sessions (modify_session mgr eid f)) i = Some s"
  then show "session_wf (i, s)"
    using keep mgr_inv_session [OF inv] by (auto simp: modify_session_get split: if_splits)
next
  fix i j s t
  assume "hm_get (sessions (modify_session mgr eid f)) i = Some s"
    "hm_get (sessions (modify_session mgr eid f)) j = Some t"
    "rs_keymaster_pubkey s = rs_keymaster_pubkey t"
  then obtain s0 t0 where "hm_get (sessions mgr) i = Some s0" "hm_get (sessions mgr) j = Some t0"
    "rs_keymaster_pubkey s0 = rs_keymaster_pubkey t0"
    using keep by (auto simp: modify_session_get split: if_splits)
  then show "i = j" by (rule mgr_inv_unique [OF inv])
qed

lemma set_api_socket_shutdown_inv [wf_intros]:
  "mgr_inv mgr \<Longrightarrow> mgr_inv (set_api_socket_shutdown mgr eid ch)"
  unfolding set_api_socket_shutdown_def
  by (rule modify_session_inv) (auto dest!: mgr_inv_session simp: session_wf_def)

lemma add_service_channel_inv [wf_intros]:
  assumes "mgr_inv mgr"
    and "\<And>s. hm_get (sessions mgr) eid = Some s \<Longrightarrow> rs_keymaster_pubkey s = km_realm"
  shows "mgr_inv (add_service_channel mgr eid svc ks km_svc km_realm)"
  unfolding add_service_channel_def
proof (rule modify_session_inv [OF assms(1)])
  fix s assume s: "hm_get (sessions mgr) eid = Some s"
  with assms have wf: "session_wf (eid, s)" and km: "rs_keymaster_pubkey s = km_realm"
    by (auto dest: mgr_inv_session)
  then have ch: "hm_wf (rs_channels s)" by (simp add: session_wf_def)
  show "session_wf (eid, s\<lparr>rs_channels := hm_insert svc
       \<lparr>sc_service_type = svc, sc_service_avatar_keys = ks, sc_km_service_pubkey = km_svc,
        sc_km_realm_pubkey = km_realm\<rparr> (rs_channels s)\<rparr>) \<and>
     rs_keymaster_pubkey (s\<lparr>rs_channels := hm_insert svc
       \<lparr>sc_service_type = svc, sc_service_avatar_keys = ks, sc_km_service_pubkey = km_svc,
        sc_km_realm_pubkey = km_realm\<rparr> (rs_channels s)\<rparr>) = rs_keymaster_pubkey s"
    using wf km ch by (auto simp: session_wf_def hm_set_insert hm_wf_insert)
qed

lemma remove_session_inv [wf_intros]:
  "mgr_inv mgr \<Longrightarrow> mgr_inv (snd (snd (remove_session mgr eid)))"
  by (auto simp: remove_session_def Let_def mgr_inv_lookup hm_wf_remove hm_get_remove
      split: if_splits)

section \<open>Queries do not depend on the iteration order\<close>

lemma find_km_unique:
  assumes "mgr_inv mgr" and "iter_order ord" and "hm_get (sessions mgr) i = Some s"
  shows "find (\<lambda>(_, s'). rs_keymaster_pubkey s' = rs_keymaster_pubkey s) (ord (sessions mgr)) =
    Some (i, s)"
proof (rule find_iter_order_unique [OF assms(2)])
  have wf: "hm_wf (sessions mgr)" by (rule mgr_inv_hm_wf [OF assms(1)])
  show "(i, s) \<in> set (sessions mgr)" using assms(3) wf by (simp add: hm_get_in_set)
  fix e assume e: "e \<in> set (sessions mgr)"
    and P: "case e of (_, s') \<Rightarrow> rs_keymaster_pubkey s' = rs_keymaster_pubkey s"
  obtain j t where jt: "e = (j, t)" by (cases e)
  with e wf have t: "hm_get (sessions mgr) j = Some t" by (simp add: hm_get_in_set)
  then have "j = i" using P jt by (intro mgr_inv_unique [OF assms(1) t assms(3)]) simp
  with t assms(3) jt show "e = (i, s)" by simp
qed simp

lemma find_session_SomeD:
  assumes "mgr_inv mgr" and "iter_order ord" and "find_session_by_km_pubkey ord mgr km = Some i"
  shows "\<exists>s. hm_get (sessions mgr) i = Some s \<and> rs_keymaster_pubkey s = km"
proof -
  from assms(3) obtain j s where f: "find (\<lambda>(_, s). rs_keymaster_pubkey s = km) (ord (sessions mgr)) = Some (j, s)"
    and i: "i = rs_attached_session_event_id s"
    by (auto simp: find_session_by_km_pubkey_def)
  from find_SomeD [OF f] have "(j, s) \<in> set (sessions mgr)" and km: "rs_keymaster_pubkey s = km"
    using assms(2) by (auto simp: iter_order_set)
  then have get: "hm_get (sessions mgr) j = Some s"
    using mgr_inv_hm_wf [OF assms(1)] by (simp add: hm_get_in_set)
  then have "i = j" using mgr_inv_session [OF assms(1)] i by (auto simp: session_wf_def)
  with get km show ?thesis by blast
qed

lemma find_session_None:
  "mgr_inv mgr \<Longrightarrow> iter_order ord \<Longrightarrow>
     find_session_by_km_pubkey ord mgr km = None \<longleftrightarrow>
     (\<forall>i s. hm_get (sessions mgr) i = Some s \<longrightarrow> rs_keymaster_pubkey s \<noteq> km)"
  by (auto simp: find_session_by_km_pubkey_def find_None_set iter_order_set mgr_inv_hm_wf
      hm_get_in_set)

lemma find_session_iff:
  assumes "mgr_inv mgr" and "iter_order ord"
  shows "find_session_by_km_pubkey ord mgr km = Some i \<longleftrightarrow>
    (\<exists>s. hm_get (sessions mgr) i = Some s \<and> rs_keymaster_pubkey s = km)"
proof
  assume "\<exists>s. hm_get (sessions mgr) i = Some s \<and> rs_keymaster_pubkey s = km"
  then obtain s where s: "hm_get (sessions mgr) i = Some s" "rs_keymaster_pubkey s = km" by blast
  then show "find_session_by_km_pubkey ord mgr km = Some i"
    using find_km_unique [OF assms s(1)] mgr_inv_session [OF assms(1) s(1)]
    by (simp add: find_session_by_km_pubkey_def session_wf_def)
qed (rule find_session_SomeD [OF assms])

section \<open>Attach and detach\<close>

text \<open>
  The two compound operations of the event handlers (crates/avatar/src/main.rs): an attach
  evicts the session the KeyMaster already has and creates the new one, a detach removes it.
  Both also return the channels signalled.
\<close>

definition evict_stale ::
    "session_order \<Rightarrow> session_manager \<Rightarrow> public_key \<Rightarrow> watch_channel list \<times> session_manager" where
  "evict_stale ord mgr km =
     (case find_session_by_km_pubkey ord mgr km of
        None \<Rightarrow> ([], mgr)
      | Some sid \<Rightarrow> snd (remove_session mgr sid))"

definition attach_session ::
    "session_order \<Rightarrow> session_manager \<Rightarrow> event_id \<Rightarrow> public_key \<Rightarrow> string list \<Rightarrow> string \<Rightarrow>
     xpub option \<Rightarrow> watch_channel option \<Rightarrow> watch_channel list \<times> session_manager" where
  "attach_session ord mgr eid km svcs ident xp shut =
     (let (signals, mgr1) = evict_stale ord mgr km
      in (signals, create_root_session mgr1 eid km svcs ident [] xp shut))"

text \<open>The session a KeyMaster has, if any: the abstract state of the manager.\<close>

definition session_of :: "session_order \<Rightarrow> session_manager \<Rightarrow> public_key \<Rightarrow> root_session option" where
  "session_of ord mgr km =
     Option.bind (find_session_by_km_pubkey ord mgr km) (hm_get (sessions mgr))"

lemma session_of_iff:
  assumes "mgr_inv mgr" and "iter_order ord"
  shows "session_of ord mgr km = Some s \<longleftrightarrow>
    (\<exists>i. hm_get (sessions mgr) i = Some s \<and> rs_keymaster_pubkey s = km)"
proof
  assume "session_of ord mgr km = Some s"
  then show "\<exists>i. hm_get (sessions mgr) i = Some s \<and> rs_keymaster_pubkey s = km"
    by (auto simp: session_of_def find_session_iff [OF assms] bind_eq_Some_conv)
next
  assume "\<exists>i. hm_get (sessions mgr) i = Some s \<and> rs_keymaster_pubkey s = km"
  then obtain i where i: "hm_get (sessions mgr) i = Some s" "rs_keymaster_pubkey s = km" by blast
  then have "find_session_by_km_pubkey ord mgr km = Some i"
    by (auto simp: find_session_iff [OF assms])
  with i show "session_of ord mgr km = Some s" by (simp add: session_of_def)
qed

lemma evict_stale_inv [wf_intros]: "mgr_inv mgr \<Longrightarrow> mgr_inv (snd (evict_stale ord mgr km))"
  by (auto simp: evict_stale_def split: option.split intro: remove_session_inv)

lemma evict_stale_get:
  assumes "mgr_inv mgr" and "iter_order ord"
  shows "hm_get (sessions (snd (evict_stale ord mgr km))) i =
    (case hm_get (sessions mgr) i of
       Some s \<Rightarrow> if rs_keymaster_pubkey s = km then None else Some s
     | None \<Rightarrow> None)"
proof (cases "find_session_by_km_pubkey ord mgr km")
  case None
  then show ?thesis
    using find_session_None [OF assms, of km] by (auto simp: evict_stale_def split: option.split)
next
  case (Some j)
  then obtain t where t: "hm_get (sessions mgr) j = Some t" "rs_keymaster_pubkey t = km"
    using find_session_SomeD [OF assms] by blast
  have get: "hm_get (sessions (snd (evict_stale ord mgr km))) i =
      (if i = j then None else hm_get (sessions mgr) i)"
    by (simp add: evict_stale_def Some remove_session_def Let_def hm_get_remove)
  show ?thesis
  proof (cases "hm_get (sessions mgr) i")
    case (Some s)
    have "rs_keymaster_pubkey s = km \<longleftrightarrow> i = j"
      using Some t mgr_inv_unique [OF assms(1) Some t(1)] by auto
    with get Some show ?thesis by simp
  qed (simp add: get)
qed

lemma create_root_session_get:
  "hm_get (sessions (create_root_session mgr eid km svcs ident alts xp shut)) i =
     (if i = eid then Some \<lparr>rs_attached_session_event_id = eid, rs_keymaster_pubkey = km,
        rs_services = svcs, rs_identity = ident, rs_alt_ids = alts, rs_realm_xpub = xp,
        rs_channels = [], rs_shutdown = shut, rs_api_socket_shutdown = None\<rparr>
      else hm_get (sessions mgr) i)"
  by (simp add: create_root_session_def hm_get_insert)

lemma create_root_session_inv:
  assumes "mgr_inv mgr"
    and "\<And>i s. hm_get (sessions mgr) i = Some s \<Longrightarrow> i \<noteq> eid \<Longrightarrow> rs_keymaster_pubkey s \<noteq> km"
  shows "mgr_inv (create_root_session mgr eid km svcs ident alts xp shut)"
proof -
  have "hm_wf (sessions (create_root_session mgr eid km svcs ident alts xp shut))"
    using mgr_inv_hm_wf [OF assms(1)] by (simp add: create_root_session_def hm_wf_insert)
  moreover have "session_wf (i, s)"
    if "hm_get (sessions (create_root_session mgr eid km svcs ident alts xp shut)) i = Some s" for i s
    using that mgr_inv_session [OF assms(1)]
    by (auto simp: create_root_session_get session_wf_def split: if_splits)
  moreover have "i = j"
    if "hm_get (sessions (create_root_session mgr eid km svcs ident alts xp shut)) i = Some s"
      "hm_get (sessions (create_root_session mgr eid km svcs ident alts xp shut)) j = Some t"
      "rs_keymaster_pubkey s = rs_keymaster_pubkey t" for i j s t
  proof (cases "i = eid \<or> j = eid")
    case True
    then show ?thesis using that assms(2) [of i s] assms(2) [of j t]
      by (auto simp: create_root_session_get split: if_splits)
  next
    case False
    then show ?thesis using that mgr_inv_unique [OF assms(1), of i s j t]
      by (simp add: create_root_session_get)
  qed
  ultimately show ?thesis unfolding mgr_inv_lookup by blast
qed

text \<open>The event id of an attach is new, or was used by the same KeyMaster (a replayed event).\<close>

definition fresh_event :: "session_manager \<Rightarrow> event_id \<Rightarrow> public_key \<Rightarrow> bool" where
  "fresh_event mgr eid km \<longleftrightarrow>
     (case hm_get (sessions mgr) eid of None \<Rightarrow> True | Some s \<Rightarrow> rs_keymaster_pubkey s = km)"

lemma attach_session_get:
  assumes "mgr_inv mgr" and "iter_order ord"
  shows "hm_get (sessions (snd (attach_session ord mgr eid km svcs ident xp shut))) i =
    (if i = eid then Some \<lparr>rs_attached_session_event_id = eid, rs_keymaster_pubkey = km,
        rs_services = svcs, rs_identity = ident, rs_alt_ids = [], rs_realm_xpub = xp,
        rs_channels = [], rs_shutdown = shut, rs_api_socket_shutdown = None\<rparr>
     else case hm_get (sessions mgr) i of
        Some s \<Rightarrow> if rs_keymaster_pubkey s = km then None else Some s
      | None \<Rightarrow> None)"
  by (simp add: attach_session_def create_root_session_get evict_stale_get [OF assms]
      split: prod.split) (metis evict_stale_get [OF assms] snd_conv)

lemma attach_session_keeps_inv:
  assumes "mgr_inv mgr" and "iter_order ord"
  shows "mgr_inv (snd (attach_session ord mgr eid km svcs ident xp shut))"
proof -
  have "mgr_inv (create_root_session (snd (evict_stale ord mgr km)) eid km svcs ident [] xp shut)"
  proof (rule create_root_session_inv)
    show "mgr_inv (snd (evict_stale ord mgr km))" by (rule evict_stale_inv [OF assms(1)])
    show "rs_keymaster_pubkey s \<noteq> km"
      if "hm_get (sessions (snd (evict_stale ord mgr km))) i = Some s" for i s
      using that by (auto simp: evict_stale_get [OF assms] split: option.splits if_splits)
  qed
  then show ?thesis by (simp add: attach_session_def split: prod.split) (metis snd_conv)
qed

section \<open>The manager as a registry of KeyMasters\<close>

text \<open>
  What the event handlers rely on: a map from KeyMaster to its current session, where an
  attach overwrites one entry and a detach erases one.
\<close>

datatype ('s, 'k) registry_op = Put 's | Del 'k

fun registry_run :: "('m \<Rightarrow> 's \<Rightarrow> 'm) \<Rightarrow> ('m \<Rightarrow> 'k \<Rightarrow> 'm) \<Rightarrow> 'm \<Rightarrow> ('s, 'k) registry_op list \<Rightarrow> 'm" where
  "registry_run put del m [] = m"
| "registry_run put del m (Put s # ops) = registry_run put del (put m s) ops"
| "registry_run put del m (Del k # ops) = registry_run put del (del m k) ops"

fun registry_spec :: "('s \<Rightarrow> 'k) \<Rightarrow> ('k \<Rightarrow> 's option) \<Rightarrow> ('s, 'k) registry_op list \<Rightarrow> 'k \<Rightarrow> 's option" where
  "registry_spec key f [] = f"
| "registry_spec key f (Put s # ops) = registry_spec key (f(key s \<mapsto> s)) ops"
| "registry_spec key f (Del k # ops) = registry_spec key (f(k := None)) ops"

fun registry_admissible ::
    "('m \<Rightarrow> 's \<Rightarrow> bool) \<Rightarrow> ('m \<Rightarrow> 's \<Rightarrow> 'm) \<Rightarrow> ('m \<Rightarrow> 'k \<Rightarrow> 'm) \<Rightarrow> 'm \<Rightarrow> ('s, 'k) registry_op list \<Rightarrow> bool" where
  "registry_admissible ok put del m [] = True"
| "registry_admissible ok put del m (Put s # ops) = (ok m s \<and> registry_admissible ok put del (put m s) ops)"
| "registry_admissible ok put del m (Del k # ops) = registry_admissible ok put del (del m k) ops"

locale km_registry =
  fixes invar :: "'m \<Rightarrow> bool"
    and lookup :: "'m \<Rightarrow> 'k \<Rightarrow> 's option"
    and put :: "'m \<Rightarrow> 's \<Rightarrow> 'm"
    and del :: "'m \<Rightarrow> 'k \<Rightarrow> 'm"
    and key :: "'s \<Rightarrow> 'k"
    and ok :: "'m \<Rightarrow> 's \<Rightarrow> bool"
  assumes invar_put: "invar m \<Longrightarrow> ok m s \<Longrightarrow> invar (put m s)"
    and lookup_put: "invar m \<Longrightarrow> ok m s \<Longrightarrow> lookup (put m s) = (lookup m)(key s \<mapsto> s)"
    and invar_del: "invar m \<Longrightarrow> invar (del m k)"
    and lookup_del: "invar m \<Longrightarrow> lookup (del m k) = (lookup m)(k := None)"
begin

lemma run_refines:
  "invar m \<Longrightarrow> registry_admissible ok put del m ops \<Longrightarrow>
     invar (registry_run put del m ops) \<and>
     lookup (registry_run put del m ops) = registry_spec key (lookup m) ops"
proof (induction ops arbitrary: m)
  case (Cons x ops)
  show ?case
  proof (cases x)
    case (Put s)
    with Cons.prems have inv: "invar (put m s)" and eq: "lookup (put m s) = (lookup m)(key s \<mapsto> s)"
      and adm: "registry_admissible ok put del (put m s) ops"
      by (simp_all only: registry_admissible.simps invar_put lookup_put)
    show ?thesis
      using Cons.IH [OF inv adm] by (simp only: Put registry_run.simps registry_spec.simps eq)
  next
    case (Del k)
    with Cons.prems have inv: "invar (del m k)" and eq: "lookup (del m k) = (lookup m)(k := None)"
      and adm: "registry_admissible ok put del (del m k) ops"
      by (simp_all only: registry_admissible.simps invar_del lookup_del)
    show ?thesis
      using Cons.IH [OF inv adm] by (simp only: Del registry_run.simps registry_spec.simps eq)
  qed
qed simp

end

text \<open>The session a fresh attach creates, before its channels are derived.\<close>

definition bare_session :: "root_session \<Rightarrow> bool" where
  "bare_session s \<longleftrightarrow> rs_channels s = [] \<and> rs_alt_ids s = [] \<and> rs_api_socket_shutdown s = None"

definition attach_op :: "session_order \<Rightarrow> session_manager \<Rightarrow> root_session \<Rightarrow> session_manager" where
  "attach_op ord mgr s = snd (attach_session ord mgr (rs_attached_session_event_id s)
     (rs_keymaster_pubkey s) (rs_services s) (rs_identity s) (rs_realm_xpub s) (rs_shutdown s))"

definition detach_op :: "session_order \<Rightarrow> session_manager \<Rightarrow> public_key \<Rightarrow> session_manager" where
  "detach_op ord mgr km = snd (evict_stale ord mgr km)"

lemma attach_op_inv [wf_intros]: "mgr_inv mgr \<Longrightarrow> iter_order ord \<Longrightarrow> mgr_inv (attach_op ord mgr s)"
  unfolding attach_op_def by (rule attach_session_keeps_inv)

lemma detach_op_inv [wf_intros]: "mgr_inv mgr \<Longrightarrow> mgr_inv (detach_op ord mgr km)"
  unfolding detach_op_def by (rule evict_stale_inv)

lemma session_of_eqI:
  assumes "mgr_inv mgr" and "iter_order ord"
    and "\<And>km s. (\<exists>i. hm_get (sessions mgr) i = Some s \<and> rs_keymaster_pubkey s = km) \<longleftrightarrow> f km = Some s"
  shows "session_of ord mgr = f"
proof
  fix km
  have "session_of ord mgr km = Some s \<longleftrightarrow> f km = Some s" for s
    by (simp only: session_of_iff [OF assms(1,2)] assms(3))
  then show "session_of ord mgr km = f km"
    by (cases "f km") (auto simp: option.expand)
qed

lemma session_of_attach:
  assumes "mgr_inv mgr" and "iter_order ord" and "bare_session s"
    and "fresh_event mgr (rs_attached_session_event_id s) (rs_keymaster_pubkey s)"
  shows "session_of ord (attach_op ord mgr s) = (session_of ord mgr)(rs_keymaster_pubkey s \<mapsto> s)"
proof (rule session_of_eqI [OF attach_op_inv [OF assms(1,2)] assms(2)])
  fix km t
  have get: "hm_get (sessions (attach_op ord mgr s)) i = Some t \<longleftrightarrow>
     (if i = rs_attached_session_event_id s then t = s
      else hm_get (sessions mgr) i = Some t \<and> rs_keymaster_pubkey t \<noteq> rs_keymaster_pubkey s)" for i
    using assms(3)
    by (auto simp: attach_op_def attach_session_get [OF assms(1,2)] bare_session_def
        split: option.splits if_splits)
  show "(\<exists>i. hm_get (sessions (attach_op ord mgr s)) i = Some t \<and> rs_keymaster_pubkey t = km) \<longleftrightarrow>
      ((session_of ord mgr)(rs_keymaster_pubkey s \<mapsto> s)) km = Some t"
  proof (cases "km = rs_keymaster_pubkey s")
    case True
    then show ?thesis by (auto simp: get split: option.splits if_splits)
  next
    case False
    then have "i \<noteq> rs_attached_session_event_id s"
      if "hm_get (sessions mgr) i = Some t" "rs_keymaster_pubkey t = km" for i
      using that assms(4) by (auto simp: fresh_event_def split: option.splits)
    with False show ?thesis
      by (auto simp: get session_of_iff [OF assms(1,2)] split: option.splits if_splits)
  qed
qed

lemma session_of_detach:
  assumes "mgr_inv mgr" and "iter_order ord"
  shows "session_of ord (detach_op ord mgr km) = (session_of ord mgr)(km := None)"
proof (rule session_of_eqI [OF detach_op_inv [OF assms(1)] assms(2)])
  fix k t
  have "hm_get (sessions (detach_op ord mgr km)) i = Some t \<longleftrightarrow>
      hm_get (sessions mgr) i = Some t \<and> rs_keymaster_pubkey t \<noteq> km" for i
    by (auto simp: detach_op_def evict_stale_get [OF assms] split: option.splits if_splits)
  then show "(\<exists>i. hm_get (sessions (detach_op ord mgr km)) i = Some t \<and> rs_keymaster_pubkey t = k) \<longleftrightarrow>
      ((session_of ord mgr)(km := None)) k = Some t"
    using session_of_iff [OF assms, of k t] by auto
qed

interpretation registry: km_registry "\<lambda>m. iter_order ord \<and> mgr_inv m" "session_of ord"
    "attach_op ord" "detach_op ord" rs_keymaster_pubkey
    "\<lambda>m s. bare_session s \<and> fresh_event m (rs_attached_session_event_id s) (rs_keymaster_pubkey s)"
  for ord
  by unfold_locales
    (simp_all only: session_of_attach session_of_detach attach_op_inv detach_op_inv)

text \<open>A lookup scoped to an identity.\<close>

lemma scoped_lookup:
  assumes "iter_order ord" and "mgr_inv mgr"
  shows "case find_service_channel_for_identity ord mgr svc ident of
      Some (ks, km_svc, km_realm) \<Rightarrow>
        (\<exists>i s c. hm_get (sessions mgr) i = Some s \<and> rs_identity s = ident \<and>
           hm_get (rs_channels s) svc = Some c \<and> sc_service_type c = svc \<and>
           ks = sc_service_avatar_keys c \<and> km_svc = sc_km_service_pubkey c \<and>
           km_realm = rs_keymaster_pubkey s)
    | None \<Rightarrow> (\<forall>i s. hm_get (sessions mgr) i = Some s \<and> rs_identity s = ident \<longrightarrow>
           hm_get (rs_channels s) svc = None)"
proof (cases "find_service_channel_for_identity ord mgr svc ident")
  case None
  then have "\<forall>(i, s) \<in> set (sessions mgr). rs_identity s = ident \<longrightarrow> hm_get (rs_channels s) svc = None"
    by (auto simp: find_service_channel_for_identity_def first_some_ord_None [OF assms(1)]
        split: if_splits)
  with None show ?thesis
    by (auto simp: hm_get_in_set [OF mgr_inv_hm_wf [OF assms(2)]])
next
  case (Some r)
  then obtain i s c where s: "hm_get (sessions mgr) i = Some s" "rs_identity s = ident"
    and c: "hm_get (rs_channels s) svc = Some c" and r: "r = channel_info c"
    unfolding find_service_channel_for_identity_def
    by (auto dest!: first_some_ord_SomeD [OF assms(1)] split: if_splits
        simp: hm_get_in_set [OF mgr_inv_hm_wf [OF assms(2)], symmetric])
  have "sc_service_type c = svc \<and> sc_km_realm_pubkey c = rs_keymaster_pubkey s"
    using mgr_inv_session [OF assms(2) s(1)] map_of_SomeD [OF c] by (auto simp: session_wf_def)
  with Some s c r show ?thesis by (auto simp: channel_info_def)
qed

section \<open>Properties\<close>

text \<open>
  C5. Refinement: over every sequence of attaches and detaches, from any well-formed
  manager, the session a KeyMaster has is the one given by the abstract registry (a map that
  an attach overwrites and a detach erases), whatever the iteration order of the hash map,
  and the manager stays well formed. An attach carries a fresh event id.
\<close>

theorem manager_refines_registry:
  assumes "iter_order ord" and "mgr_inv mgr"
    and "registry_admissible
       (\<lambda>m s. bare_session s \<and> fresh_event m (rs_attached_session_event_id s) (rs_keymaster_pubkey s))
       (attach_op ord) (detach_op ord) mgr ops"
  shows "mgr_inv (registry_run (attach_op ord) (detach_op ord) mgr ops) \<and>
    session_of ord (registry_run (attach_op ord) (detach_op ord) mgr ops) =
      registry_spec rs_keymaster_pubkey (session_of ord mgr) ops"
  using registry.run_refines [of ord mgr ops] assms by blast

definition sample_session :: "nat \<Rightarrow> nat \<Rightarrow> string \<Rightarrow> root_session" where
  "sample_session e k ident = \<lparr>rs_attached_session_event_id = EventId [of_nat e],
     rs_keymaster_pubkey = PublicKey [of_nat k], rs_services = [''ssh''], rs_identity = ident,
     rs_alt_ids = [], rs_realm_xpub = None, rs_channels = [], rs_shutdown = Some e,
     rs_api_socket_shutdown = None\<rparr>"

lemmas session_op_defs = attach_op_def detach_op_def attach_session_def evict_stale_def
  find_session_by_km_pubkey_def remove_session_def create_root_session_def session_of_def
  session_manager_new_def sample_session_def Let_def

theorem manager_refines_registry_witness:
  "session_of rev (registry_run (attach_op rev) (detach_op rev) session_manager_new
      [Put (sample_session 1 7 ''a''), Put (sample_session 2 8 ''b''),
       Put (sample_session 3 7 ''c''), Del (PublicKey [8])]) =
    registry_spec rs_keymaster_pubkey (session_of rev session_manager_new)
      [Put (sample_session 1 7 ''a''), Put (sample_session 2 8 ''b''),
       Put (sample_session 3 7 ''c''), Del (PublicKey [8])]"
  by (rule manager_refines_registry [THEN conjunct2])
    (simp_all only: iter_order_rev mgr_inv_new, simp add: session_op_defs bare_session_def fresh_event_def)

definition sample_manager :: session_manager where
  "sample_manager = add_service_channel
     (attach_op rev (attach_op rev session_manager_new (sample_session 1 7 ''a'')) (sample_session 2 8 ''b''))
     (EventId [1]) ''ssh'' (Keys [1]) (PublicKey [5]) (PublicKey [7])"

lemma sample_manager_inv: "mgr_inv sample_manager"
  unfolding sample_manager_def
  by (intro add_service_channel_inv attach_op_inv mgr_inv_new iter_order_rev)
    (simp add: session_op_defs split: if_splits)

text \<open>
  Which session a KeyMaster has, and whether its extended key is the one given, do not
  depend on the iteration order of the hash map; each session found is the only one of its
  KeyMaster.
\<close>

lemma km_queries_order_independent:
  assumes "iter_order ord" and "iter_order ord'" and "mgr_inv mgr"
  shows "find_session_by_km_pubkey ord mgr km = find_session_by_km_pubkey ord' mgr km \<and>
    realm_xpub_matches ord mgr km xp = realm_xpub_matches ord' mgr km xp \<and>
    (\<forall>i. find_session_by_km_pubkey ord mgr km = Some i \<longleftrightarrow>
      (\<exists>s. hm_get (sessions mgr) i = Some s \<and> rs_keymaster_pubkey s = km))"
proof -
  have "realm_xpub_matches ord mgr km xp = realm_xpub_matches ord' mgr km xp"
  proof (cases "find_session_by_km_pubkey ord mgr km")
    case None
    then have "\<forall>(i, s) \<in> set (sessions mgr). rs_keymaster_pubkey s \<noteq> km"
      unfolding find_session_None [OF assms(3,1)]
      by (auto simp: hm_get_in_set [OF mgr_inv_hm_wf [OF assms(3)]])
    then have "find (\<lambda>(_, s). rs_keymaster_pubkey s = km) (o' (sessions mgr)) = None"
      if "iter_order o'" for o'
      using that by (fastforce simp: find_None_set iter_order_set)
    then show ?thesis using assms(1,2) by (simp add: realm_xpub_matches_def)
  next
    case (Some i)
    then obtain s where "hm_get (sessions mgr) i = Some s" "rs_keymaster_pubkey s = km"
      using find_session_SomeD [OF assms(3,1)] by blast
    then show ?thesis
      using find_km_unique [OF assms(3) assms(1)] find_km_unique [OF assms(3) assms(2)]
      by (auto simp: realm_xpub_matches_def)
  qed
  moreover have "find_session_by_km_pubkey ord mgr km = Some i \<longleftrightarrow>
      find_session_by_km_pubkey ord' mgr km = Some i" for i
    by (simp only: find_session_iff [OF assms(3,1)] find_session_iff [OF assms(3,2)])
  then have "find_session_by_km_pubkey ord mgr km = find_session_by_km_pubkey ord' mgr km"
    by (metis not_Some_eq)
  ultimately show ?thesis using find_session_iff [OF assms(3,1)] by blast
qed

end
