(* ===== verification/Avatar.thy ===== *)
theory Avatar
  imports Connector Session
begin

text \<open>
  The event loop of the avatar daemon (crates/avatar/src/main.rs): decryption and dispatch of
  an event from the relay, the attach, detach and response handlers, and the replies they
  send. The Nostr library (NIP-44 encryption, event signing, the relay client) is part of the
  record \<open>avatar_env\<close>, together with the constants of the daemon and the iteration orders of
  its hash maps. Encryption takes a random nonce and signing the time: both get the number of
  events sent so far as their first argument, so that equal texts may become different events.
  A handler returns its error, if any, and the state it leaves behind: changes made before an
  early return stay.
\<close>

definition PROTOCOL_KIND :: nat where
  "PROTOCOL_KIND = 27235"

section \<open>Events, environment and state\<close>

record event =
  ev_id :: event_id
  ev_pubkey :: public_key
  ev_kind :: nat
  ev_content :: string
  ev_tags :: "string list list"

record avatar_env =
  env_J :: json_text
  env_sha256 :: "bytes \<Rightarrow> bytes"
  env_C :: crypto_lib
  env_K :: key_lib
  env_keys :: keys
  env_login_xpriv :: xpriv
  env_login_xpub :: xpub
  env_allowlist :: "string set"
  env_user_map :: "user_map option"
  env_order :: session_order
  env_channel_order :: channel_order
  nip44_decrypt :: "keys \<Rightarrow> public_key \<Rightarrow> string \<Rightarrow> string option"
  nip44_encrypt :: "nat \<Rightarrow> keys \<Rightarrow> public_key \<Rightarrow> string \<Rightarrow> string option"
  sign_event :: "nat \<Rightarrow> keys \<Rightarrow> nat \<Rightarrow> string \<Rightarrow> string list list \<Rightarrow> event option"
  relay_accepts :: "event \<Rightarrow> bool"
  pubkey_hex :: "public_key \<Rightarrow> string"
  event_id_hex :: "event_id \<Rightarrow> string"
  event_id_from_hex :: "string \<Rightarrow> event_id option"
  listener_starts :: "u32 \<Rightarrow> u32 \<Rightarrow> string \<Rightarrow> bool"

text \<open>A waiting local request is known by the number of its one-shot reply channel.\<close>

type_synonym waiter = nat

record api_listener =
  al_channel :: watch_channel
  al_uid :: u32
  al_gid :: u32
  al_identity :: string

record avatar_state =
  mgr :: session_manager
  pending :: "(event_id, waiter) hashmap"
  outbox :: "event list"
  delivered :: "(waiter \<times> string) list"
  next_channel :: watch_channel
  signalled :: "watch_channel list"
  listeners :: "api_listener list"

datatype avatar_error =
    EncryptFailed
  | SignFailed
  | SendFailed
  | DeriveFailed derive_error
  | BadIdentityKey

type_synonym handler_result = "(avatar_error + unit) \<times> avatar_state"

section \<open>Replies\<close>

definition public_key_tag :: "avatar_env \<Rightarrow> public_key \<Rightarrow> string list" where
  "public_key_tag E pk = [''p'', pubkey_hex E pk]"

definition reply_tag :: "avatar_env \<Rightarrow> event_id \<Rightarrow> string list" where
  "reply_tag E i = [''e'', event_id_hex E i, '''', ''reply'']"

definition send_response ::
    "avatar_env \<Rightarrow> public_key \<Rightarrow> event_id \<Rightarrow> json_rpc_response \<Rightarrow> avatar_state \<Rightarrow> handler_result" where
  "send_response E recipient reply_to response st =
     (case nip44_encrypt E (length (outbox st)) (env_keys E) recipient (json_to_string (env_J E) (encode_response response)) of
        None \<Rightarrow> (Inl EncryptFailed, st)
      | Some encrypted \<Rightarrow>
          (case sign_event E (length (outbox st)) (env_keys E) PROTOCOL_KIND encrypted
                  [public_key_tag E recipient, reply_tag E reply_to] of
             None \<Rightarrow> (Inl SignFailed, st)
           | Some ev \<Rightarrow>
               if relay_accepts E ev then (Inr (), st\<lparr>outbox := outbox st @ [ev]\<rparr>)
               else (Inl SendFailed, st)))"

definition id_or :: "json \<Rightarrow> json_rpc_message \<Rightarrow> json" where
  "id_or d msg = (case msg_id msg of None \<Rightarrow> d | Some i \<Rightarrow> i)"

definition reject_attach ::
    "avatar_env \<Rightarrow> event \<Rightarrow> public_key \<Rightarrow> json_rpc_message \<Rightarrow> string \<Rightarrow> avatar_state \<Rightarrow> handler_result" where
  "reject_attach E ev km msg reason st =
     send_response E km (ev_id ev) (response_error (id_or JNull msg) JSONRPC_INVALID_PARAMS reason) st"

section \<open>Responses from the KeyMaster\<close>

definition reply_target :: "avatar_env \<Rightarrow> event \<Rightarrow> event_id option" where
  "reply_target E ev = first_some (\<lambda>t.
     if 4 \<le> length t \<and> t ! 0 = ''e'' \<and> t ! 3 = ''reply'' then event_id_from_hex E (t ! 1) else None)
     (ev_tags ev)"

definition handle_response :: "avatar_env \<Rightarrow> event \<Rightarrow> string \<Rightarrow> avatar_state \<Rightarrow> handler_result" where
  "handle_response E ev plaintext st =
     (case reply_target E ev of
        None \<Rightarrow> (Inr (), st)
      | Some reply_to_id \<Rightarrow>
          let st1 = st\<lparr>pending := hm_remove reply_to_id (pending st)\<rparr> in
          (case hm_get (pending st) reply_to_id of
             None \<Rightarrow> (Inr (), st1)
           | Some tx \<Rightarrow> (Inr (), st1\<lparr>delivered := delivered st @ [(tx, plaintext)]\<rparr>)))"

section \<open>Attach\<close>

definition accepted_json :: "(string \<times> u32) list \<Rightarrow> json" where
  "accepted_json services = json_object [(''accepted'', JArray (map (\<lambda>(t, seq).
     json_object [(''type'', JString t), (''seq'', json_of_nat (unat seq))]) services))]"

definition accept_attach ::
    "avatar_env \<Rightarrow> event \<Rightarrow> public_key \<Rightarrow> json_rpc_message \<Rightarrow> (string \<times> u32) list \<Rightarrow>
     avatar_state \<Rightarrow> handler_result" where
  "accept_attach E ev km msg services st =
     send_response E km (ev_id ev)
       (response_success (id_or (json_of_nat 1) msg) (accepted_json services)) st"

fun register_channels ::
    "avatar_env \<Rightarrow> event_id \<Rightarrow> public_key \<Rightarrow> xpub option \<Rightarrow> (string \<times> u32) list \<Rightarrow>
     session_manager \<Rightarrow> (avatar_error + unit) \<times> session_manager" where
  "register_channels E eid km xp [] m = (Inr (), m)"
| "register_channels E eid km xp ((service_type, seq) # services) m =
     (case derive_service_keys (env_K E) (env_sha256 E) (env_login_xpriv E) service_type seq of
        Inl e \<Rightarrow> (Inl (DeriveFailed e), m)
      | Inr avatar_svc_keys \<Rightarrow>
          (case (case xp of
                   Some rxpub \<Rightarrow> derive_service_pubkey (env_K E) (env_sha256 E) rxpub service_type seq
                 | None \<Rightarrow> Inr km) of
             Inl e \<Rightarrow> (Inl (DeriveFailed e), m)
           | Inr km_svc_pubkey \<Rightarrow>
               register_channels E eid km xp services
                 (add_service_channel m eid service_type avatar_svc_keys km_svc_pubkey km)))"

text \<open>The per-user API socket of the identity, when there is a user map that knows it.\<close>

definition start_user_api :: "avatar_env \<Rightarrow> event_id \<Rightarrow> string \<Rightarrow> avatar_state \<Rightarrow> avatar_state" where
  "start_user_api E eid ident st =
     (case Option.bind (env_user_map E) (\<lambda>m. user_map_lookup m ident) of
        None \<Rightarrow> st
      | Some u \<Rightarrow>
          if listener_starts E (ue_uid u) (ue_gid u) ident then
            let ch = next_channel st in
            st\<lparr>next_channel := ch + 1,
               mgr := set_api_socket_shutdown (mgr st) eid ch,
               listeners := listeners st @ [\<lparr>al_channel = ch, al_uid = ue_uid u, al_gid = ue_gid u,
                 al_identity = ident\<rparr>]\<rparr>
          else st)"

text \<open>The session of an accepted attach: eviction, creation, channels, socket and reply.\<close>

definition establish ::
    "avatar_env \<Rightarrow> event \<Rightarrow> public_key \<Rightarrow> json_rpc_message \<Rightarrow> (string \<times> u32) list \<Rightarrow> string \<Rightarrow>
     xpub option \<Rightarrow> avatar_state \<Rightarrow> handler_result" where
  "establish E ev km msg services ident xp st =
     (let shutdown_tx = next_channel st;
          (sigs, m1) = attach_session (env_order E) (mgr st) (ev_id ev) km (map fst services)
             ident xp (Some shutdown_tx);
          st1 = st\<lparr>next_channel := shutdown_tx + 1, mgr := m1, signalled := signalled st @ sigs\<rparr>;
          (r, m2) = register_channels E (ev_id ev) km xp services m1;
          st2 = st1\<lparr>mgr := m2\<rparr>
      in case r of
           Inl e \<Rightarrow> (Inl e, st2)
         | Inr _ \<Rightarrow> accept_attach E ev km msg services (start_user_api E (ev_id ev) ident st2))"

definition handle_attach ::
    "avatar_env \<Rightarrow> event \<Rightarrow> public_key \<Rightarrow> json_rpc_message \<Rightarrow> avatar_state \<Rightarrow> handler_result" where
  "handle_attach E ev km msg st =
     (let params = attach_params (msg_params msg);
          services = parse_services params;
          ident = attach_identity params
      in case verify_connector (env_J E) (env_sha256 E) (env_C E) (env_login_xpub E) params of
           Reject reason \<Rightarrow> reject_attach E ev km msg reason st
         | Abandon \<Rightarrow> (Inl BadIdentityKey, st)
         | Accept \<Rightarrow>
             if \<not> allowed (env_allowlist E) ident then
               reject_attach E ev km msg ''identity not in allowlist'' st
             else
               let xp = attach_realm_xpub (env_C E) params in
               if realm_xpub_matches (env_order E) (mgr st) km xp = Some True then
                 accept_attach E ev km msg services st
               else establish E ev km msg services ident xp st)"

section \<open>Detach and dispatch\<close>

definition detach_response :: json_rpc_response where
  "detach_response = response_success JNull (json_object [(''status'', JString ''ok'')])"

definition handle_detach :: "avatar_env \<Rightarrow> event \<Rightarrow> public_key \<Rightarrow> avatar_state \<Rightarrow> handler_result" where
  "handle_detach E ev km st =
     (let st1 = (case find_session_by_km_pubkey (env_order E) (mgr st) km of
            None \<Rightarrow> st
          | Some sid \<Rightarrow>
              let (_, sigs, m) = remove_session (mgr st) sid
              in st\<lparr>mgr := m, signalled := signalled st @ sigs\<rparr>)
      in send_response E km (ev_id ev) detach_response st1)"

definition decrypt_event :: "avatar_env \<Rightarrow> avatar_state \<Rightarrow> event \<Rightarrow> string option" where
  "decrypt_event E st ev =
     (case nip44_decrypt E (env_keys E) (ev_pubkey ev) (ev_content ev) of
        Some pt \<Rightarrow> Some pt
      | None \<Rightarrow> try_decrypt_with_service_keys (nip44_decrypt E) (env_order E) (env_channel_order E)
                  (mgr st) (ev_pubkey ev) (ev_content ev))"

definition handle_event :: "avatar_env \<Rightarrow> event \<Rightarrow> avatar_state \<Rightarrow> handler_result" where
  "handle_event E ev st =
     (case decrypt_event E st ev of
        None \<Rightarrow> (Inr (), st)
      | Some plaintext \<Rightarrow>
          (case Option.bind (json_from_str (env_J E) plaintext) decode_message of
             None \<Rightarrow> (Inr (), st)
           | Some msg \<Rightarrow>
               if is_response msg then handle_response E ev plaintext st
               else (case msg_method msg of
                 None \<Rightarrow> (Inr (), st)
               | Some meth \<Rightarrow>
                   if meth = ''attach'' then handle_attach E ev (ev_pubkey ev) msg st
                   else if meth = ''detach'' then handle_detach E ev (ev_pubkey ev) st
                   else send_response E (ev_pubkey ev) (ev_id ev)
                     (response_error (id_or JNull msg) JSONRPC_METHOD_NOT_FOUND ''unknown method'') st)))"

text \<open>One notification of the event loop: events of other kinds are skipped, errors logged.\<close>

definition event_loop_step :: "avatar_env \<Rightarrow> event \<Rightarrow> avatar_state \<Rightarrow> avatar_state" where
  "event_loop_step E ev st =
     (if ev_kind ev = PROTOCOL_KIND then snd (handle_event E ev st) else st)"

definition avatar_init :: avatar_state where
  "avatar_init = \<lparr>mgr = session_manager_new, pending = [], outbox = [], delivered = [],
     next_channel = 0, signalled = [], listeners = []\<rparr>"

section \<open>How the handlers act on the state\<close>

lemma send_response_frame [simp]:
  "mgr (snd (send_response E r i resp st)) = mgr st"
  "pending (snd (send_response E r i resp st)) = pending st"
  "delivered (snd (send_response E r i resp st)) = delivered st"
  "signalled (snd (send_response E r i resp st)) = signalled st"
  "listeners (snd (send_response E r i resp st)) = listeners st"
  "next_channel (snd (send_response E r i resp st)) = next_channel st"
  by (simp_all add: send_response_def split: option.split)

lemma send_response_outbox:
  "outbox (snd (send_response E r i resp st)) = outbox st \<or>
     (\<exists>c e. nip44_encrypt E (length (outbox st)) (env_keys E) r (json_to_string (env_J E) (encode_response resp)) = Some c \<and>
        sign_event E (length (outbox st)) (env_keys E) PROTOCOL_KIND c [public_key_tag E r, reply_tag E i] = Some e \<and>
        outbox (snd (send_response E r i resp st)) = outbox st @ [e])"
  by (auto simp: send_response_def split: option.split)

lemma accept_attach_frame [simp]:
  "mgr (snd (accept_attach E ev km msg services st)) = mgr st"
  "pending (snd (accept_attach E ev km msg services st)) = pending st"
  "delivered (snd (accept_attach E ev km msg services st)) = delivered st"
  "signalled (snd (accept_attach E ev km msg services st)) = signalled st"
  "listeners (snd (accept_attach E ev km msg services st)) = listeners st"
  "next_channel (snd (accept_attach E ev km msg services st)) = next_channel st"
  by (simp_all add: accept_attach_def)

lemma reject_attach_frame [simp]:
  "mgr (snd (reject_attach E ev km msg reason st)) = mgr st"
  "pending (snd (reject_attach E ev km msg reason st)) = pending st"
  "delivered (snd (reject_attach E ev km msg reason st)) = delivered st"
  "signalled (snd (reject_attach E ev km msg reason st)) = signalled st"
  "listeners (snd (reject_attach E ev km msg reason st)) = listeners st"
  "next_channel (snd (reject_attach E ev km msg reason st)) = next_channel st"
  by (simp_all add: reject_attach_def)

lemma handle_response_frame [simp]:
  "mgr (snd (handle_response E ev pt st)) = mgr st"
  "outbox (snd (handle_response E ev pt st)) = outbox st"
  "signalled (snd (handle_response E ev pt st)) = signalled st"
  "listeners (snd (handle_response E ev pt st)) = listeners st"
  "next_channel (snd (handle_response E ev pt st)) = next_channel st"
  by (simp_all add: handle_response_def Let_def split: option.split)

lemma start_user_api_frame [simp]:
  "pending (start_user_api E eid ident st) = pending st"
  "delivered (start_user_api E eid ident st) = delivered st"
  "signalled (start_user_api E eid ident st) = signalled st"
  "outbox (start_user_api E eid ident st) = outbox st"
  by (simp_all add: start_user_api_def Let_def split: option.split)

text \<open>Registering channels changes nothing but the channels of the session under the event.\<close>

definition same_but_channels :: "root_session \<Rightarrow> root_session \<Rightarrow> bool" where
  "same_but_channels s t \<longleftrightarrow> t\<lparr>rs_channels := []\<rparr> = s\<lparr>rs_channels := []\<rparr>"

lemma same_but_channels_refl [simp]: "same_but_channels s s"
  by (simp add: same_but_channels_def)

lemma same_but_channels_fields:
  "same_but_channels s t \<Longrightarrow> rs_attached_session_event_id t = rs_attached_session_event_id s \<and>
     rs_keymaster_pubkey t = rs_keymaster_pubkey s \<and> rs_services t = rs_services s \<and>
     rs_identity t = rs_identity s \<and> rs_realm_xpub t = rs_realm_xpub s \<and>
     rs_shutdown t = rs_shutdown s \<and> rs_api_socket_shutdown t = rs_api_socket_shutdown s"
  by (cases s; cases t) (simp add: same_but_channels_def)

lemma same_but_channels_trans:
  "same_but_channels s t \<Longrightarrow> same_but_channels t u \<Longrightarrow> same_but_channels s u"
  by (simp add: same_but_channels_def)

lemma add_service_channel_get:
  "hm_get (sessions (add_service_channel m eid svc ks a b)) i =
     (if i = eid then map_option (\<lambda>s. s\<lparr>rs_channels := hm_insert svc
        \<lparr>sc_service_type = svc, sc_service_avatar_keys = ks, sc_km_service_pubkey = a,
         sc_km_realm_pubkey = b\<rparr> (rs_channels s)\<rparr>) (hm_get (sessions m) eid)
      else hm_get (sessions m) i)"
  by (simp add: add_service_channel_def modify_session_get)

lemma register_channels_get:
  "register_channels E eid km xp services m = (r, m') \<Longrightarrow>
     (i \<noteq> eid \<longrightarrow> hm_get (sessions m') i = hm_get (sessions m) i) \<and>
     (case hm_get (sessions m) eid of
        None \<Rightarrow> hm_get (sessions m') eid = None
      | Some s \<Rightarrow> \<exists>t. hm_get (sessions m') eid = Some t \<and> same_but_channels s t)"
proof (induction services arbitrary: m)
  case Nil
  then show ?case by (auto split: option.split)
next
  case (Cons x services)
  obtain svc seq where x: "x = (svc, seq)" by fastforce
  show ?case
  proof (cases "m' = m")
    case True
    then show ?thesis by (auto split: option.split)
  next
    case False
    then obtain ks a where
      "register_channels E eid km xp services (add_service_channel m eid svc ks a km) = (r, m')"
      using Cons.prems x by (auto split: sum.splits)
    from Cons.IH [OF this] show ?thesis
      by (auto simp: add_service_channel_get same_but_channels_def split: option.splits)
  qed
qed

lemma register_channels_inv:
  "register_channels E eid km xp services m = (r, m') \<Longrightarrow> mgr_inv m \<Longrightarrow>
     (\<And>s. hm_get (sessions m) eid = Some s \<Longrightarrow> rs_keymaster_pubkey s = km) \<Longrightarrow> mgr_inv m'"
proof (induction services arbitrary: m)
  case (Cons x services)
  obtain svc seq where x: "x = (svc, seq)" by fastforce
  show ?case
  proof (cases "m' = m")
    case False
    then obtain ks a where
      run: "register_channels E eid km xp services (add_service_channel m eid svc ks a km) = (r, m')"
      using Cons.prems x by (auto split: sum.splits)
    show ?thesis
      by (rule Cons.IH [OF run])
        (use Cons.prems in \<open>auto simp: add_service_channel_get intro: add_service_channel_inv\<close>)
  qed (use Cons.prems in simp)
qed simp

text \<open>The channels a successful registration leaves, by service: the last entry wins.\<close>

definition channel_for ::
    "avatar_env \<Rightarrow> public_key \<Rightarrow> xpub option \<Rightarrow> string \<Rightarrow> u32 \<Rightarrow> service_channel \<Rightarrow> bool" where
  "channel_for E km xp svc seq c \<longleftrightarrow>
     sc_service_type c = svc \<and> sc_km_realm_pubkey c = km \<and>
     derive_service_keys (env_K E) (env_sha256 E) (env_login_xpriv E) svc seq =
       Inr (sc_service_avatar_keys c) \<and>
     (case xp of
        Some rxpub \<Rightarrow> derive_service_pubkey (env_K E) (env_sha256 E) rxpub svc seq =
          Inr (sc_km_service_pubkey c)
      | None \<Rightarrow> sc_km_service_pubkey c = km)"

lemma register_channels_ok:
  "register_channels E eid km xp services m = (Inr (), m') \<Longrightarrow> hm_get (sessions m) eid = Some s \<Longrightarrow>
     \<exists>t. hm_get (sessions m') eid = Some t \<and> same_but_channels s t \<and>
       (\<forall>svc. case map_of (rev services) svc of
          Some seq \<Rightarrow> (\<exists>c. hm_get (rs_channels t) svc = Some c \<and> channel_for E km xp svc seq c)
        | None \<Rightarrow> hm_get (rs_channels t) svc = hm_get (rs_channels s) svc)"
proof (induction services arbitrary: m s)
  case (Cons x services)
  obtain svc seq where x: "x = (svc, seq)" by fastforce
  from Cons.prems(1) x obtain ks a where
    run: "register_channels E eid km xp services (add_service_channel m eid svc ks a km) = (Inr (), m')"
    and ch: "channel_for E km xp svc seq \<lparr>sc_service_type = svc, sc_service_avatar_keys = ks,
       sc_km_service_pubkey = a, sc_km_realm_pubkey = km\<rparr>"
    by (auto simp: channel_for_def split: sum.splits option.splits)
  let ?s = "s\<lparr>rs_channels := hm_insert svc \<lparr>sc_service_type = svc, sc_service_avatar_keys = ks,
       sc_km_service_pubkey = a, sc_km_realm_pubkey = km\<rparr> (rs_channels s)\<rparr>"
  have "hm_get (sessions (add_service_channel m eid svc ks a km)) eid = Some ?s"
    using Cons.prems(2) by (simp add: add_service_channel_get)
  from Cons.IH [OF run this] obtain t where t: "hm_get (sessions m') eid = Some t"
    "same_but_channels ?s t" and all: "\<And>v. case map_of (rev services) v of
          Some seq \<Rightarrow> (\<exists>c. hm_get (rs_channels t) v = Some c \<and> channel_for E km xp v seq c)
        | None \<Rightarrow> hm_get (rs_channels t) v = hm_get (rs_channels ?s) v"
    by blast
  have "case map_of (rev (x # services)) v of
          Some seq \<Rightarrow> (\<exists>c. hm_get (rs_channels t) v = Some c \<and> channel_for E km xp v seq c)
        | None \<Rightarrow> hm_get (rs_channels t) v = hm_get (rs_channels s) v" for v
    using all [of v] ch by (auto simp: x hm_get_insert map_add_def split: option.splits if_splits)
  moreover have "same_but_channels s t"
    using t(2) by (simp add: same_but_channels_def)
  ultimately show ?case using t(1) by blast
qed simp

section \<open>The invariant of the daemon\<close>

text \<open>
  \<open>author\<close> is the key that signed an event: an event id is the hash of an event with its
  public key, so it determines it. The channels a session holds are numbered below the next
  free one, belong to no other session and have not been signalled; the listener of a user
  socket is held by a current session of its identity until it is signalled.
\<close>

definition live_channels :: "root_session \<Rightarrow> watch_channel list" where
  "live_channels s = opt_list (rs_shutdown s) @ opt_list (rs_api_socket_shutdown s)"

definition sessions_ok ::
    "(event_id \<Rightarrow> public_key) \<Rightarrow> (event_id \<Rightarrow> root_session option) \<Rightarrow> watch_channel \<Rightarrow>
     watch_channel list \<Rightarrow> bool" where
  "sessions_ok author g next sigs \<longleftrightarrow>
     (\<forall>i s. g i = Some s \<longrightarrow> rs_keymaster_pubkey s = author i \<and> distinct (live_channels s) \<and>
        (\<forall>c \<in> set (live_channels s). c < next \<and> c \<notin> set sigs)) \<and>
     (\<forall>i j s t. g i = Some s \<longrightarrow> g j = Some t \<longrightarrow> i \<noteq> j \<longrightarrow>
        set (live_channels s) \<inter> set (live_channels t) = {}) \<and>
     (\<forall>c \<in> set sigs. c < next)"

definition listeners_ok ::
    "(event_id \<Rightarrow> root_session option) \<Rightarrow> watch_channel \<Rightarrow> watch_channel list \<Rightarrow>
     api_listener list \<Rightarrow> bool" where
  "listeners_ok g next sigs ls \<longleftrightarrow>
     (\<forall>l \<in> set ls. al_channel l < next \<and>
        (al_channel l \<in> set sigs \<or>
         (\<exists>i s. g i = Some s \<and> rs_api_socket_shutdown s = Some (al_channel l) \<and>
            rs_identity s = al_identity l)))"

definition avatar_inv :: "(event_id \<Rightarrow> public_key) \<Rightarrow> avatar_state \<Rightarrow> bool" where
  "avatar_inv author st \<longleftrightarrow>
     mgr_inv (mgr st) \<and> hm_wf (pending st) \<and>
     sessions_ok author (hm_get (sessions (mgr st))) (next_channel st) (signalled st) \<and>
     listeners_ok (hm_get (sessions (mgr st))) (next_channel st) (signalled st) (listeners st)"

lemma avatar_inv_init: "avatar_inv author avatar_init"
  by (simp add: avatar_inv_def avatar_init_def mgr_inv_new sessions_ok_def listeners_ok_def)
    (simp add: session_manager_new_def)

lemma sessions_ok_remove:
  "sessions_ok author g next sigs \<Longrightarrow> g i = Some s \<Longrightarrow>
     sessions_ok author (g(i := None)) next (sigs @ live_channels s)"
  unfolding sessions_ok_def by (auto split: if_splits) blast

lemma listeners_ok_remove:
  "listeners_ok g next sigs ls \<Longrightarrow> g i = Some s \<Longrightarrow>
     listeners_ok (g(i := None)) next (sigs @ live_channels s) ls"
  unfolding listeners_ok_def live_channels_def
  by (auto simp: opt_list_def split: option.splits if_splits) (metis option.inject)+

lemma sessions_ok_create:
  "sessions_ok author g next sigs \<Longrightarrow> rs_keymaster_pubkey s = author i \<Longrightarrow>
     live_channels s = [next] \<Longrightarrow> sessions_ok author (g(i \<mapsto> s)) (Suc next) sigs"
  unfolding sessions_ok_def by (auto split: if_splits) (metis less_SucI less_irrefl_nat)+

text \<open>Both depend only on the channels, keys and identities of the sessions.\<close>

lemma sessions_ok_mono:
  assumes "sessions_ok author g next sigs"
    and "\<And>j u. g' j = Some u \<Longrightarrow> \<exists>v. g j = Some v \<and> rs_keymaster_pubkey u = rs_keymaster_pubkey v \<and>
      live_channels u = live_channels v"
  shows "sessions_ok author g' next sigs"
proof -
  have "rs_keymaster_pubkey u = author j \<and> distinct (live_channels u) \<and>
      (\<forall>c \<in> set (live_channels u). c < next \<and> c \<notin> set sigs)" if "g' j = Some u" for j u
    using assms(1) assms(2) [OF that] unfolding sessions_ok_def by metis
  moreover have "set (live_channels u) \<inter> set (live_channels v) = {}"
    if "g' i = Some u" "g' j = Some v" "i \<noteq> j" for i j u v
    using assms(1) assms(2) [OF that(1)] assms(2) [OF that(2)] that(3) unfolding sessions_ok_def
    by metis
  ultimately show ?thesis using assms(1) unfolding sessions_ok_def by blast
qed

lemma listeners_ok_mono:
  assumes "listeners_ok g next sigs ls" and "next \<le> next'"
    and "\<And>j u. g j = Some u \<Longrightarrow> \<exists>v. g' j = Some v \<and>
      (rs_api_socket_shutdown u \<noteq> None \<longrightarrow> rs_api_socket_shutdown v = rs_api_socket_shutdown u) \<and>
      rs_identity v = rs_identity u"
  shows "listeners_ok g' next' sigs ls"
  unfolding listeners_ok_def
proof (intro ballI conjI)
  fix l assume l: "l \<in> set ls"
  show "al_channel l < next'" using l assms(1,2) unfolding listeners_ok_def by fastforce
  consider "al_channel l \<in> set sigs"
    | i s where "g i = Some s" "rs_api_socket_shutdown s = Some (al_channel l)"
      "rs_identity s = al_identity l"
    using l assms(1) unfolding listeners_ok_def by blast
  then show "al_channel l \<in> set sigs \<or> (\<exists>i s. g' i = Some s \<and>
      rs_api_socket_shutdown s = Some (al_channel l) \<and> rs_identity s = al_identity l)"
    by cases (use assms(3) in \<open>fastforce+\<close>)
qed

lemma listeners_ok_create:
  "listeners_ok g next sigs ls \<Longrightarrow> g i = None \<Longrightarrow> listeners_ok (g(i \<mapsto> s)) (Suc next) sigs ls"
  by (erule listeners_ok_mono) auto

lemma sessions_ok_change:
  "sessions_ok author g next sigs \<Longrightarrow> g i = Some s \<Longrightarrow> same_but_channels s t \<Longrightarrow>
     sessions_ok author (g(i \<mapsto> t)) next sigs"
  by (erule sessions_ok_mono) (auto dest: same_but_channels_fields simp: live_channels_def split: if_splits)

lemma sessions_ok_api:
  assumes "sessions_ok author g next sigs" and "g i = Some s" and "rs_api_socket_shutdown s = None"
  shows "sessions_ok author (g(i \<mapsto> s\<lparr>rs_api_socket_shutdown := Some next\<rparr>)) (Suc next) sigs"
proof -
  have live: "live_channels (s\<lparr>rs_api_socket_shutdown := Some next\<rparr>) = live_channels s @ [next]"
    using assms(3) by (simp add: live_channels_def opt_list_def)
  then show ?thesis
    using assms(1,2) unfolding sessions_ok_def
    by (auto simp: live split: if_splits) (metis less_SucI less_irrefl_nat disjoint_iff)+
qed

lemma evict_stale_ok:
  assumes "mgr_inv m" and "iter_order ord" and "evict_stale ord m km = (sigs, m1)"
    and "sessions_ok author (hm_get (sessions m)) next S"
    and "listeners_ok (hm_get (sessions m)) next S ls"
  shows "mgr_inv m1 \<and> sessions_ok author (hm_get (sessions m1)) next (S @ sigs) \<and>
    listeners_ok (hm_get (sessions m1)) next (S @ sigs) ls \<and>
    (\<forall>i s. hm_get (sessions m1) i = Some s \<longrightarrow> rs_keymaster_pubkey s \<noteq> km)"
proof -
  have m1: "m1 = snd (evict_stale ord m km)" using assms(3) by simp
  have inv: "mgr_inv m1" unfolding m1 by (rule evict_stale_inv [OF assms(1)])
  have gone: "\<forall>i s. hm_get (sessions m1) i = Some s \<longrightarrow> rs_keymaster_pubkey s \<noteq> km"
    unfolding m1 by (auto simp: evict_stale_get [OF assms(1,2)] split: option.splits if_splits)
  show ?thesis
  proof (cases "find_session_by_km_pubkey ord m km")
    case None
    then have "sigs = []" "m1 = m" using assms(3) by (simp_all add: evict_stale_def)
    with assms(4,5) inv gone show ?thesis by simp
  next
    case (Some sid)
    then obtain s where s: "hm_get (sessions m) sid = Some s"
      using find_session_SomeD [OF assms(1,2)] by blast
    then have "sigs = live_channels s" "hm_get (sessions m1) = (hm_get (sessions m))(sid := None)"
      using assms(3) Some
      by (auto simp: evict_stale_def remove_session_def Let_def live_channels_def hm_get_remove)
    with sessions_ok_remove [OF assms(4) s] listeners_ok_remove [OF assms(5) s] inv gone
    show ?thesis by simp
  qed
qed

text \<open>Attaching: the manager before the channels are derived.\<close>

lemma attach_session_ok:
  assumes "mgr_inv m" and "iter_order ord" and "author eid = km"
    and "attach_session ord m eid km svcs ident xp (Some next) = (sigs, m1)"
    and "sessions_ok author (hm_get (sessions m)) next S"
    and "listeners_ok (hm_get (sessions m)) next S ls"
  shows "mgr_inv m1 \<and> sessions_ok author (hm_get (sessions m1)) (Suc next) (S @ sigs) \<and>
    listeners_ok (hm_get (sessions m1)) (Suc next) (S @ sigs) ls \<and>
    (\<exists>s. hm_get (sessions m1) eid = Some s \<and> rs_keymaster_pubkey s = km \<and> rs_identity s = ident \<and>
       rs_realm_xpub s = xp \<and> rs_services s = svcs \<and> rs_channels s = [] \<and>
       rs_api_socket_shutdown s = None)"
proof -
  obtain m0 where ev: "evict_stale ord m km = (sigs, m0)"
    and m1: "m1 = create_root_session m0 eid km svcs ident [] xp (Some next)"
    using assms(4) by (auto simp: attach_session_def split: prod.splits)
  note ok = evict_stale_ok [OF assms(1,2) ev assms(5,6)]
  let ?s = "\<lparr>rs_attached_session_event_id = eid, rs_keymaster_pubkey = km,
        rs_services = svcs, rs_identity = ident, rs_alt_ids = [], rs_realm_xpub = xp,
        rs_channels = [], rs_shutdown = Some next, rs_api_socket_shutdown = None\<rparr>"
  have get: "hm_get (sessions m1) = (hm_get (sessions m0))(eid \<mapsto> ?s)"
    unfolding m1 by (auto simp: create_root_session_get)
  have none: "hm_get (sessions m0) eid = None"
    using ok assms(3) unfolding sessions_ok_def by (metis not_None_eq)
  have "live_channels ?s = [next]" by (simp add: live_channels_def opt_list_def)
  moreover have "mgr_inv m1"
    using attach_session_keeps_inv [OF assms(1,2), of eid km svcs ident xp "Some next"] assms(4)
    by simp
  ultimately show ?thesis
    using sessions_ok_create [of author "hm_get (sessions m0)" "next" "S @ sigs" ?s eid]
      listeners_ok_create [of "hm_get (sessions m0)" "next" "S @ sigs" ls eid ?s]
      none ok assms(3) by (simp add: get)
qed

lemma start_user_api_inv:
  assumes "avatar_inv author st" and "hm_get (sessions (mgr st)) eid = Some s"
    and "rs_api_socket_shutdown s = None" and "rs_identity s = ident"
  shows "avatar_inv author (start_user_api E eid ident st)"
proof (cases "start_user_api E eid ident st = st")
  case False
  then obtain u where u: "Option.bind (env_user_map E) (\<lambda>m. user_map_lookup m ident) = Some u"
    "listener_starts E (ue_uid u) (ue_gid u) ident"
    by (auto simp: start_user_api_def split: option.splits if_splits)
  have st': "start_user_api E eid ident st =
      st\<lparr>next_channel := next_channel st + 1,
         mgr := set_api_socket_shutdown (mgr st) eid (next_channel st),
         listeners := listeners st @ [\<lparr>al_channel = next_channel st, al_uid = ue_uid u,
           al_gid = ue_gid u, al_identity = ident\<rparr>]\<rparr>"
    unfolding start_user_api_def u(1) by (simp add: Let_def u(2))
  let ?g = "hm_get (sessions (mgr st))" and ?n = "next_channel st"
  let ?g' = "?g(eid \<mapsto> s\<lparr>rs_api_socket_shutdown := Some ?n\<rparr>)"
  have get: "hm_get (sessions (set_api_socket_shutdown (mgr st) eid ?n)) = ?g'"
    using assms(2) by (auto simp: set_api_socket_shutdown_def modify_session_get)
  have "listeners_ok ?g' (Suc ?n) (signalled st) (listeners st)"
  proof (rule listeners_ok_mono)
    show "listeners_ok ?g ?n (signalled st) (listeners st)"
      using assms(1) by (simp add: avatar_inv_def)
    fix j u assume "?g j = Some u"
    then show "\<exists>v. ?g' j = Some v \<and> (rs_api_socket_shutdown u \<noteq> None \<longrightarrow>
        rs_api_socket_shutdown v = rs_api_socket_shutdown u) \<and> rs_identity v = rs_identity u"
      using assms(2,3) by (cases "j = eid") auto
  qed simp
  then have "listeners_ok ?g' (Suc ?n) (signalled st) (listeners st @
      [\<lparr>al_channel = ?n, al_uid = ue_uid u, al_gid = ue_gid u, al_identity = ident\<rparr>])"
    using assms(4) unfolding listeners_ok_def by auto
  moreover have "sessions_ok author ?g' (Suc ?n) (signalled st)"
    using assms by (intro sessions_ok_api) (simp_all add: avatar_inv_def)
  ultimately show ?thesis
    using assms(1) by (simp add: avatar_inv_def st' get set_api_socket_shutdown_inv)
qed (simp add: assms(1))

lemma avatar_inv_cong:
  "avatar_inv author st \<Longrightarrow> mgr st' = mgr st \<Longrightarrow> hm_wf (pending st') \<Longrightarrow>
     next_channel st' = next_channel st \<Longrightarrow> signalled st' = signalled st \<Longrightarrow>
     listeners st' = listeners st \<Longrightarrow> avatar_inv author st'"
  by (simp add: avatar_inv_def)

lemma attach_session_of_state:
  assumes "avatar_inv author st" and "iter_order ord" and "author eid = km"
    and "attach_session ord (mgr st) eid km svcs ident xp (Some (next_channel st)) = (sigs, m1)"
  shows "mgr_inv m1 \<and> (\<exists>s. hm_get (sessions m1) eid = Some s \<and> rs_keymaster_pubkey s = km \<and>
      rs_channels s = [])"
proof -
  have inv: "mgr_inv (mgr st)"
    "sessions_ok author (hm_get (sessions (mgr st))) (next_channel st) (signalled st)"
    "listeners_ok (hm_get (sessions (mgr st))) (next_channel st) (signalled st) (listeners st)"
    using assms(1) by (simp_all add: avatar_inv_def)
  show ?thesis using attach_session_ok [OF inv(1) assms(2,3,4) inv(2,3)] by blast
qed

lemma establish_registered:
  assumes "avatar_inv author st" and "iter_order (env_order E)" and "author (ev_id ev) = km"
    and "attach_session (env_order E) (mgr st) (ev_id ev) km (map fst services) ident xp
      (Some (next_channel st)) = (sigs, m1)"
    and "register_channels E (ev_id ev) km xp services m1 = (r, m2)"
  shows "avatar_inv author (st\<lparr>next_channel := next_channel st + 1,
      signalled := signalled st @ sigs, mgr := m2\<rparr>) \<and>
    (\<exists>s. hm_get (sessions m2) (ev_id ev) = Some s \<and> rs_keymaster_pubkey s = km \<and>
      rs_identity s = ident \<and> rs_realm_xpub s = xp \<and> rs_services s = map fst services \<and>
      rs_api_socket_shutdown s = None)"
proof -
  let ?g = "hm_get (sessions m1)"
  have inv: "mgr_inv (mgr st)" "sessions_ok author (hm_get (sessions (mgr st))) (next_channel st) (signalled st)"
    "listeners_ok (hm_get (sessions (mgr st))) (next_channel st) (signalled st) (listeners st)"
    using assms(1) by (simp_all add: avatar_inv_def)
  from attach_session_ok [OF inv(1) assms(2,3,4) inv(2,3)] obtain s where
    m1: "mgr_inv m1" "sessions_ok author ?g (Suc (next_channel st)) (signalled st @ sigs)"
      "listeners_ok ?g (Suc (next_channel st)) (signalled st @ sigs) (listeners st)"
    and s: "?g (ev_id ev) = Some s" "rs_keymaster_pubkey s = km" "rs_identity s = ident"
      "rs_realm_xpub s = xp" "rs_services s = map fst services" "rs_api_socket_shutdown s = None"
    by blast
  from register_channels_get [OF assms(5), of "ev_id ev"] s(1) obtain t where
    t: "hm_get (sessions m2) (ev_id ev) = Some t" "same_but_channels s t" by auto
  have g2: "hm_get (sessions m2) = ?g(ev_id ev \<mapsto> t)"
    using register_channels_get [OF assms(5)] t(1) by auto
  have "listeners_ok (?g(ev_id ev \<mapsto> t)) (Suc (next_channel st)) (signalled st @ sigs) (listeners st)"
    by (rule listeners_ok_mono [OF m1(3)])
      (use s(1) same_but_channels_fields [OF t(2)] in auto)
  moreover have "sessions_ok author (?g(ev_id ev \<mapsto> t)) (Suc (next_channel st)) (signalled st @ sigs)"
    by (rule sessions_ok_change [OF m1(2) s(1) t(2)])
  moreover have "mgr_inv m2"
    by (rule register_channels_inv [OF assms(5) m1(1)]) (use s in simp)
  ultimately show ?thesis
    using assms(1) t(1) s same_but_channels_fields [OF t(2)] by (simp add: avatar_inv_def g2)
qed

lemma establish_inv:
  assumes "avatar_inv author st" and "iter_order (env_order E)" and "author (ev_id ev) = km"
  shows "avatar_inv author (snd (establish E ev km msg services ident xp st))"
proof -
  obtain sigs m1 where at: "attach_session (env_order E) (mgr st) (ev_id ev) km (map fst services)
      ident xp (Some (next_channel st)) = (sigs, m1)" by fastforce
  obtain r m2 where reg: "register_channels E (ev_id ev) km xp services m1 = (r, m2)" by fastforce
  from establish_registered [OF assms at reg] obtain s where
    inv: "avatar_inv author (st\<lparr>next_channel := next_channel st + 1,
      signalled := signalled st @ sigs, mgr := m2\<rparr>)" (is "avatar_inv author ?st2")
    and s: "hm_get (sessions m2) (ev_id ev) = Some s" "rs_identity s = ident"
      "rs_api_socket_shutdown s = None" by blast
  have "avatar_inv author (start_user_api E (ev_id ev) ident ?st2)"
    by (rule start_user_api_inv [OF inv _ s(3,2)]) (simp add: s)
  then have "avatar_inv author (snd (accept_attach E ev km msg services
      (start_user_api E (ev_id ev) ident ?st2)))"
    by (rule avatar_inv_cong) (use assms(1) in \<open>simp_all add: avatar_inv_def\<close>)
  with inv show ?thesis
    by (simp add: establish_def Let_def at reg split: sum.split)
qed

lemma handle_attach_inv:
  assumes "avatar_inv author st" and "iter_order (env_order E)" and "author (ev_id ev) = km"
  shows "avatar_inv author (snd (handle_attach E ev km msg st))"
proof -
  have pend: "hm_wf (pending st)" using assms(1) by (simp add: avatar_inv_def)
  show ?thesis
    using establish_inv [OF assms] avatar_inv_cong [OF assms(1)] pend assms(1)
    by (simp add: handle_attach_def Let_def split: verdict.split)
qed

lemma handle_detach_inv:
  assumes "avatar_inv author st" and "iter_order (env_order E)"
  shows "avatar_inv author (snd (handle_detach E ev km st))"
proof -
  obtain sigs m1 where e: "evict_stale (env_order E) (mgr st) km = (sigs, m1)" by fastforce
  have "avatar_inv author (st\<lparr>mgr := m1, signalled := signalled st @ sigs\<rparr>)"
    using evict_stale_ok [OF _ assms(2) e, of author "next_channel st" "signalled st" "listeners st"]
      assms(1) by (simp add: avatar_inv_def)
  moreover have "(case find_session_by_km_pubkey (env_order E) (mgr st) km of None \<Rightarrow> st
      | Some sid \<Rightarrow> let (_, sigs, m) = remove_session (mgr st) sid
          in st\<lparr>mgr := m, signalled := signalled st @ sigs\<rparr>) =
      st\<lparr>mgr := m1, signalled := signalled st @ sigs\<rparr>"
    using e by (auto simp: evict_stale_def remove_session_def Let_def split: option.splits)
  moreover have "hm_wf (pending st)" using assms(1) by (simp add: avatar_inv_def)
  ultimately show ?thesis
    by (auto simp: handle_detach_def elim!: avatar_inv_cong)
qed

lemma handle_response_inv:
  assumes "avatar_inv author st"
  shows "avatar_inv author (snd (handle_response E ev pt st))"
proof -
  have "hm_wf (pending st)" using assms by (simp add: avatar_inv_def)
  then show ?thesis
    by (intro avatar_inv_cong [OF assms])
      (auto simp: handle_response_def Let_def hm_wf_remove split: option.split)
qed

lemma handle_event_inv:
  assumes "avatar_inv author st" and "iter_order (env_order E)" and "author (ev_id ev) = ev_pubkey ev"
  shows "avatar_inv author (snd (handle_event E ev st))"
proof -
  have "avatar_inv author (snd (send_response E r i resp st))" for r i resp
    by (rule avatar_inv_cong [OF assms(1)]) (use assms(1) in \<open>simp_all add: avatar_inv_def\<close>)
  then show ?thesis
    using handle_attach_inv [OF assms] handle_detach_inv [OF assms(1,2)] handle_response_inv [OF assms(1)]
      assms(1)
    by (simp add: handle_event_def split: option.split)
qed

section \<open>Sessions after an attach\<close>

lemma start_user_api_get:
  "hm_get (sessions (mgr (start_user_api E eid ident st))) i =
     (if i = eid \<and> start_user_api E eid ident st \<noteq> st
      then map_option (\<lambda>s. s\<lparr>rs_api_socket_shutdown := Some (next_channel st)\<rparr>)
        (hm_get (sessions (mgr st)) eid)
      else hm_get (sessions (mgr st)) i)"
proof (cases "start_user_api E eid ident st = st")
  case False
  then show ?thesis
    by (auto simp: start_user_api_def Let_def set_api_socket_shutdown_def modify_session_get
        split: option.split)
qed simp

lemma establish_get_other:
  assumes "mgr_inv (mgr st)" and "iter_order (env_order E)" and "i \<noteq> ev_id ev"
  shows "hm_get (sessions (mgr (snd (establish E ev km msg services ident xp st)))) i =
    (case hm_get (sessions (mgr st)) i of
       Some s \<Rightarrow> if rs_keymaster_pubkey s = km then None else Some s
     | None \<Rightarrow> None)"
proof -
  obtain sigs m1 where at: "attach_session (env_order E) (mgr st) (ev_id ev) km (map fst services)
      ident xp (Some (next_channel st)) = (sigs, m1)" by fastforce
  obtain r m2 where reg: "register_channels E (ev_id ev) km xp services m1 = (r, m2)" by fastforce
  have "hm_get (sessions m2) i = hm_get (sessions m1) i"
    using register_channels_get [OF reg] assms(3) by blast
  moreover have "hm_get (sessions m1) i = (case hm_get (sessions (mgr st)) i of
       Some s \<Rightarrow> if rs_keymaster_pubkey s = km then None else Some s
     | None \<Rightarrow> None)"
    using attach_session_get [OF assms(1,2), of "ev_id ev" km "map fst services" ident xp
      "Some (next_channel st)" i] at assms(3) by simp
  ultimately show ?thesis
    using assms(3) by (simp add: establish_def Let_def at reg start_user_api_get split: sum.split)
qed

lemma establish_get_new:
  assumes "avatar_inv author st" and "iter_order (env_order E)" and "author (ev_id ev) = km"
  shows "\<exists>s. hm_get (sessions (mgr (snd (establish E ev km msg services ident xp st)))) (ev_id ev) = Some s \<and>
    rs_keymaster_pubkey s = km \<and> rs_identity s = ident \<and> rs_realm_xpub s = xp \<and>
    rs_services s = map fst services"
proof -
  obtain sigs m1 where at: "attach_session (env_order E) (mgr st) (ev_id ev) km (map fst services)
      ident xp (Some (next_channel st)) = (sigs, m1)" by fastforce
  obtain r m2 where reg: "register_channels E (ev_id ev) km xp services m1 = (r, m2)" by fastforce
  show ?thesis
    using establish_registered [OF assms at reg]
    by (auto simp: establish_def Let_def at reg start_user_api_get split: sum.split)
qed

lemma handle_detach_get:
  assumes "mgr_inv (mgr st)" and "iter_order (env_order E)"
  shows "hm_get (sessions (mgr (snd (handle_detach E ev km st)))) i =
    (case hm_get (sessions (mgr st)) i of
       Some s \<Rightarrow> if rs_keymaster_pubkey s = km then None else Some s
     | None \<Rightarrow> None)"
proof -
  have "mgr (snd (handle_detach E ev km st)) = snd (evict_stale (env_order E) (mgr st) km)"
    by (simp add: handle_detach_def evict_stale_def remove_session_def Let_def split: option.split)
  then show ?thesis by (simp add: evict_stale_get [OF assms])
qed

text \<open>The message an event carries, if it can be decrypted and parsed.\<close>

definition event_message :: "avatar_env \<Rightarrow> avatar_state \<Rightarrow> event \<Rightarrow> json_rpc_message option" where
  "event_message E st ev = Option.bind (decrypt_event E st ev)
     (\<lambda>pt. Option.bind (json_from_str (env_J E) pt) decode_message)"

text \<open>The three ways an event can act on the session manager.\<close>

lemma handle_event_mgr_cases:
  obtains (same) "mgr (snd (handle_event E ev st)) = mgr st"
  | (attach) msg params where "event_message E st ev = Some msg" "msg_method msg = Some ''attach''"
      "params = attach_params (msg_params msg)"
      "verify_connector (env_J E) (env_sha256 E) (env_C E) (env_login_xpub E) params = Accept"
      "allowed (env_allowlist E) (attach_identity params)"
      "snd (handle_event E ev st) = snd (establish E ev (ev_pubkey ev) msg (parse_services params)
         (attach_identity params) (attach_realm_xpub (env_C E) params) st)"
  | (detach) "snd (handle_event E ev st) = snd (handle_detach E ev (ev_pubkey ev) st)"
proof -
  have "mgr (snd (handle_event E ev st)) = mgr st \<or>
      snd (handle_event E ev st) = snd (handle_detach E ev (ev_pubkey ev) st) \<or>
      (\<exists>msg. event_message E st ev = Some msg \<and> msg_method msg = Some ''attach'' \<and>
         handle_event E ev st = handle_attach E ev (ev_pubkey ev) msg st)"
    by (simp add: handle_event_def event_message_def split: option.split)
  then consider (o) "mgr (snd (handle_event E ev st)) = mgr st"
    | (d) "snd (handle_event E ev st) = snd (handle_detach E ev (ev_pubkey ev) st)"
    | (a) msg where "event_message E st ev = Some msg" "msg_method msg = Some ''attach''"
      "handle_event E ev st = handle_attach E ev (ev_pubkey ev) msg st"
    by blast
  then show thesis
  proof cases
    case a
    show thesis
    proof (cases "mgr (snd (handle_attach E ev (ev_pubkey ev) msg st)) = mgr st")
      case False
      then have "verify_connector (env_J E) (env_sha256 E) (env_C E) (env_login_xpub E)
          (attach_params (msg_params msg)) = Accept \<and>
        allowed (env_allowlist E) (attach_identity (attach_params (msg_params msg))) \<and>
        handle_attach E ev (ev_pubkey ev) msg st = establish E ev (ev_pubkey ev) msg
          (parse_services (attach_params (msg_params msg)))
          (attach_identity (attach_params (msg_params msg)))
          (attach_realm_xpub (env_C E) (attach_params (msg_params msg))) st"
        by (auto simp: handle_attach_def Let_def split: verdict.splits if_splits)
      with a attach show thesis by simp
    qed (use a same in simp)
  qed (use same detach in blast)+
qed

text \<open>
  When an attach is authenticated, exactly: the connector, if there is one, does not name
  another login key, and its signature, if there is one, is a Schnorr signature of the digest
  of the canonical connector under the connector's identity key. An attach without connector,
  or without signature, is accepted whatever identity it claims.
\<close>

lemma verify_connector_Accept_iff:
  "verify_connector J sha256 C login params = Accept \<longleftrightarrow>
     (case jget params ''connector'' of
        None \<Rightarrow> True
      | Some connector \<Rightarrow>
          get_str connector ''login_xpub'' \<in> {None, Some (xpub_to_string C login)} \<and>
          (case get_str params ''connector_sig'' of
             None \<Rightarrow> True
           | Some sig_hex \<Rightarrow> signed_by_identity J sha256 C connector sig_hex
               (case get_str connector ''identity_npub'' of None \<Rightarrow> [] | Some s \<Rightarrow> s)))"
proof -
  have sig: "verify_signature J sha256 C connector sig_hex = Accept \<longleftrightarrow>
      signed_by_identity J sha256 C connector sig_hex
        (case get_str connector ''identity_npub'' of None \<Rightarrow> [] | Some s \<Rightarrow> s)" for connector sig_hex
  proof
    assume "signed_by_identity J sha256 C connector sig_hex
        (case get_str connector ''identity_npub'' of None \<Rightarrow> [] | Some s \<Rightarrow> s)"
    then show "verify_signature J sha256 C connector sig_hex = Accept"
      by (auto simp: verify_signature_def signed_by_identity_def Let_def split: option.splits)
  qed (rule verify_signature_Accept)
  show ?thesis
    by (auto simp: verify_connector_def sig split: option.splits)
qed


text \<open>What a handler may add to the outbox in answer to an event.\<close>

definition replied :: "avatar_env \<Rightarrow> event \<Rightarrow> event list \<Rightarrow> event list \<Rightarrow> bool" where
  "replied E ev out out' \<longleftrightarrow> out' = out \<or>
     (\<exists>c e. sign_event E (length out) (env_keys E) PROTOCOL_KIND c
          [public_key_tag E (ev_pubkey ev), reply_tag E (ev_id ev)] = Some e \<and> out' = out @ [e])"

lemma replied_refl [simp]: "replied E ev out out"
  by (simp add: replied_def)

lemma send_response_replied:
  "outbox s = out \<Longrightarrow> replied E ev out (outbox (snd (send_response E (ev_pubkey ev) (ev_id ev) resp s)))"
  using send_response_outbox [of E "ev_pubkey ev" "ev_id ev" resp s] unfolding replied_def by blast

lemma establish_replied:
  "replied E ev (outbox st) (outbox (snd (establish E ev (ev_pubkey ev) msg services ident xp st)))"
proof -
  obtain sigs m1 where at: "attach_session (env_order E) (mgr st) (ev_id ev) (ev_pubkey ev)
      (map fst services) ident xp (Some (next_channel st)) = (sigs, m1)" by fastforce
  obtain r m2 where reg: "register_channels E (ev_id ev) (ev_pubkey ev) xp services m1 = (r, m2)"
    by fastforce
  show ?thesis
    by (cases r) (simp_all add: establish_def Let_def at reg accept_attach_def send_response_replied)
qed

lemma handle_attach_replied:
  "replied E ev (outbox st) (outbox (snd (handle_attach E ev (ev_pubkey ev) msg st)))"
  using establish_replied
  by (simp add: handle_attach_def Let_def accept_attach_def reject_attach_def send_response_replied
      split: verdict.split)

lemma handle_detach_replied:
  "replied E ev (outbox st) (outbox (snd (handle_detach E ev (ev_pubkey ev) st)))"
  unfolding handle_detach_def Let_def
  by (rule send_response_replied) (simp split: option.split prod.split)

lemma handle_event_replied:
  "replied E ev (outbox st) (outbox (snd (handle_event E ev st)))"
  using handle_attach_replied handle_detach_replied
  by (simp add: handle_event_def send_response_replied split: option.split)

lemma start_user_api_session:
  "hm_get (sessions (mgr st)) i = Some s \<Longrightarrow>
     \<exists>t. hm_get (sessions (mgr (start_user_api E eid ident st))) i = Some t \<and>
       rs_keymaster_pubkey t = rs_keymaster_pubkey s \<and> rs_realm_xpub t = rs_realm_xpub s \<and>
       rs_channels t = rs_channels s \<and> rs_identity t = rs_identity s"
  by (auto simp: start_user_api_get)

lemma realm_xpub_matches_iff:
  assumes "mgr_inv m" and "iter_order ord" and "hm_get (sessions m) i = Some s"
  shows "realm_xpub_matches ord m (rs_keymaster_pubkey s) xp = Some (rs_realm_xpub s = xp)"
  by (simp add: realm_xpub_matches_def find_km_unique [OF assms])

text \<open>The attach request passed both checks.\<close>

definition attach_admitted :: "avatar_env \<Rightarrow> json \<Rightarrow> bool" where
  "attach_admitted E params \<longleftrightarrow>
     verify_connector (env_J E) (env_sha256 E) (env_C E) (env_login_xpub E) params = Accept \<and>
     allowed (env_allowlist E) (attach_identity params)"

lemma handle_attach_admitted:
  "attach_admitted E params \<Longrightarrow> params = attach_params (msg_params msg) \<Longrightarrow>
     handle_attach E ev km msg st =
       (if realm_xpub_matches (env_order E) (mgr st) km (attach_realm_xpub (env_C E) params) = Some True
        then accept_attach E ev km msg (parse_services params) st
        else establish E ev km msg (parse_services params) (attach_identity params)
          (attach_realm_xpub (env_C E) params) st)"
  by (simp add: handle_attach_def attach_admitted_def Let_def)

text \<open>After an admitted attach the extended key of the session is the one of the request.\<close>

lemma attach_then_matches:
  assumes "avatar_inv author st" and "iter_order (env_order E)" and "author (ev_id ev) = km"
    and "attach_admitted E params" and "params = attach_params (msg_params msg)"
  shows "realm_xpub_matches (env_order E) (mgr (snd (handle_attach E ev km msg st))) km
    (attach_realm_xpub (env_C E) params) = Some True"
proof (cases "realm_xpub_matches (env_order E) (mgr st) km (attach_realm_xpub (env_C E) params) = Some True")
  case True
  then show ?thesis by (simp add: handle_attach_admitted [OF assms(4,5)])
next
  case False
  let ?st' = "snd (handle_attach E ev km msg st)"
  have st': "?st' = snd (establish E ev km msg (parse_services params) (attach_identity params)
      (attach_realm_xpub (env_C E) params) st)"
    using False by (simp add: handle_attach_admitted [OF assms(4,5)])
  obtain s where s: "hm_get (sessions (mgr ?st')) (ev_id ev) = Some s" "rs_keymaster_pubkey s = km"
    "rs_realm_xpub s = attach_realm_xpub (env_C E) params"
    using establish_get_new [OF assms(1-3)] unfolding st' by blast
  have "mgr_inv (mgr ?st')" using handle_attach_inv [OF assms(1-3)] by (simp add: avatar_inv_def)
  from realm_xpub_matches_iff [OF this assms(2) s(1)] s show ?thesis by simp
qed

lemma establish_channels:
  assumes "avatar_inv author st" and "iter_order (env_order E)" and "author (ev_id ev) = km"
    and "fst (establish E ev km msg services ident xp st) = Inr ()"
  shows "\<exists>s. hm_get (sessions (mgr (snd (establish E ev km msg services ident xp st)))) (ev_id ev) = Some s \<and>
    rs_keymaster_pubkey s = km \<and>
    (\<forall>svc. case map_of (rev services) svc of
        Some seq \<Rightarrow> (\<exists>c. hm_get (rs_channels s) svc = Some c \<and> channel_for E km xp svc seq c)
      | None \<Rightarrow> hm_get (rs_channels s) svc = None)"
proof -
  obtain sigs m1 where at: "attach_session (env_order E) (mgr st) (ev_id ev) km (map fst services)
      ident xp (Some (next_channel st)) = (sigs, m1)" by fastforce
  obtain r m2 where reg: "register_channels E (ev_id ev) km xp services m1 = (r, m2)" by fastforce
  let ?st2 = "st\<lparr>next_channel := Suc (next_channel st), signalled := signalled st @ sigs, mgr := m2\<rparr>"
  have r: "r = Inr ()" and st': "snd (establish E ev km msg services ident xp st) =
      snd (accept_attach E ev km msg services (start_user_api E (ev_id ev) ident ?st2))"
    using assms(4) by (simp_all add: establish_def Let_def at reg split: sum.splits)
  from attach_session_of_state [OF assms(1-3) at] obtain s where
    s: "hm_get (sessions m1) (ev_id ev) = Some s" "rs_keymaster_pubkey s = km" "rs_channels s = []"
    by blast
  from register_channels_ok [OF reg [unfolded r] s(1), unfolded s(3) map_of.simps(1)] obtain t where
    t: "hm_get (sessions m2) (ev_id ev) = Some t" "same_but_channels s t"
    and ch: "\<forall>svc. case map_of (rev services) svc of
        Some seq \<Rightarrow> (\<exists>c. hm_get (rs_channels t) svc = Some c \<and> channel_for E km xp svc seq c)
      | None \<Rightarrow> hm_get (rs_channels t) svc = None"
    by blast
  from start_user_api_session [of ?st2 "ev_id ev" t E "ev_id ev" ident] t(1) obtain u where
    "hm_get (sessions (mgr (start_user_api E (ev_id ev) ident ?st2))) (ev_id ev) = Some u"
    "rs_keymaster_pubkey u = rs_keymaster_pubkey t" and eq: "rs_channels u = rs_channels t"
    by auto
  with ch [folded eq] s(2) same_but_channels_fields [OF t(2)] show ?thesis by (simp add: st')
qed

section \<open>A concrete daemon\<close>

text \<open>
  The parameters as concrete functions: a key library and signatures over byte strings, no
  encryption, a relay that accepts everything, and a text format that knows one document.
\<close>

definition sample_params :: "u32 \<Rightarrow> json" where
  "sample_params seq = json_object
     [(''services'', JArray [json_object [(''type'', JString ''ssh''), (''seq'', json_of_nat (unat seq))],
        JString ''gpg'', JString ''nostr'']),
      (''connector'', json_object [(''identity_npub'', JString ''id''), (''realm_xpub'', JString ''xp'')]),
      (''connector_sig'', JString ''sig'')]"

definition sample_request :: "u32 \<Rightarrow> json_rpc_request" where
  "sample_request seq = request_new ''attach'' (sample_params seq) (JString ''1'')"

definition sample_crypto :: crypto_lib where
  "sample_crypto = \<lparr>hex_decode_vec = (\<lambda>s. if s = [] then Some [] else
       if s = ''id'' then Some (replicate 32 1) else if s = ''sig'' then Some (replicate 64 2) else None),
     schnorr_from_slice = Some, xonly_from_slice = Some,
     verify_schnorr = (\<lambda>sig digest key. sig = replicate 64 2 \<and> key = replicate 32 1),
     xpub_to_string = (\<lambda>_. ''xpub''), xpub_from_str = (\<lambda>s. Some (Xpub (as_bytes s)))\<rparr>"

definition sample_event :: "byte \<Rightarrow> byte \<Rightarrow> string \<Rightarrow> string list list \<Rightarrow> event" where
  "sample_event k n content tags = \<lparr>ev_id = EventId [k, n], ev_pubkey = PublicKey [k],
     ev_kind = PROTOCOL_KIND, ev_content = content, ev_tags = tags\<rparr>"

definition sample_author :: "event_id \<Rightarrow> public_key" where
  "sample_author i = (case i of EventId b \<Rightarrow> PublicKey (take 1 b))"

definition sample_text :: json_text where
  "sample_text = \<lparr>json_to_string = (\<lambda>_. ''reply''),
     json_from_str = (\<lambda>s. if s = ''attach'' then Some (encode_request (sample_request 5)) else
       if s = ''answer'' then Some (encode_response (response_success (JString ''7'') (JString ''ok''))) else None)\<rparr>"

definition sample_env_with :: "json_text \<Rightarrow> avatar_env" where
  "sample_env_with J = \<lparr>env_J = J,
     env_sha256 = (\<lambda>_. replicate 32 1), env_C = sample_crypto, env_K = toy_keys, env_keys = Keys [1],
     env_login_xpriv = Xpriv [1], env_login_xpub = Xpub [1], env_allowlist = {''id''},
     env_user_map = None, env_order = rev, env_channel_order = rev,
     nip44_decrypt = (\<lambda>_ _ c. Some c), nip44_encrypt = (\<lambda>_ _ _ c. Some c),
     sign_event = (\<lambda>_ k kind c tags. Some \<lparr>ev_id = EventId [0], ev_pubkey = key_pair_public toy_keys k,
        ev_kind = kind, ev_content = c, ev_tags = tags\<rparr>),
     relay_accepts = (\<lambda>_. True), pubkey_hex = (\<lambda>_. ''pk''), event_id_hex = (\<lambda>_. ''ee''),
     event_id_from_hex = (\<lambda>s. Some (EventId (as_bytes s))), listener_starts = (\<lambda>_ _ _. True)\<rparr>"

abbreviation sample_env :: avatar_env where "sample_env \<equiv> sample_env_with sample_text"

definition sample_message :: "u32 \<Rightarrow> json_rpc_message" where
  "sample_message seq = message_of_request (wire_request (sample_request seq))"

lemma sample_params_lookup [simp]:
  "jget (sample_params seq) ''connector'' =
     Some (json_object [(''identity_npub'', JString ''id''), (''realm_xpub'', JString ''xp'')])"
  "jget (sample_params seq) ''connector_sig'' = Some (JString ''sig'')"
  "jget (sample_params seq) ''services'' = Some (JArray
     [json_object [(''type'', JString ''ssh''), (''seq'', json_of_nat (unat seq))], JString ''gpg'', JString ''nostr''])"
  by (simp_all add: sample_params_def jget_json_object)

lemma sample_params_wf: "json_wf (sample_params seq)"
  unfolding sample_params_def by (intro json_wf_object) (auto simp: json_of_nat_def intro!: json_wf_object)

lemma sample_message_fields [simp]:
  "attach_params (msg_params (sample_message seq)) = sample_params seq"
  "msg_method (sample_message seq) = Some ''attach''"
  "is_response (sample_message seq) = False"
proof -
  show "attach_params (msg_params (sample_message seq)) = sample_params seq"
    using sample_params_wf [of seq]
    by (simp add: sample_message_def message_of_request_def wire_request_def sample_request_def
        request_new_def) (simp add: sample_params_def json_object_def attach_params_def)
qed (simp_all add: sample_message_def message_of_request_def wire_request_def sample_request_def
      request_new_def is_response_def)

lemma sample_identity [simp]:
  "attach_identity (sample_params seq) = ''id''"
  "attach_realm_xpub sample_crypto (sample_params seq) = Some (Xpub (as_bytes ''xp''))"
  by (simp_all add: attach_identity_def attach_realm_xpub_def get_str_def jget_json_object
      sample_crypto_def)

lemma sample_admitted [simp]: "attach_admitted (sample_env_with J) (sample_params seq)"
  by (simp add: attach_admitted_def verify_connector_Accept_iff sample_env_with_def allowed_def
      get_str_def jget_json_object signed_by_identity_def hex_of_length_def sample_crypto_def)

lemma sample_services:
  "parse_services (sample_params seq) = [(''ssh'', seq), (''gpg'', 0), (''nostr'', 0)]"
proof -
  have "unat seq < 2 ^ 64" by (rule less_trans [OF unsigned_less]) simp
  moreover have "ucast (ucast seq :: u64) = seq"
    by (rule bit_word_eqI) (simp add: bit_simps)
  ultimately show ?thesis
    by (simp add: parse_services_def parse_service_def get_str_def jget_json_object json_of_nat_def
        as_u64_def List.map_filter_def)
qed

lemma sample_decoded:
  "event_message sample_env st (sample_event k n ''attach'' tags) = Some (sample_message 5)"
  by (simp add: event_message_def decrypt_event_def sample_env_with_def sample_text_def sample_event_def sample_message_def
      decode_message_encode_request)

lemma sample_event_pubkey [simp]: "ev_pubkey (sample_event k n c tags) = PublicKey [k]"
  by (simp add: sample_event_def)

lemma sample_author_event [simp]:
  "sample_author (ev_id (sample_event k n c tags)) = ev_pubkey (sample_event k n c tags)"
  by (simp add: sample_author_def sample_event_def)

lemma sample_env_order [simp]: "iter_order (env_order (sample_env_with J))"
  by (simp add: sample_env_with_def)

lemma sample_init_no_match:
  "realm_xpub_matches ord (mgr avatar_init) km xp \<noteq> Some True" if "iter_order ord"
  using iter_order_set [OF that, of "[]"]
  by (simp add: realm_xpub_matches_def avatar_init_def session_manager_new_def)

lemma sample_handle_event:
  "handle_event sample_env (sample_event k n ''attach'' tags) st =
     handle_attach sample_env (sample_event k n ''attach'' tags) (PublicKey [k]) (sample_message 5) st"
  by (simp add: handle_event_def decrypt_event_def sample_env_with_def sample_text_def sample_event_def
      decode_message_encode_request sample_message_def [symmetric])

lemma sample_env_fields:
  "env_order (sample_env_with J) = rev" "env_C (sample_env_with J) = sample_crypto" "env_K (sample_env_with J) = toy_keys"
  by (simp_all add: sample_env_with_def)

lemma sample_inv: "avatar_inv sample_author avatar_init"
  by (rule avatar_inv_init)

lemma sample_attacher: "sample_author (ev_id (sample_event 7 n c tags)) = PublicKey [7]"
  by (simp add: sample_author_def sample_event_def)

lemma sample_fresh_attach:
  "handle_attach (sample_env_with J) ev km (sample_message seq) avatar_init =
     establish (sample_env_with J) ev km (sample_message seq) (parse_services (sample_params seq)) ''id''
       (Some (Xpub (as_bytes ''xp''))) avatar_init"
  using sample_init_no_match [OF sample_env_order]
  by (simp add: handle_attach_admitted [OF sample_admitted sample_message_fields(1) [symmetric]]
      sample_env_fields)

lemma sample_xpub: "attach_realm_xpub (env_C (sample_env_with J)) (sample_params seq) = Some (Xpub (as_bytes ''xp''))"
  by (simp add: sample_env_with_def)

lemma sample_accepts: "fst (accept_attach (sample_env_with J) ev km msg services st) = Inr ()"
  by (simp add: accept_attach_def send_response_def sample_env_with_def)

lemma sample_attach_ok:
  "unat seq < 2 ^ 31 \<Longrightarrow>
     fst (handle_attach (sample_env_with J) ev (PublicKey [7]) (sample_message seq) avatar_init) = Inr ()"
proof -
  assume seq: "unat seq < 2 ^ 31"
  have keys: "\<exists>ks. derive_service_keys (env_K (sample_env_with J)) (env_sha256 (sample_env_with J)) (env_login_xpriv (sample_env_with J)) svc n = Inr ks"
    and pub: "\<exists>ks. derive_service_pubkey (env_K (sample_env_with J)) (env_sha256 (sample_env_with J)) (Xpub (as_bytes ''xp'')) svc n = Inr ks"
    if "unat n < 2 ^ 31" for svc n
    using that toy_keys_laws(1)
    by (auto simp: derive_service_keys_def derive_service_pubkey_def protocol_index_normal sample_env_with_def
        normal_index_law_def) (auto simp: toy_keys_def normal_index_def)
  have reg: "fst (register_channels (sample_env_with J) eid km (Some (Xpub (as_bytes ''xp'')))
      (parse_services (sample_params seq)) m) = Inr ()" for eid km m
    using keys [OF seq, of "''ssh''"] pub [OF seq, of "''ssh''"] keys [of 0 "''gpg''"] pub [of 0 "''gpg''"]
      keys [of 0 "''nostr''"] pub [of 0 "''nostr''"]
    by (auto simp: sample_services)
  obtain sigs m1 where at: "attach_session (env_order (sample_env_with J)) (mgr avatar_init) (ev_id ev)
      (PublicKey [7]) (map fst (parse_services (sample_params seq))) ''id''
      (Some (Xpub (as_bytes ''xp''))) (Some (next_channel avatar_init)) = (sigs, m1)" by fastforce
  obtain m2 where "register_channels (sample_env_with J) (ev_id ev) (PublicKey [7]) (Some (Xpub (as_bytes ''xp'')))
      (parse_services (sample_params seq)) m1 = (Inr (), m2)"
    using reg [of "ev_id ev" "PublicKey [7]" m1] by (metis prod.collapse)
  then show ?thesis
    by (simp only: sample_fresh_attach establish_def Let_def at sample_accepts prod.case sum.case)
qed

section \<open>Properties\<close>

text \<open>
  No session without authentication: a session that an event creates belongs to the key
  that signed the event and carries the identity, services and extended key of its attach
  request; the request passed the connector verification and the allowlist, and when it has a
  connector with a signature, that signature verifies under the identity of the session. Any
  other session was there before.
\<close>

definition session_authenticated :: "avatar_env \<Rightarrow> avatar_state \<Rightarrow> event \<Rightarrow> root_session \<Rightarrow> bool" where
  "session_authenticated E st ev s \<longleftrightarrow> rs_keymaster_pubkey s = ev_pubkey ev \<and>
     (\<exists>msg params. event_message E st ev = Some msg \<and> msg_method msg = Some ''attach'' \<and>
       params = attach_params (msg_params msg) \<and>
       verify_connector (env_J E) (env_sha256 E) (env_C E) (env_login_xpub E) params = Accept \<and>
       rs_identity s = attach_identity params \<and> allowed (env_allowlist E) (rs_identity s) \<and>
       rs_services s = map fst (parse_services params) \<and>
       rs_realm_xpub s = attach_realm_xpub (env_C E) params \<and>
       (\<forall>connector sig. jget params ''connector'' = Some connector \<longrightarrow>
          get_str params ''connector_sig'' = Some sig \<longrightarrow>
          signed_by_identity (env_J E) (env_sha256 E) (env_C E) connector sig (rs_identity s)))"

lemma session_created_only_if_authenticated:
  assumes "avatar_inv author st" and "iter_order (env_order E)" and "author (ev_id ev) = ev_pubkey ev"
    and "hex_decode_vec (env_C E) [] = Some []"
    and "hm_get (sessions (mgr (snd (handle_event E ev st)))) i = Some s"
  shows "hm_get (sessions (mgr st)) i = Some s \<or> i = ev_id ev \<and> session_authenticated E st ev s"
proof -
  have inv: "mgr_inv (mgr st)" using assms(1) by (simp add: avatar_inv_def)
  show ?thesis
  proof (cases rule: handle_event_mgr_cases [of E ev st])
    case same
    with assms(5) show ?thesis by simp
  next
    case detach
    with assms(5) show ?thesis by (simp add: handle_detach_get [OF inv assms(2)] split: option.splits if_splits)
  next
    case (attach msg params)
    show ?thesis
    proof (cases "i = ev_id ev")
      case False
      with assms(5) attach(6) show ?thesis
        by (simp add: establish_get_other [OF inv assms(2)] split: option.splits if_splits)
    next
      case True
      note new = establish_get_new [OF assms(1-3), of msg "parse_services params"
        "attach_identity params" "attach_realm_xpub (env_C E) params"]
      have "signed_by_identity (env_J E) (env_sha256 E) (env_C E) c sig (attach_identity params)"
        if "jget params ''connector'' = Some c" "get_str params ''connector_sig'' = Some sig" for c sig
        using attach(4) that assms(4) unfolding verify_connector_Accept_iff
        by (auto simp: attach_identity_def signed_by_identity_def hex_of_length_def split: option.splits)
      with True new assms(5) attach show ?thesis unfolding session_authenticated_def by auto
    qed
  qed
qed

text \<open>
  C6. Isolation: no event from one KeyMaster changes the session of another, in any way, and
  no event of any kind changes the session of a KeyMaster other than its sender.
\<close>

theorem events_isolated:
  assumes "avatar_inv author st" and "iter_order (env_order E)" and "author (ev_id ev) = ev_pubkey ev"
    and "km \<noteq> ev_pubkey ev"
  shows "session_of (env_order E) (mgr (snd (handle_event E ev st))) km =
    session_of (env_order E) (mgr st) km"
proof -
  have inv: "mgr_inv (mgr st)" using assms(1) by (simp add: avatar_inv_def)
  have inv': "mgr_inv (mgr (snd (handle_event E ev st)))"
    using handle_event_inv [OF assms(1-3)] by (simp add: avatar_inv_def)
  have own: "rs_keymaster_pubkey s = ev_pubkey ev"
    if "hm_get (sessions (mgr st)) (ev_id ev) = Some s" for s
    using that assms(1,3) by (auto simp: avatar_inv_def sessions_ok_def)
  have "hm_get (sessions (mgr (snd (handle_event E ev st)))) i = Some s \<and> rs_keymaster_pubkey s = km \<longleftrightarrow>
      hm_get (sessions (mgr st)) i = Some s \<and> rs_keymaster_pubkey s = km" for i s
  proof (cases rule: handle_event_mgr_cases [of E ev st])
    case detach
    then show ?thesis
      using assms(4) by (auto simp: handle_detach_get [OF inv assms(2)] split: option.splits if_splits)
  next
    case (attach msg params)
    note new = establish_get_new [OF assms(1-3), of msg "parse_services params"
      "attach_identity params" "attach_realm_xpub (env_C E) params"]
    show ?thesis
    proof (cases "i = ev_id ev")
      case True
      then show ?thesis using new own assms(4) attach(6) by auto
    next
      case False
      then show ?thesis
        using assms(4) attach(6) establish_get_other [OF inv assms(2) False]
        by (auto split: option.splits if_splits)
    qed
  qed simp
  then have "session_of (env_order E) (mgr (snd (handle_event E ev st))) km = Some s \<longleftrightarrow>
      session_of (env_order E) (mgr st) km = Some s" for s
    by (simp only: session_of_iff [OF inv assms(2)] session_of_iff [OF inv' assms(2)])
  then show ?thesis by (metis not_Some_eq)
qed

theorem events_isolated_witness:
  "let st = snd (handle_event sample_env (sample_event 8 1 ''attach'' []) avatar_init)
   in session_of rev (mgr (snd (handle_event sample_env (sample_event 7 1 ''attach'' []) st))) (PublicKey [8]) =
      session_of rev (mgr st) (PublicKey [8])"
  using events_isolated [where author = sample_author and E = sample_env and km = "PublicKey [8]"
      and ev = "sample_event 7 1 ''attach'' []"
      and st = "snd (handle_event sample_env (sample_event 8 1 ''attach'' []) avatar_init)"]
    handle_event_inv [OF sample_inv sample_env_order [where J = sample_text]
      sample_author_event [of 8 1 "''attach''" "[]"]]
  by (simp add: sample_env_fields Let_def)

text \<open>What an event does to the table of waiting requests, and what it delivers.\<close>

lemma event_loop_pending:
  "(pending (event_loop_step E ev st) = pending st \<and> delivered (event_loop_step E ev st) = delivered st) \<or>
   (\<exists>i pt. reply_target E ev = Some i \<and> decrypt_event E st ev = Some pt \<and>
      pending (event_loop_step E ev st) = hm_remove i (pending st) \<and>
      delivered (event_loop_step E ev st) = delivered st @
        (case hm_get (pending st) i of None \<Rightarrow> [] | Some tx \<Rightarrow> [(tx, pt)]))"
proof -
  have att: "pending (snd (handle_attach E ev km msg st)) = pending st \<and>
      delivered (snd (handle_attach E ev km msg st)) = delivered st" for km msg
    by (simp add: handle_attach_def establish_def Let_def split: verdict.split prod.split sum.split)
  have det: "pending (snd (handle_detach E ev km st)) = pending st \<and>
      delivered (snd (handle_detach E ev km st)) = delivered st" for km
    by (simp add: handle_detach_def Let_def split: option.split prod.split)
  show ?thesis
    by (simp add: event_loop_step_def handle_event_def att det handle_response_def Let_def
        split: option.split)
qed

text \<open>Nothing is delivered to a waiter that is not in the table, whatever events come.\<close>

abbreviation deliveries :: "waiter \<Rightarrow> avatar_state \<Rightarrow> (waiter \<times> string) list" where
  "deliveries tx st \<equiv> filter (\<lambda>d. fst d = tx) (delivered st)"

lemma event_loop_not_waiting:
  assumes "\<And>i. hm_get (pending st) i \<noteq> Some tx"
  shows "deliveries tx (event_loop_step E ev st) = deliveries tx st \<and>
    (\<forall>i. hm_get (pending (event_loop_step E ev st)) i \<noteq> Some tx)"
  using event_loop_pending [of E ev st] assms by (auto simp: hm_get_remove split: option.splits if_splits)

lemma events_not_waiting:
  "(\<And>i. hm_get (pending st) i \<noteq> Some tx) \<Longrightarrow>
     deliveries tx (fold (event_loop_step E) evs st) = deliveries tx st"
proof (induction evs arbitrary: st)
  case (Cons ev evs)
  from event_loop_not_waiting [OF Cons.prems, of E ev] Cons.IH [of "event_loop_step E ev st"]
  show ?case by simp
qed simp

text \<open>
  C9. Routing of responses: when the event loop handles a response, it removes the waiter
  registered under the event that the response replies to and delivers the plaintext to that
  waiter; everything else of the state stays as it is, and without a reply tag, or without such
  a waiter, nothing is delivered. A waiter is answered once: whatever events follow, replays of
  the same response included, this text remains the only one delivered to it, when it was
  registered once and had got nothing before.
\<close>

theorem response_routed_once:
  assumes "ev_kind ev = PROTOCOL_KIND" and "decrypt_event E st ev = Some pt"
    and "Option.bind (json_from_str (env_J E) pt) decode_message = Some msg" and "is_response msg"
  shows "event_loop_step E ev st = st\<lparr>
      pending := (case reply_target E ev of None \<Rightarrow> pending st | Some i \<Rightarrow> hm_remove i (pending st)),
      delivered := delivered st @ (case Option.bind (reply_target E ev) (hm_get (pending st)) of
        None \<Rightarrow> [] | Some tx \<Rightarrow> [(tx, pt)])\<rparr> \<and>
    (\<forall>i tx evs. reply_target E ev = Some i \<longrightarrow> hm_get (pending st) i = Some tx \<longrightarrow>
       (\<forall>j. hm_get (pending st) j = Some tx \<longrightarrow> j = i) \<longrightarrow> deliveries tx st = [] \<longrightarrow>
       deliveries tx (fold (event_loop_step E) evs (event_loop_step E ev st)) = [(tx, pt)])"
proof -
  have step: "event_loop_step E ev st = st\<lparr>
      pending := (case reply_target E ev of None \<Rightarrow> pending st | Some i \<Rightarrow> hm_remove i (pending st)),
      delivered := delivered st @ (case Option.bind (reply_target E ev) (hm_get (pending st)) of
        None \<Rightarrow> [] | Some tx \<Rightarrow> [(tx, pt)])\<rparr>"
    using assms(1,4) by (cases "reply_target E ev")
      (simp_all add: event_loop_step_def handle_event_def handle_response_def assms(2,3) Let_def split: option.split)
  have once: "deliveries tx (fold (event_loop_step E) evs (event_loop_step E ev st)) = [(tx, pt)]"
    if "reply_target E ev = Some i" "hm_get (pending st) i = Some tx"
      and only: "\<forall>j. hm_get (pending st) j = Some tx \<longrightarrow> j = i" and "deliveries tx st = []" for i tx evs
  proof -
    have "hm_get (pending (event_loop_step E ev st)) j \<noteq> Some tx" for j
      using only [rule_format, of j] that(1,2) by (cases "j = i") (auto simp: step hm_get_remove)
    from events_not_waiting [OF this] that(1,2,4) show ?thesis by (simp add: step)
  qed
  show ?thesis by (intro conjI allI impI) (rule step, rule once)
qed

text \<open>A response that arrives three times.\<close>

theorem response_routed_once_witness:
  "let ev = sample_event 7 1 ''answer'' [[''e'', ''q'', '''', ''reply'']] in
     deliveries 4 (fold (event_loop_step sample_env) [ev, ev, ev]
       (avatar_init\<lparr>pending := [(EventId (as_bytes ''q''), 4)]\<rparr>)) = [(4, ''answer'')]"
proof -
  let ?ev = "sample_event 7 1 ''answer'' [[''e'', ''q'', '''', ''reply'']]"
  let ?st = "avatar_init\<lparr>pending := [(EventId (as_bytes ''q''), 4)]\<rparr>"
  let ?r = "response_success (JString ''7'') (JString ''ok'')"
  have kind: "ev_kind ?ev = PROTOCOL_KIND" and plain: "decrypt_event sample_env ?st ?ev = Some ''answer''"
    by (simp_all add: sample_event_def decrypt_event_def sample_env_with_def)
  have msg: "Option.bind (json_from_str (env_J sample_env) ''answer'') decode_message =
      Some (message_of_response (wire_response ?r))"
    by (simp add: sample_env_with_def sample_text_def decode_message_encode_response)
  have resp: "is_response (message_of_response (wire_response ?r))"
    by (simp add: is_response_def message_of_response_def wire_response_def response_success_def wire_opt_def)
  have target: "reply_target sample_env ?ev = Some (EventId (as_bytes ''q''))"
    by (simp add: reply_target_def sample_event_def sample_env_with_def)
  have table: "hm_get (pending ?st) (EventId (as_bytes ''q'')) = Some 4" "deliveries 4 ?st = []"
    "hm_get (pending ?st) j = Some 4 \<longrightarrow> j = EventId (as_bytes ''q'')" for j
    by (simp_all add: avatar_init_def)
  note response_routed_once [OF kind plain msg resp, THEN conjunct2, THEN spec, THEN spec, THEN spec, THEN mp, OF target,
      THEN mp, OF table(1), THEN mp, OF allI [OF table(3)], THEN mp, OF table(2), of "[?ev, ?ev]"]
  then show ?thesis unfolding Let_def fold_simps .
qed

text \<open>
  A response is not authenticated: whoever sends an event that the daemon can decrypt and that
  replies to a waiting request answers the waiter; no premise constrains the sender's key.
\<close>

lemma forged_response_delivered:
  assumes "decrypt_event E st ev = Some pt"
    and "Option.bind (json_from_str (env_J E) pt) decode_message = Some msg" and "is_response msg"
    and "reply_target E ev = Some i" and "hm_get (pending st) i = Some tx"
  shows "delivered (snd (handle_event E ev st)) = delivered st @ [(tx, pt)]"
  using assms by (simp add: handle_event_def handle_response_def Let_def)

text \<open>
  Replies: an event adds at most one event to what the daemon sends, it is addressed to
  the sender of the event, carries a reply tag with the id of the event and is signed by the
  login key; the earlier ones are untouched, and a response is never answered.
\<close>

lemma at_most_one_reply:
  "let st' = snd (handle_event E ev st) in
     outbox st' = outbox st \<or>
     (\<exists>c e. sign_event E (length (outbox st)) (env_keys E) PROTOCOL_KIND c
          [public_key_tag E (ev_pubkey ev), reply_tag E (ev_id ev)] = Some e \<and>
        outbox st' = outbox st @ [e] \<and>
        (\<forall>msg. event_message E st ev = Some msg \<longrightarrow> \<not> is_response msg))"
proof -
  have "outbox (snd (handle_event E ev st)) = outbox st"
    if "event_message E st ev = Some msg" "is_response msg" for msg
    using that by (auto simp: handle_event_def event_message_def split: option.splits)
  then show ?thesis
    using handle_event_replied [of E ev st] unfolding replied_def Let_def by blast
qed

text \<open>
  C10. Re-attaching is idempotent: once an admitted attach has been handled (whether it
  succeeded or failed half way), any admitted attach of the same KeyMaster with the same
  extended key is answered at once, with the services it asks for, and leaves sessions,
  channels, sockets and signals as they are. The services of the answer are therefore not
  compared with the channels that exist.
\<close>

theorem reattach_idempotent:
  assumes "avatar_inv author st" and "iter_order (env_order E)" and "author (ev_id ev) = km"
    and "attach_admitted E (attach_params (msg_params msg))"
    and "attach_admitted E (attach_params (msg_params msg2))"
    and "attach_realm_xpub (env_C E) (attach_params (msg_params msg2)) =
      attach_realm_xpub (env_C E) (attach_params (msg_params msg))"
    and "st1 = snd (handle_attach E ev km msg st)"
  shows "handle_attach E ev2 km msg2 st1 =
      accept_attach E ev2 km msg2 (parse_services (attach_params (msg_params msg2))) st1 \<and>
    mgr (snd (handle_attach E ev2 km msg2 st1)) = mgr st1 \<and>
    listeners (snd (handle_attach E ev2 km msg2 st1)) = listeners st1 \<and>
    signalled (snd (handle_attach E ev2 km msg2 st1)) = signalled st1"
  using attach_then_matches [OF assms(1-4) refl] assms(7)
  by (simp add: handle_attach_admitted [OF assms(5) refl] assms(6))

theorem reattach_idempotent_witness:
  "let st = snd (handle_attach sample_env (sample_event 7 1 ''attach'' []) (PublicKey [7])
       (sample_message 5) avatar_init)
   in mgr (snd (handle_attach sample_env (sample_event 7 2 ''attach'' []) (PublicKey [7])
       (sample_message 6) st)) = mgr st"
  using reattach_idempotent [where author = sample_author and E = sample_env and st = avatar_init
      and ev = "sample_event 7 1 ''attach'' []" and ?ev2.0 = "sample_event 7 2 ''attach'' []"
      and km = "PublicKey [7]" and msg = "sample_message 5" and ?msg2.0 = "sample_message 6"]
  by (simp add: sample_inv sample_attacher sample_env_fields Let_def)

text \<open>
  C7. The channels of a session: when a new attach is answered, the session of its KeyMaster
  has exactly one channel for each service of the request (the last entry of a repeated
  service counts), with the avatar's keys derived from its login key and the peer's key
  derived from the extended key of the request, or the sender's own key without one.
\<close>

theorem attach_registers_channels:
  assumes "avatar_inv author st" and "iter_order (env_order E)" and "author (ev_id ev) = km"
    and "attach_admitted E params" and "params = attach_params (msg_params msg)"
    and "realm_xpub_matches (env_order E) (mgr st) km (attach_realm_xpub (env_C E) params) \<noteq> Some True"
    and "handle_attach E ev km msg st = (Inr (), st')"
  shows "\<exists>s. session_of (env_order E) (mgr st') km = Some s \<and>
    (\<forall>svc. case map_of (rev (parse_services params)) svc of
        Some seq \<Rightarrow> (\<exists>c. hm_get (rs_channels s) svc = Some c \<and>
           channel_for E km (attach_realm_xpub (env_C E) params) svc seq c)
      | None \<Rightarrow> hm_get (rs_channels s) svc = None)"
proof -
  have est: "establish E ev km msg (parse_services params) (attach_identity params)
      (attach_realm_xpub (env_C E) params) st = (Inr (), st')"
    using assms(6,7) by (simp add: handle_attach_admitted [OF assms(4,5)])
  have inv: "mgr_inv (mgr st')"
    using handle_attach_inv [OF assms(1-3), of msg] assms(7) by (simp add: avatar_inv_def)
  show ?thesis
    using establish_channels [OF assms(1-3), of msg "parse_services params" "attach_identity params"
      "attach_realm_xpub (env_C E) params"] session_of_iff [OF inv assms(2)] by (auto simp: est)
qed

theorem attach_registers_channels_witness:
  "\<exists>st' s c. handle_attach sample_env (sample_event 7 1 ''attach'' []) (PublicKey [7])
       (sample_message 5) avatar_init = (Inr (), st') \<and>
     session_of rev (mgr st') (PublicKey [7]) = Some s \<and>
     hm_get (rs_channels s) ''ssh'' = Some c \<and>
     channel_for sample_env (PublicKey [7]) (Some (Xpub (as_bytes ''xp''))) ''ssh'' 5 c"
proof -
  let ?run = "handle_attach sample_env (sample_event 7 1 ''attach'' []) (PublicKey [7])
    (sample_message 5) avatar_init"
  have "fst ?run = Inr ()"
    by (rule sample_attach_ok) simp
  then have run: "?run = (Inr (), snd ?run)" by (metis prod.collapse)
  obtain s where s: "session_of rev (mgr (snd ?run)) (PublicKey [7]) = Some s"
    and ch: "\<And>svc. case map_of (rev [(''ssh'', 5), (''gpg'', 0), (''nostr'', 0)]) svc of
      Some seq \<Rightarrow> (\<exists>c. hm_get (rs_channels s) svc = Some c \<and>
           channel_for sample_env (PublicKey [7]) (Some (Xpub (as_bytes ''xp''))) svc seq c)
      | None \<Rightarrow> hm_get (rs_channels s) svc = None"
    using attach_registers_channels [OF sample_inv sample_env_order sample_attacher
        sample_admitted [where seq = 5] sample_message_fields(1) [of 5, symmetric]
        sample_init_no_match [OF sample_env_order] run]
    unfolding sample_services sample_env_fields sample_identity(2) by blast
  from ch [of "''ssh''"] run s show ?thesis by auto
qed

text \<open>
  C12. A half-finished attach: when the first service asks for a sequence number that is not a
  normal index, the attach fails without a reply, but the old session of the KeyMaster is
  gone and a new one without any channel is in place; repeating the same attach is then
  acknowledged as accepted although no channel exists.
\<close>

theorem failed_attach_leaves_bare_session:
  assumes "avatar_inv author st" and "iter_order (env_order E)" and "author (ev_id ev) = km"
    and "attach_admitted E params" and "params = attach_params (msg_params msg)"
    and "realm_xpub_matches (env_order E) (mgr st) km (attach_realm_xpub (env_C E) params) \<noteq> Some True"
    and "normal_index_law (env_K E)"
    and "parse_services params = (svc, seq) # svcs" and "2 ^ 31 \<le> unat seq"
  shows "\<exists>st' s. handle_attach E ev km msg st = (Inl (DeriveFailed (BadIndex seq)), st') \<and>
    outbox st' = outbox st \<and>
    session_of (env_order E) (mgr st') km = Some s \<and> rs_channels s = [] \<and>
    handle_attach E ev2 km msg st' = accept_attach E ev2 km msg (parse_services params) st'"
proof -
  let ?xp = "attach_realm_xpub (env_C E) params" and ?id = "attach_identity params"
  obtain sigs m1 where at: "attach_session (env_order E) (mgr st) (ev_id ev) km
      (map fst (parse_services params)) ?id ?xp (Some (next_channel st)) = (sigs, m1)" by fastforce
  have "normal_index (env_K E) seq = Inl (BadIndex seq)"
    using assms(7,9) by (simp add: normal_index_law_def normal_index_def)
  then have "derive_service_keys (env_K E) (env_sha256 E) (env_login_xpriv E) svc seq =
      Inl (BadIndex seq)"
    by (simp add: derive_service_keys_def protocol_index_normal [OF assms(7)])
  then have reg: "register_channels E (ev_id ev) km ?xp (parse_services params) m1 =
      (Inl (DeriveFailed (BadIndex seq)), m1)"
    by (simp add: assms(8))
  let ?st' = "st\<lparr>next_channel := Suc (next_channel st), signalled := signalled st @ sigs, mgr := m1\<rparr>"
  have run: "handle_attach E ev km msg st = (Inl (DeriveFailed (BadIndex seq)), ?st')"
    using assms(6) by (simp add: handle_attach_admitted [OF assms(4,5)] establish_def Let_def at reg)
  from attach_session_of_state [OF assms(1-3) at] obtain s where
    s: "mgr_inv m1" "hm_get (sessions m1) (ev_id ev) = Some s" "rs_keymaster_pubkey s = km"
      "rs_channels s = []"
    by blast
  then have "session_of (env_order E) (mgr ?st') km = Some s"
    using session_of_iff [OF s(1) assms(2)] by auto
  moreover have "handle_attach E ev2 km msg ?st' = accept_attach E ev2 km msg (parse_services params) ?st'"
    using attach_then_matches [OF assms(1-5)] run by (simp add: handle_attach_admitted [OF assms(4,5)])
  ultimately show ?thesis using run s(4) by auto
qed

theorem failed_attach_leaves_bare_session_witness:
  "\<exists>st' s. handle_attach sample_env (sample_event 7 1 ''attach'' []) (PublicKey [7])
       (sample_message (2 ^ 31)) avatar_init = (Inl (DeriveFailed (BadIndex (2 ^ 31))), st') \<and>
     session_of rev (mgr st') (PublicKey [7]) = Some s \<and> rs_channels s = [] \<and>
     fst (handle_attach sample_env (sample_event 7 2 ''attach'' []) (PublicKey [7])
       (sample_message (2 ^ 31)) st') = Inr ()"
proof -
  have law: "normal_index_law (env_K sample_env)" by (simp add: sample_env_fields toy_keys_laws)
  have big: "2 ^ 31 \<le> unat (2 ^ 31 :: u32)" by simp
  show ?thesis
    using failed_attach_leaves_bare_session [OF sample_inv sample_env_order sample_attacher
        sample_admitted [where seq = "2 ^ 31"] sample_message_fields(1) [of "2 ^ 31", symmetric]
        sample_init_no_match [OF sample_env_order] law sample_services big,
        of 1 "''attach''" "[]" "sample_event 7 2 ''attach'' []"]
    unfolding sample_env_fields by (auto simp: sample_accepts)
qed

end
