(* ===== verification/Local_Api.thy ===== *)
theory Local_Api
  imports Avatar
begin

text \<open>
  The local API of the daemon (crates/avatar/src/local_api.rs): the sockets service avatars
  connect to, the request loop of one connection, and the forwarding of a request to the
  KeyMaster with the table of waiting requests. Connections and the event loop run
  concurrently; the step relation \<open>api_step\<close> interleaves them at the awaits of the code.
\<close>

section \<open>Sockets\<close>

text \<open>
  The socket files by name and the accept tasks that run, each with the name it will remove
  when it stops. \<open>m0\<close> is the mode \<open>bind\<close> creates the file with, under the process's umask.
\<close>

record socket_file =
  sf_listener :: nat
  sf_mode :: nat
  sf_owner :: "(u32 \<times> u32) option"

record socket_dir =
  sd_files :: "string \<Rightarrow> socket_file option"
  sd_running :: "nat \<Rightarrow> string option"

definition MODE_0700 :: nat where "MODE_0700 = 7 * 8 * 8"

definition api_socket_name :: "u32 \<Rightarrow> string" where
  "api_socket_name uid = ''api-'' @ nat_to_dec (unat uid) @ ''.sock''"

text \<open>What the operating system allows: bind, chmod and chown of the socket.\<close>

record socket_rights =
  may_bind :: bool
  may_chmod :: bool
  may_chown :: bool

definition start_default_listener ::
    "socket_rights \<Rightarrow> nat \<Rightarrow> string \<Rightarrow> nat \<Rightarrow> socket_dir \<Rightarrow> bool \<times> socket_dir" where
  "start_default_listener R m0 name n d =
     (let d1 = d\<lparr>sd_files := (sd_files d)(name := None)\<rparr> in
      if \<not> may_bind R then (False, d1)
      else (True, d1\<lparr>sd_files := (sd_files d1)(name \<mapsto>
              \<lparr>sf_listener = n, sf_mode = m0, sf_owner = None\<rparr>),
            sd_running := (sd_running d1)(n \<mapsto> name)\<rparr>))"

definition start_user_listener ::
    "socket_rights \<Rightarrow> nat \<Rightarrow> u32 \<Rightarrow> u32 \<Rightarrow> nat \<Rightarrow> socket_dir \<Rightarrow> bool \<times> socket_dir" where
  "start_user_listener R m0 uid gid n d =
     (let name = api_socket_name uid;
          d1 = d\<lparr>sd_files := (sd_files d)(name := None)\<rparr>;
          file = (\<lambda>mode owner. \<lparr>sf_listener = n, sf_mode = mode, sf_owner = owner\<rparr>)
      in if \<not> may_bind R then (False, d1)
         else if \<not> may_chmod R then (False, d1\<lparr>sd_files := (sd_files d1)(name \<mapsto> file m0 None)\<rparr>)
         else if \<not> may_chown R then
           (False, d1\<lparr>sd_files := (sd_files d1)(name \<mapsto> file MODE_0700 None)\<rparr>)
         else (True, d1\<lparr>sd_files := (sd_files d1)(name \<mapsto> file MODE_0700 (Some (uid, gid))),
                 sd_running := (sd_running d1)(n \<mapsto> name)\<rparr>))"

text \<open>The end of an accept task: it leaves its loop and removes the file at its path.\<close>

definition listener_shutdown :: "nat \<Rightarrow> socket_dir \<Rightarrow> socket_dir" where
  "listener_shutdown n d =
     (case sd_running d n of
        None \<Rightarrow> d
      | Some name \<Rightarrow> d\<lparr>sd_files := (sd_files d)(name := None),
          sd_running := (sd_running d)(n := None)\<rparr>)"

section \<open>One message of a connection\<close>

datatype api_action =
    Ignore
  | Reply json_rpc_response
  | Forward string json_rpc_request

definition str_param :: "json \<Rightarrow> string \<Rightarrow> string" where
  "str_param params k = (case get_str params k of None \<Rightarrow> [] | Some s \<Rightarrow> s)"

definition handle_message ::
    "string option \<Rightarrow> json_rpc_message \<Rightarrow> string option \<times> api_action" where
  "handle_message bound_service msg =
     (case msg_method msg of
        None \<Rightarrow> (bound_service, Ignore)
      | Some meth \<Rightarrow>
          let i = id_or JNull msg; params = msg_params msg in
          if meth = ''connect'' then
            let svc_type = str_param params ''type''; npub = str_param params ''npub'' in
            if svc_type = [] then
              (bound_service, Reply (response_error i JSONRPC_INTERNAL_ERROR
                ''connect requires 'type' param''))
            else (Some svc_type,
              Reply (response_success i (json_object [(''npub'', JString npub)])))
          else case bound_service of
            None \<Rightarrow> (None, Reply (response_error i JSONRPC_INTERNAL_ERROR
                ''must send 'connect' first''))
          | Some s \<Rightarrow> (Some s, Forward s
              \<lparr>req_jsonrpc = ''2.0'', req_method = meth, req_params = params, req_id = Some i\<rparr>))"

section \<open>Forwarding\<close>

definition realm_tag :: "avatar_env \<Rightarrow> public_key \<Rightarrow> string list" where
  "realm_tag E km = [''p'', pubkey_hex E km, '''', ''realm'']"

definition send_service_request ::
    "avatar_env \<Rightarrow> keys \<Rightarrow> public_key \<Rightarrow> public_key \<Rightarrow> string \<Rightarrow> avatar_state \<Rightarrow>
     event_id option \<times> avatar_state" where
  "send_service_request E service_keys km_service km_realm request_json st =
     (case nip44_encrypt E (length (outbox st)) service_keys km_service request_json of
        None \<Rightarrow> (None, st)
      | Some encrypted \<Rightarrow>
          (case sign_event E (length (outbox st)) service_keys PROTOCOL_KIND encrypted
                  [public_key_tag E km_service, realm_tag E km_realm] of
             None \<Rightarrow> (None, st)
           | Some ev \<Rightarrow>
               if relay_accepts E ev then (Some (ev_id ev), st\<lparr>outbox := outbox st @ [ev]\<rparr>)
               else (None, st)))"

definition request_id :: "json_rpc_request \<Rightarrow> json" where
  "request_id r = (case req_id r of None \<Rightarrow> JNull | Some i \<Rightarrow> i)"

text \<open>\<open>forward_to_nostr\<close> up to the event it sends: the answer it gives at once, or the event.\<close>

definition forward_send ::
    "avatar_env \<Rightarrow> string option \<Rightarrow> string \<Rightarrow> json_rpc_request \<Rightarrow> avatar_state \<Rightarrow>
     (json_rpc_response + event_id) \<times> avatar_state" where
  "forward_send E ident service_type request st =
     (let channel = (case ident of
            Some i \<Rightarrow> find_service_channel_for_identity (env_order E) (mgr st) service_type i
          | None \<Rightarrow> find_service_channel (env_order E) (mgr st) service_type)
      in case channel of
           None \<Rightarrow> (Inl (response_error (request_id request) JSONRPC_NO_SESSION
               ''no service channel available''), st)
         | Some (service_keys, km_service, km_realm) \<Rightarrow>
             (case send_service_request E service_keys km_service km_realm
                     (json_to_string (env_J E) (encode_request request)) st of
                (None, st') \<Rightarrow> (Inl (response_error (request_id request) JSONRPC_SEND_FAILED
                    ''failed to send request''), st')
              | (Some eid, st') \<Rightarrow> (Inr eid, st')))"

definition forward_wait :: "event_id \<Rightarrow> waiter \<Rightarrow> avatar_state \<Rightarrow> avatar_state" where
  "forward_wait eid tx st = st\<lparr>pending := hm_insert eid tx (pending st)\<rparr>"

datatype wait_outcome = Delivered string | Dropped | TimedOut

text \<open>\<open>json_error\<close> is the text of the parser's error for a malformed document.\<close>

definition forward_answer ::
    "json_text \<Rightarrow> (string \<Rightarrow> string) \<Rightarrow> json \<Rightarrow> wait_outcome \<Rightarrow> json_rpc_response" where
  "forward_answer J json_error i outcome =
     (case outcome of
        Delivered response_json \<Rightarrow>
          (case Option.bind (json_from_str J response_json) decode_response of
             Some resp \<Rightarrow> resp
           | None \<Rightarrow>
               (case from_str_value J response_json of
                  Some val \<Rightarrow> response_success i val
                | None \<Rightarrow> response_error i JSONRPC_INTERNAL_ERROR
                    (''invalid response: '' @ json_error response_json)))
      | Dropped \<Rightarrow> response_error i JSONRPC_CHANNEL_DROPPED ''response channel dropped''
      | TimedOut \<Rightarrow> response_error i JSONRPC_TIMEOUT ''timeout'')"

definition forward_timeout :: "event_id \<Rightarrow> avatar_state \<Rightarrow> avatar_state" where
  "forward_timeout eid st = st\<lparr>pending := hm_remove eid (pending st)\<rparr>"

section \<open>Connections and the event loop together\<close>

datatype phase = Idle | Sent event_id json | Waiting event_id waiter json

record connection =
  cn_identity :: "string option"
  cn_bound :: "string option"
  cn_phase :: phase
  cn_written :: "json_rpc_response list"

record api_system =
  daemon :: avatar_state
  conns :: "nat \<Rightarrow> connection option"
  next_waiter :: waiter

definition answer_with :: "json_rpc_response \<Rightarrow> connection \<Rightarrow> connection" where
  "answer_with r con = con\<lparr>cn_phase := Idle, cn_written := cn_written con @ [r]\<rparr>"

text \<open>One turn of the loop of \<open>handle_connection\<close>, up to its first await after the send.\<close>

definition serve_message ::
    "avatar_env \<Rightarrow> connection \<Rightarrow> json_rpc_message \<Rightarrow> avatar_state \<Rightarrow> connection \<times> avatar_state" where
  "serve_message E con msg st =
     (let (bound', action) = handle_message (cn_bound con) msg;
          con' = con\<lparr>cn_bound := bound'\<rparr>
      in case action of
           Ignore \<Rightarrow> (con', st)
         | Reply r \<Rightarrow> (answer_with r con', st)
         | Forward svc req \<Rightarrow>
             (case forward_send E (cn_identity con) svc req st of
                (Inl r, st') \<Rightarrow> (answer_with r con', st')
              | (Inr eid, st') \<Rightarrow> (con'\<lparr>cn_phase := Sent eid (request_id req)\<rparr>, st')))"

datatype api_event =
    RelayEvent event
  | Connect nat "string option"
  | Message nat json_rpc_message
  | Register nat
  | Receive nat string
  | SenderDropped nat
  | TimeOut nat
  | Disconnect nat

definition set_conn :: "nat \<Rightarrow> connection option \<Rightarrow> api_system \<Rightarrow> api_system" where
  "set_conn c con s = s\<lparr>conns := (conns s)(c := con)\<rparr>"

definition finish ::
    "avatar_env \<Rightarrow> (string \<Rightarrow> string) \<Rightarrow> nat \<Rightarrow> connection \<Rightarrow> json \<Rightarrow> wait_outcome \<Rightarrow> api_system \<Rightarrow> api_system" where
  "finish E json_error c con i outcome s =
     set_conn c (Some (answer_with (forward_answer (env_J E) json_error i outcome) con)) s"

inductive api_step ::
    "avatar_env \<Rightarrow> (string \<Rightarrow> string) \<Rightarrow> (event_id \<Rightarrow> public_key) \<Rightarrow>
     api_system \<Rightarrow> api_event \<Rightarrow> api_system \<Rightarrow> bool"
  for E json_error author where
  relay: "author (ev_id ev) = ev_pubkey ev \<Longrightarrow>
    api_step E json_error author s (RelayEvent ev) (s\<lparr>daemon := event_loop_step E ev (daemon s)\<rparr>)"
| connect: "conns s c = None \<Longrightarrow>
    api_step E json_error author s (Connect c ident) (set_conn c (Some \<lparr>cn_identity = ident,
      cn_bound = None, cn_phase = Idle, cn_written = []\<rparr>) s)"
| message: "conns s c = Some con \<Longrightarrow> cn_phase con = Idle \<Longrightarrow>
    serve_message E con msg (daemon s) = (con', st') \<Longrightarrow>
    api_step E json_error author s (Message c msg) (set_conn c (Some con') (s\<lparr>daemon := st'\<rparr>))"
| register: "conns s c = Some con \<Longrightarrow> cn_phase con = Sent eid i \<Longrightarrow> tx = next_waiter s \<Longrightarrow>
    api_step E json_error author s (Register c) (set_conn c (Some (con\<lparr>cn_phase := Waiting eid tx i\<rparr>))
      (s\<lparr>daemon := forward_wait eid tx (daemon s), next_waiter := tx + 1\<rparr>))"
| receive: "conns s c = Some con \<Longrightarrow> cn_phase con = Waiting eid tx i \<Longrightarrow>
    (tx, t) \<in> set (delivered (daemon s)) \<Longrightarrow>
    api_step E json_error author s (Receive c t) (finish E json_error c con i (Delivered t) s)"
| sender_dropped: "conns s c = Some con \<Longrightarrow> cn_phase con = Waiting eid tx i \<Longrightarrow>
    tx \<notin> snd ` set (pending (daemon s)) \<Longrightarrow> tx \<notin> fst ` set (delivered (daemon s)) \<Longrightarrow>
    api_step E json_error author s (SenderDropped c) (finish E json_error c con i Dropped s)"
| time_out: "conns s c = Some con \<Longrightarrow> cn_phase con = Waiting eid tx i \<Longrightarrow>
    api_step E json_error author s (TimeOut c) (finish E json_error c con i TimedOut
      (s\<lparr>daemon := forward_timeout eid (daemon s)\<rparr>))"
| disconnect: "conns s c = Some con \<Longrightarrow> cn_phase con = Idle \<Longrightarrow>
    api_step E json_error author s (Disconnect c) (set_conn c None s)"

definition api_init :: api_system where
  "api_init = \<lparr>daemon = avatar_init, conns = (\<lambda>_. None), next_waiter = 0\<rparr>"

section \<open>Effects on the table of waiting requests\<close>

lemma send_service_request_frame:
  "send_service_request E ks a b j st = (r, st') \<Longrightarrow>
     mgr st' = mgr st \<and> pending st' = pending st \<and> delivered st' = delivered st \<and>
     signalled st' = signalled st \<and> listeners st' = listeners st \<and> next_channel st' = next_channel st"
  by (auto simp: send_service_request_def split: option.splits if_splits)

lemma forward_send_frame:
  "forward_send E ident svc req st = (r, st') \<Longrightarrow>
     mgr st' = mgr st \<and> pending st' = pending st \<and> delivered st' = delivered st \<and>
     signalled st' = signalled st \<and> listeners st' = listeners st \<and> next_channel st' = next_channel st"
  by (auto simp: forward_send_def Let_def split: option.splits prod.splits
      dest: send_service_request_frame)

lemma serve_message_frame:
  "serve_message E con msg st = (con', st') \<Longrightarrow>
     mgr st' = mgr st \<and> pending st' = pending st \<and> delivered st' = delivered st \<and>
     signalled st' = signalled st \<and> listeners st' = listeners st \<and> next_channel st' = next_channel st"
  by (auto simp: serve_message_def Let_def split: prod.splits api_action.splits sum.splits
      dest: forward_send_frame)

lemma serve_message_phase:
  "serve_message E con msg st = (con', st') \<Longrightarrow> cn_phase con = Idle \<Longrightarrow>
     cn_identity con' = cn_identity con \<and> (cn_phase con' = Idle \<or> (\<exists>eid i. cn_phase con' = Sent eid i))"
  by (auto simp: serve_message_def answer_with_def Let_def split: prod.splits api_action.splits sum.splits)

lemma event_loop_answers:
  assumes "delivered (event_loop_step E ev st) = delivered st @ [(tx, t)]"
  shows "\<exists>i. reply_target E ev = Some i \<and> decrypt_event E st ev = Some t \<and>
    hm_get (pending st) i = Some tx"
proof -
  have "delivered (event_loop_step E ev st) \<noteq> delivered st" by (simp only: assms) simp
  then obtain i pt where i: "reply_target E ev = Some i" "decrypt_event E st ev = Some pt"
    and d: "delivered (event_loop_step E ev st) = delivered st @
        (case hm_get (pending st) i of None \<Rightarrow> [] | Some tx \<Rightarrow> [(tx, pt)])"
    using event_loop_pending [of E ev st] by blast
  from d have "(case hm_get (pending st) i of None \<Rightarrow> [] | Some tx \<Rightarrow> [(tx, pt)]) = [(tx, t)]"
    unfolding assms by (simp only: same_append_eq)
  then have "hm_get (pending st) i = Some tx \<and> pt = t"
    by (cases "hm_get (pending st) i") simp_all
  with i show ?thesis by blast
qed

lemma event_loop_inv:
  "avatar_inv author st \<Longrightarrow> iter_order (env_order E) \<Longrightarrow> author (ev_id ev) = ev_pubkey ev \<Longrightarrow>
     avatar_inv author (event_loop_step E ev st)"
  by (simp add: event_loop_step_def handle_event_inv)

section \<open>The invariant of the system\<close>

text \<open>
  The table of waiting requests: each entry is a connection that waits for that event with
  that reply channel, reply channels are used once, and a channel that was answered is not in
  the table any more.
\<close>

definition waits :: "api_system \<Rightarrow> nat \<Rightarrow> event_id \<Rightarrow> waiter \<Rightarrow> bool" where
  "waits s c eid tx \<longleftrightarrow> (\<exists>con i. conns s c = Some con \<and> cn_phase con = Waiting eid tx i)"

definition table_ok :: "api_system \<Rightarrow> bool" where
  "table_ok s \<longleftrightarrow>
     (\<forall>eid tx. hm_get (pending (daemon s)) eid = Some tx \<longrightarrow> (\<exists>c. waits s c eid tx)) \<and>
     (\<forall>c eid tx. waits s c eid tx \<longrightarrow> tx < next_waiter s) \<and>
     (\<forall>c d eid eid' tx. waits s c eid tx \<longrightarrow> waits s d eid' tx \<longrightarrow> c = d) \<and>
     distinct (map fst (delivered (daemon s))) \<and>
     (\<forall>(tx, t) \<in> set (delivered (daemon s)). tx < next_waiter s \<and>
        (\<forall>eid. hm_get (pending (daemon s)) eid \<noteq> Some tx))"

definition api_inv :: "(event_id \<Rightarrow> public_key) \<Rightarrow> api_system \<Rightarrow> bool" where
  "api_inv author s \<longleftrightarrow> avatar_inv author (daemon s) \<and> table_ok s"

lemma table_okI:
  assumes "\<And>eid tx. hm_get (pending (daemon s)) eid = Some tx \<Longrightarrow> \<exists>c. waits s c eid tx"
    and "\<And>c eid tx. waits s c eid tx \<Longrightarrow> tx < next_waiter s"
    and "\<And>c d eid eid' tx. waits s c eid tx \<Longrightarrow> waits s d eid' tx \<Longrightarrow> c = d"
    and "distinct (map fst (delivered (daemon s)))"
    and "\<And>tx t. (tx, t) \<in> set (delivered (daemon s)) \<Longrightarrow> tx < next_waiter s"
    and "\<And>tx t eid. (tx, t) \<in> set (delivered (daemon s)) \<Longrightarrow> hm_get (pending (daemon s)) eid \<noteq> Some tx"
  shows "table_ok s"
  unfolding table_ok_def using assms by blast

lemma table_ok_entry: "table_ok s \<Longrightarrow> hm_get (pending (daemon s)) eid = Some tx \<Longrightarrow> \<exists>c. waits s c eid tx"
  unfolding table_ok_def by blast

lemma table_ok_less: "table_ok s \<Longrightarrow> waits s c eid tx \<Longrightarrow> tx < next_waiter s"
  unfolding table_ok_def by blast

lemma table_ok_unique: "table_ok s \<Longrightarrow> waits s c eid tx \<Longrightarrow> waits s d eid' tx \<Longrightarrow> c = d"
  unfolding table_ok_def by blast

lemma table_ok_distinct: "table_ok s \<Longrightarrow> distinct (map fst (delivered (daemon s)))"
  unfolding table_ok_def by blast

lemma table_ok_delivered:
  "table_ok s \<Longrightarrow> (tx, t) \<in> set (delivered (daemon s)) \<Longrightarrow>
     tx < next_waiter s \<and> hm_get (pending (daemon s)) eid \<noteq> Some tx"
  unfolding table_ok_def by blast

lemma waits_unique: "waits s c eid tx \<Longrightarrow> waits s c eid' tx' \<Longrightarrow> eid' = eid \<and> tx' = tx"
  by (auto simp: waits_def)

lemma waits_set_conn:
  "waits (set_conn c con s) d eid tx \<longleftrightarrow>
     (if d = c then (\<exists>con' i. con = Some con' \<and> cn_phase con' = Waiting eid tx i) else waits s d eid tx)"
  by (auto simp: waits_def set_conn_def)

lemma set_conn_fields [simp]:
  "daemon (set_conn c con s) = daemon s" "next_waiter (set_conn c con s) = next_waiter s"
  by (simp_all add: set_conn_def)

lemma waits_daemon [simp]: "waits (s\<lparr>daemon := st\<rparr>) c eid tx = waits s c eid tx"
  "waits (s\<lparr>daemon := st, next_waiter := n\<rparr>) c eid tx = waits s c eid tx"
  by (simp_all add: waits_def)

lemma api_inv_init: "api_inv author api_init"
  by (simp add: api_inv_def api_init_def avatar_inv_init table_ok_def waits_def)
    (simp add: avatar_init_def)

text \<open>A connection that is not waiting may change, and one that stops waiting may leave
  behind no entry.\<close>

lemma table_ok_set_conn:
  assumes "table_ok s" and "\<And>con' eid tx i. con = Some con' \<Longrightarrow> cn_phase con' \<noteq> Waiting eid tx i"
    and "\<And>eid tx. waits s c eid tx \<Longrightarrow> hm_get (pending (daemon s)) eid \<noteq> Some tx"
  shows "table_ok (set_conn c con s)"
proof (rule table_okI)
  have w: "waits (set_conn c con s) d eid tx \<longleftrightarrow> d \<noteq> c \<and> waits s d eid tx" for d eid tx
    using assms(2) by (auto simp: waits_set_conn)
  show "\<exists>d. waits (set_conn c con s) d eid tx"
    if "hm_get (pending (daemon (set_conn c con s))) eid = Some tx" for eid tx
    using that table_ok_entry [OF assms(1)] assms(3) by (simp add: w) metis
  show "tx < next_waiter (set_conn c con s)" if "waits (set_conn c con s) d eid tx" for d eid tx
    using that by (auto simp: w intro: table_ok_less [OF assms(1)])
  show "d = d'" if "waits (set_conn c con s) d eid tx" "waits (set_conn c con s) d' eid' tx"
    for d d' eid eid' tx
    using that table_ok_unique [OF assms(1)] by (auto simp: w)
qed (use table_ok_distinct [OF assms(1)] table_ok_delivered [OF assms(1)] in auto)

lemma table_ok_remove:
  "table_ok s \<Longrightarrow> table_ok (s\<lparr>daemon := (daemon s)\<lparr>pending := hm_remove eid (pending (daemon s))\<rparr>\<rparr>)"
  unfolding table_ok_def by (auto simp: hm_get_remove split: if_splits)

lemma table_ok_deliver:
  assumes "table_ok s" and "hm_get (pending (daemon s)) eid = Some tx"
  shows "table_ok (s\<lparr>daemon := (daemon s)\<lparr>pending := hm_remove eid (pending (daemon s)),
    delivered := delivered (daemon s) @ [(tx, pt)]\<rparr>\<rparr>)"
proof -
  have one: "i = eid" if i: "hm_get (pending (daemon s)) i = Some tx" for i
  proof -
    obtain c d where "waits s c eid tx" "waits s d i tx"
      using table_ok_entry [OF assms(1)] assms(2) i by blast
    with table_ok_unique [OF assms(1)] waits_unique show "i = eid" by metis
  qed
  have new: "tx < next_waiter s" "tx \<notin> fst ` set (delivered (daemon s))"
    using table_ok_entry [OF assms] table_ok_less [OF assms(1)] table_ok_delivered [OF assms(1)] assms(2)
    by auto
  show ?thesis
  proof (rule table_okI)
    show "\<exists>c. waits (s\<lparr>daemon := (daemon s)\<lparr>pending := hm_remove eid (pending (daemon s)),
        delivered := delivered (daemon s) @ [(tx, pt)]\<rparr>\<rparr>) c e x"
      if "hm_get (pending (daemon (s\<lparr>daemon := (daemon s)\<lparr>pending := hm_remove eid (pending (daemon s)),
        delivered := delivered (daemon s) @ [(tx, pt)]\<rparr>\<rparr>))) e = Some x" for e x
      using that table_ok_entry [OF assms(1)] by (simp add: hm_get_remove split: if_splits)
  qed (use new one table_ok_less [OF assms(1)] table_ok_unique [OF assms(1)]
      table_ok_distinct [OF assms(1)] table_ok_delivered [OF assms(1)]
      in \<open>auto simp: hm_get_remove split: if_splits\<close>)
qed

lemma table_ok_cong:
  "table_ok s \<Longrightarrow> pending st = pending (daemon s) \<Longrightarrow> delivered st = delivered (daemon s) \<Longrightarrow>
     table_ok (s\<lparr>daemon := st\<rparr>)"
  by (simp add: table_ok_def)

lemma table_ok_relay: "table_ok s \<Longrightarrow> table_ok (s\<lparr>daemon := event_loop_step E ev (daemon s)\<rparr>)"
proof -
  assume ok: "table_ok s"
  let ?st = "event_loop_step E ev (daemon s)"
  consider "pending ?st = pending (daemon s)" "delivered ?st = delivered (daemon s)"
    | eid pt where "pending ?st = hm_remove eid (pending (daemon s))" "delivered ?st = delivered (daemon s) @
        (case hm_get (pending (daemon s)) eid of None \<Rightarrow> [] | Some tx \<Rightarrow> [(tx, pt)])"
    using event_loop_pending [of E ev "daemon s"] by blast
  then show ?thesis
  proof cases
    case 1
    with ok show ?thesis by (rule table_ok_cong)
  next
    case (2 eid pt)
    show ?thesis
    proof (cases "hm_get (pending (daemon s)) eid")
      case None
      have "table_ok (s\<lparr>daemon := (daemon s)\<lparr>pending := hm_remove eid (pending (daemon s))\<rparr>,
          daemon := ?st\<rparr>)"
        by (rule table_ok_cong [OF table_ok_remove [OF ok]]) (simp_all add: 2 None)
      then show ?thesis by simp
    next
      case (Some tx)
      have "table_ok (s\<lparr>daemon := (daemon s)\<lparr>pending := hm_remove eid (pending (daemon s)),
          delivered := delivered (daemon s) @ [(tx, pt)]\<rparr>, daemon := ?st\<rparr>)"
        by (rule table_ok_cong [OF table_ok_deliver [OF ok Some]]) (simp_all add: 2 Some)
      then show ?thesis by simp
    qed
  qed
qed

lemma table_ok_register:
  assumes "table_ok s" and "conns s c = Some con" and "cn_phase con = Sent eid i"
  shows "table_ok (set_conn c (Some (con\<lparr>cn_phase := Waiting eid (next_waiter s) i\<rparr>))
    (s\<lparr>daemon := forward_wait eid (next_waiter s) (daemon s), next_waiter := next_waiter s + 1\<rparr>))"
proof -
  let ?s' = "set_conn c (Some (con\<lparr>cn_phase := Waiting eid (next_waiter s) i\<rparr>))
    (s\<lparr>daemon := forward_wait eid (next_waiter s) (daemon s), next_waiter := next_waiter s + 1\<rparr>)"
  have w: "waits ?s' d e tx \<longleftrightarrow> (if d = c then e = eid \<and> tx = next_waiter s else waits s d e tx)" for d e tx
    by (auto simp: waits_set_conn)
  have other: "waits s d e tx \<Longrightarrow> d \<noteq> c" for d e tx
    using assms(2,3) by (auto simp: waits_def)
  have less: "waits s d e tx \<Longrightarrow> tx \<noteq> next_waiter s" for d e tx
    using table_ok_less [OF assms(1)] by blast
  show ?thesis
  proof (rule table_okI)
    fix e tx assume e: "hm_get (pending (daemon ?s')) e = Some tx"
    show "\<exists>d. waits ?s' d e tx"
    proof (cases "e = eid")
      case True
      with e have "tx = next_waiter s" by (simp add: forward_wait_def hm_get_insert)
      with True w show ?thesis by metis
    next
      case False
      with e obtain d where "waits s d e tx"
        using table_ok_entry [OF assms(1)] by (auto simp: forward_wait_def hm_get_insert)
      with other w show ?thesis by metis
    qed
  next
    fix d e tx assume "waits ?s' d e tx"
    then show "tx < next_waiter ?s'"
      using table_ok_less [OF assms(1), of d e tx] unfolding w by (simp split: if_splits)
  next
    fix d d' e e' tx assume "waits ?s' d e tx" "waits ?s' d' e' tx"
    then show "d = d'"
      using table_ok_unique [OF assms(1)] less unfolding w by (metis (full_types))
  next
    fix tx t assume "(tx, t) \<in> set (delivered (daemon ?s'))"
    then have "(tx, t) \<in> set (delivered (daemon s))" by (simp add: forward_wait_def)
    from table_ok_delivered [OF assms(1) this] show "tx < next_waiter ?s'" by (simp add: less_Suc_eq)
  next
    fix tx t e assume "(tx, t) \<in> set (delivered (daemon ?s'))"
    then have "(tx, t) \<in> set (delivered (daemon s))" by (simp add: forward_wait_def)
    from table_ok_delivered [OF assms(1) this, of e] show "hm_get (pending (daemon ?s')) e \<noteq> Some tx"
      by (auto simp: forward_wait_def hm_get_insert)
  qed (use table_ok_distinct [OF assms(1)] in \<open>simp add: forward_wait_def\<close>)
qed

text \<open>A connection that waited and is done leaves no entry: its channel is gone from the table.\<close>

lemma finish_ok:
  assumes "api_inv author s" and "conns s c = Some con" and "cn_phase con = Waiting eid tx i"
    and "hm_get (pending (daemon s)) eid \<noteq> Some tx"
  shows "api_inv author (finish E json_error c con i outcome s)"
proof -
  have "hm_get (pending (daemon s)) e \<noteq> Some x" if "waits s c e x" for e x
    using that assms(2-4) by (auto simp: waits_def)
  then have "table_ok (finish E json_error c con i outcome s)"
    unfolding finish_def using assms(1)
    by (intro table_ok_set_conn) (auto simp: answer_with_def api_inv_def)
  with assms(1) show ?thesis by (simp add: api_inv_def finish_def)
qed

lemma set_conn_idle_ok:
  assumes "api_inv author s" and "\<And>e x i. conns s c \<noteq> None \<Longrightarrow> cn_phase (the (conns s c)) \<noteq> Waiting e x i"
    and "\<And>con' e x i. con = Some con' \<Longrightarrow> cn_phase con' \<noteq> Waiting e x i"
  shows "api_inv author (set_conn c con s)"
proof -
  have "\<not> waits s c e x" for e x
  proof
    assume "waits s c e x"
    then obtain con' i where "conns s c = Some con'" "cn_phase con' = Waiting e x i"
      unfolding waits_def by blast
    with assms(2) [of e x i] show False by simp
  qed
  then have "table_ok (set_conn c con s)"
    using assms(1,3) by (intro table_ok_set_conn) (auto simp: api_inv_def)
  with assms(1) show ?thesis by (simp add: api_inv_def)
qed

lemma api_step_inv:
  assumes "api_inv author s" and "iter_order (env_order E)" and "api_step E json_error author s e s'"
  shows "api_inv author s'"
  using assms(3)
proof cases
  case (relay ev)
  then show ?thesis
    using assms(1,2) by (simp add: api_inv_def table_ok_relay event_loop_inv)
next
  case (connect c ident)
  then show ?thesis using assms(1) by (auto intro: set_conn_idle_ok)
next
  case (message c con msg con' st')
  note fr = serve_message_frame [OF message(5)]
  have "api_inv author (s\<lparr>daemon := st'\<rparr>)"
    using assms(1) fr by (auto simp: api_inv_def avatar_inv_def intro: table_ok_cong)
  with message serve_message_phase [OF message(5,4)] show ?thesis
    by (auto intro!: set_conn_idle_ok)
next
  case (register c con eid i tx)
  have "avatar_inv author (forward_wait eid tx (daemon s))"
    using assms(1) by (simp add: api_inv_def avatar_inv_def forward_wait_def hm_wf_insert)
  with table_ok_register [OF _ register(3,4)] register assms(1) show ?thesis
    by (simp add: api_inv_def)
next
  case (receive c con eid tx i t)
  then show ?thesis
    using finish_ok [OF assms(1) receive(3,4)] table_ok_delivered [OF _ receive(5)] assms(1)
    by (simp add: api_inv_def)
next
  case (sender_dropped c con eid tx i)
  have "hm_get (pending (daemon s)) eid \<noteq> Some tx"
    using sender_dropped(5) by (force dest: map_of_SomeD)
  then show ?thesis using finish_ok [OF assms(1) sender_dropped(3,4)] sender_dropped by simp
next
  case (time_out c con eid tx i)
  have "api_inv author (s\<lparr>daemon := forward_timeout eid (daemon s)\<rparr>)"
    using assms(1)
    by (auto simp: api_inv_def avatar_inv_def forward_timeout_def hm_wf_remove intro: table_ok_remove)
  from finish_ok [OF this, of c con eid tx i] time_out show ?thesis
    by (simp add: forward_timeout_def hm_get_remove)
next
  case (disconnect c con)
  then show ?thesis using assms(1) by (auto intro: set_conn_idle_ok)
qed

text \<open>The daemon with its connections is an instance of the inductive-invariant contract.\<close>

interpretation daemon_system: invariant_system "\<lambda>s. s = api_init"
    "\<lambda>s e s'. iter_order (env_order E) \<and> api_step E json_error author s e s'" "api_inv author"
  for E json_error author
  by unfold_locales (auto simp: api_inv_init intro: api_step_inv)

lemma api_reach_inv:
  "iter_order (env_order E) \<Longrightarrow> reach (\<lambda>s. s = api_init) (api_step E json_error author) s \<Longrightarrow>
     api_inv author s"
  by (rule daemon_system.reach_invar [where E = E and json_error = json_error])
    (rule reach_strengthen)

inductive_cases receive_stepE: "api_step E json_error author s (Receive c t) s'"

section \<open>The socket files\<close>

text \<open>
  Listeners start and stop. A disciplined start waits until no accept task for the same
  socket runs any more; the daemon does not wait.
\<close>

datatype socket_event = Start u32 u32 nat | Stop nat

inductive disciplined_step :: "nat \<Rightarrow> socket_dir \<Rightarrow> socket_event \<Rightarrow> socket_dir \<Rightarrow> bool" for m0 where
  start: "sd_running d n = None \<Longrightarrow> (\<forall>k. sd_running d k \<noteq> Some (api_socket_name uid)) \<Longrightarrow>
    disciplined_step m0 d (Start uid gid n) (snd (start_user_listener R m0 uid gid n d))"
| stop: "disciplined_step m0 d (Stop n) (listener_shutdown n d)"

definition reachable_sockets :: "socket_dir \<Rightarrow> bool" where
  "reachable_sockets d \<longleftrightarrow>
     (\<forall>n name. sd_running d n = Some name \<longrightarrow>
        (\<exists>f. sd_files d name = Some f \<and> sf_listener f = n \<and> sf_mode f = MODE_0700)) \<and>
     (\<forall>n k name. sd_running d n = Some name \<longrightarrow> sd_running d k = Some name \<longrightarrow> n = k)"

definition no_sockets :: socket_dir where
  "no_sockets = \<lparr>sd_files = (\<lambda>_. None), sd_running = (\<lambda>_. None)\<rparr>"

lemma disciplined_step_reachable:
  assumes ok: "reachable_sockets d" and step: "disciplined_step m0 d e d'"
  shows "reachable_sockets d'"
  using step
proof cases
  case (start n uid gid R)
  with ok show ?thesis
    by (auto simp: reachable_sockets_def start_user_listener_def Let_def)
next
  case d': (stop n)
  show "reachable_sockets d'"
  proof (cases "sd_running d n")
    case None
    with ok show ?thesis by (simp add: d' listener_shutdown_def)
  next
    case (Some name)
    have "k = n" if "sd_running d k = Some name" for k
      using ok that Some unfolding reachable_sockets_def by blast
    with ok Some show ?thesis
      unfolding d'(2) reachable_sockets_def by (auto simp: listener_shutdown_def)
  qed
qed

interpretation socket_dir: invariant_system "\<lambda>d. d = no_sockets" "disciplined_step m0" reachable_sockets
  for m0
  by unfold_locales
    (simp add: reachable_sockets_def no_sockets_def, rule disciplined_step_reachable)

section \<open>What a connection is bound to\<close>

fun serve_all :: "string option \<Rightarrow> json_rpc_message list \<Rightarrow> string option \<times> api_action list" where
  "serve_all b [] = (b, [])"
| "serve_all b (m # ms) =
     (let (b', a) = handle_message b m; (b'', as) = serve_all b' ms in (b'', a # as))"

text \<open>The service a message binds its connection to.\<close>

definition binds :: "json_rpc_message \<Rightarrow> string option" where
  "binds m = (if msg_method m = Some ''connect'' \<and> str_param (msg_params m) ''type'' \<noteq> []
              then Some (str_param (msg_params m) ''type'') else None)"

lemma handle_message_bound:
  "fst (handle_message b m) = (case binds m of None \<Rightarrow> b | Some s \<Rightarrow> Some s)"
  by (auto simp: handle_message_def binds_def Let_def split: option.split)

lemma serve_all_bound:
  "fst (serve_all b ms) = (case first_some binds (rev ms) of None \<Rightarrow> b | Some s \<Rightarrow> Some s)"
proof (induction ms arbitrary: b)
  case (Cons m ms)
  have app: "first_some f (xs @ ys) = (case first_some f xs of None \<Rightarrow> first_some f ys | Some y \<Rightarrow> Some y)"
    for f :: "json_rpc_message \<Rightarrow> string option" and xs ys
    by (induction xs) (auto split: option.split)
  show ?case
    using Cons.IH [of "fst (handle_message b m)"] handle_message_bound [of b m]
    by (auto simp: app split: prod.split option.split)
qed simp

text \<open>A connection whose request was sent, and the same after it registered its waiter.\<close>

definition sent_system :: api_system where
  "sent_system = set_conn 0 (Some \<lparr>cn_identity = None, cn_bound = Some ''ssh'',
     cn_phase = Sent (EventId (as_bytes ''q'')) (JString ''7''), cn_written = []\<rparr>) api_init"

definition answer_event :: event where
  "answer_event = sample_event 7 1 ''answer'' [[''e'', ''q'', '''', ''reply'']]"

lemma sent_system_inv: "api_inv sample_author sent_system"
  unfolding sent_system_def
  by (rule set_conn_idle_ok [OF api_inv_init]) (auto simp: api_init_def)

definition registered_system :: "api_system \<Rightarrow> api_system" where
  "registered_system s = set_conn 0 (Some \<lparr>cn_identity = None, cn_bound = Some ''ssh'',
      cn_phase = Waiting (EventId (as_bytes ''q'')) (next_waiter s) (JString ''7''), cn_written = []\<rparr>)
      (s\<lparr>daemon := forward_wait (EventId (as_bytes ''q'')) (next_waiter s) (daemon s),
        next_waiter := next_waiter s + 1\<rparr>)"

lemma register_sent:
  assumes "conns s 0 = conns sent_system 0"
  shows "api_step sample_env json_error sample_author s (Register 0) (registered_system s)"
proof -
  have "api_step sample_env json_error sample_author s (Register 0)
      (set_conn 0 (Some (the (conns sent_system 0)
        \<lparr>cn_phase := Waiting (EventId (as_bytes ''q'')) (next_waiter s) (JString ''7'')\<rparr>))
      (s\<lparr>daemon := forward_wait (EventId (as_bytes ''q'')) (next_waiter s) (daemon s),
        next_waiter := next_waiter s + 1\<rparr>))"
    by (rule api_step.register) (simp_all add: assms sent_system_def set_conn_def)
  then show ?thesis by (simp add: registered_system_def sent_system_def set_conn_def)
qed

lemma answer_decoded:
  "event_loop_step sample_env answer_event st = snd (handle_response sample_env answer_event ''answer'' st)"
  by (simp add: event_loop_step_def handle_event_def decrypt_event_def sample_env_with_def sample_text_def answer_event_def
      sample_event_def decode_message_encode_response is_response_def message_of_response_def
      wire_response_def response_success_def wire_opt_def)

section \<open>Properties\<close>

text \<open>
  C13. In every reachable state of the daemon with its connections, over every interleaving of
  relay events, requests, registrations, deliveries and timeouts: a listener of a user socket
  is either signalled to stop or held by a current session of its identity (no socket outlives
  its session), sessions are well formed, and no signalled channel belongs to a session.
\<close>

theorem daemon_invariant:
  assumes "iter_order (env_order E)" and "reach (\<lambda>s. s = api_init) (api_step E json_error author) s"
  shows "mgr_inv (mgr (daemon s)) \<and>
    (\<forall>l \<in> set (listeners (daemon s)). al_channel l \<in> set (signalled (daemon s)) \<or>
       (\<exists>i t. hm_get (sessions (mgr (daemon s))) i = Some t \<and>
          rs_api_socket_shutdown t = Some (al_channel l) \<and> rs_identity t = al_identity l)) \<and>
    (\<forall>i t. hm_get (sessions (mgr (daemon s))) i = Some t \<longrightarrow> rs_keymaster_pubkey t = author i \<and>
       set (opt_list (rs_shutdown t) @ opt_list (rs_api_socket_shutdown t)) \<inter>
         set (signalled (daemon s)) = {})"
  using api_reach_inv [OF assms]
  unfolding api_inv_def avatar_inv_def sessions_ok_def listeners_ok_def live_channels_def by blast

theorem daemon_invariant_witness:
  "mgr_inv (mgr (event_loop_step sample_env (sample_event 7 1 ''attach'' []) avatar_init))"
proof -
  have "reach (\<lambda>s. s = api_init) (api_step sample_env id sample_author) (api_init
      \<lparr>daemon := event_loop_step sample_env (sample_event 7 1 ''attach'' []) (daemon api_init)\<rparr>)"
    by (rule reach_step, rule reach_init, rule refl, rule api_step.relay) simp
  from daemon_invariant [OF sample_env_order this] show ?thesis by (simp add: api_init_def)
qed

text \<open>
  C14. The table of waiting requests, in every reachable state: every entry belongs to exactly
  one connection, which waits for that event (nothing leaks, also after timeouts), a reply
  channel is answered at most once, and an answered channel is no longer in the table.
\<close>

theorem waiting_table_sound:
  assumes "iter_order (env_order E)" and "reach (\<lambda>s. s = api_init) (api_step E json_error author) s"
  shows "(\<forall>eid tx. hm_get (pending (daemon s)) eid = Some tx \<longrightarrow> (\<exists>!c. waits s c eid tx)) \<and>
    distinct (map fst (delivered (daemon s))) \<and>
    (\<forall>eid tx t. (tx, t) \<in> set (delivered (daemon s)) \<longrightarrow> hm_get (pending (daemon s)) eid \<noteq> Some tx)"
  using api_reach_inv [OF assms] unfolding api_inv_def
  by (metis table_ok_delivered table_ok_distinct table_ok_entry table_ok_unique)

definition waiting_system :: api_system where
  "waiting_system = set_conn 0 (Some \<lparr>cn_identity = None, cn_bound = None, cn_phase = Idle,
     cn_written = []\<rparr>) api_init"

theorem waiting_table_sound_witness:
  "distinct (map fst (delivered (daemon waiting_system)))"
proof -
  have "reach (\<lambda>s. s = api_init) (api_step sample_env id sample_author) waiting_system"
    unfolding waiting_system_def
    by (rule reach_step, rule reach_init, rule refl, rule api_step.connect) (simp add: api_init_def)
  from waiting_table_sound [OF sample_env_order this] show ?thesis by simp
qed

text \<open>
  C15. A response reaches the connection that sent the request: in a state with the invariant
  (which every reachable state has), if a
  relay event makes the daemon answer a reply channel, then exactly one connection waits on
  it, the event it waits for is the one the relay event replies to, and the text is the
  decrypted content of the relay event.
\<close>

theorem response_reaches_its_connection:
  assumes "api_inv author s"
    and "delivered (event_loop_step E ev (daemon s)) = delivered (daemon s) @ [(tx, t)]"
  shows "\<exists>eid. reply_target E ev = Some eid \<and> decrypt_event E (daemon s) ev = Some t \<and>
    (\<exists>!c. waits s c eid tx)"
proof -
  have ok: "table_ok s" using assms(1) by (simp add: api_inv_def)
  obtain i where i: "reply_target E ev = Some i" "decrypt_event E (daemon s) ev = Some t"
    "hm_get (pending (daemon s)) i = Some tx"
    using event_loop_answers [OF assms(2)] by blast
  obtain c where c: "waits s c i tx" using table_ok_entry [OF ok i(3)] by blast
  then have "\<exists>!c. waits s c i tx" by (rule ex1I) (rule table_ok_unique [OF ok _ c])
  with i(1,2) show ?thesis by blast
qed

theorem response_reaches_its_connection_witness:
  "\<exists>!c. waits (registered_system sent_system) c (EventId (as_bytes ''q'')) 0"
proof -
  have inv: "api_inv sample_author (registered_system sent_system)"
    by (rule api_step_inv [OF sent_system_inv sample_env_order register_sent [OF refl]])
  have "delivered (event_loop_step sample_env answer_event (daemon (registered_system sent_system))) =
      delivered (daemon (registered_system sent_system)) @ [(0, ''answer'')]"
    by (simp add: answer_decoded)
      (simp add: handle_response_def reply_target_def answer_event_def sample_event_def sample_env_with_def sample_text_def
        registered_system_def forward_wait_def sent_system_def api_init_def avatar_init_def)
  from response_reaches_its_connection [OF inv this] show ?thesis
    by (auto simp: reply_target_def answer_event_def sample_event_def sample_env_with_def sample_text_def)
qed

text \<open>
  C16. Scoping of forwarded requests: a request of a connection that belongs to an identity is
  only ever sent with the keys of a channel of a session of that identity, for the service it
  is bound to, encrypted to that channel's peer and tagged for that session's KeyMaster; it
  adds this one event to what the daemon sends.
\<close>

theorem forwarding_scoped_to_identity:
  assumes "mgr_inv (mgr st)" and "iter_order (env_order E)"
    and "forward_send E (Some ident) svc request st = (Inr eid, st')"
  shows "\<exists>i s c text ev. hm_get (sessions (mgr st)) i = Some s \<and> rs_identity s = ident \<and>
    hm_get (rs_channels s) svc = Some c \<and>
    nip44_encrypt E (length (outbox st)) (sc_service_avatar_keys c) (sc_km_service_pubkey c)
      (json_to_string (env_J E) (encode_request request)) = Some text \<and>
    sign_event E (length (outbox st)) (sc_service_avatar_keys c) PROTOCOL_KIND text
      [public_key_tag E (sc_km_service_pubkey c), realm_tag E (rs_keymaster_pubkey s)] = Some ev \<and>
    eid = ev_id ev \<and> st' = st\<lparr>outbox := outbox st @ [ev]\<rparr>"
proof -
  obtain ks a b where ch: "find_service_channel_for_identity (env_order E) (mgr st) svc ident = Some (ks, a, b)"
    and run: "send_service_request E ks a b (json_to_string (env_J E) (encode_request request)) st =
      (Some eid, st')"
    using assms(3) by (auto simp: forward_send_def Let_def split: option.splits prod.splits)
  obtain i s c where "hm_get (sessions (mgr st)) i = Some s" "rs_identity s = ident"
    "hm_get (rs_channels s) svc = Some c" "ks = sc_service_avatar_keys c" "a = sc_km_service_pubkey c"
    "b = rs_keymaster_pubkey s"
    using scoped_lookup [OF assms(2,1), of ident svc] unfolding ch by auto
  with run show ?thesis
    by (fastforce simp: send_service_request_def split: option.splits if_splits)
qed

lemma sample_env_io:
  "nip44_encrypt sample_env n k p t = Some t"
  "sign_event sample_env n k kind t tags = Some \<lparr>ev_id = EventId [0],
     ev_pubkey = key_pair_public toy_keys k, ev_kind = kind, ev_content = t, ev_tags = tags\<rparr>"
  "relay_accepts sample_env e"
  by (simp_all add: sample_env_with_def sample_text_def)

theorem forwarding_scoped_to_identity_witness:
  "\<exists>ev. forward_send sample_env (Some ''a'') ''ssh'' ping (avatar_init\<lparr>mgr := sample_manager\<rparr>) =
      (Inr (ev_id ev), avatar_init\<lparr>mgr := sample_manager, outbox := [ev]\<rparr>) \<and>
    ev_pubkey ev = key_pair_public toy_keys (Keys [1])"
proof -
  let ?st = "avatar_init\<lparr>mgr := sample_manager\<rparr>"
  have lookup: "find_service_channel_for_identity rev sample_manager ''ssh'' ''a'' =
      Some (Keys [1], PublicKey [5], PublicKey [7])"
    by (simp add: sample_manager_def session_op_defs add_service_channel_def modify_session_def
        find_service_channel_for_identity_def channel_info_def)
  have "\<exists>ev. forward_send sample_env (Some ''a'') ''ssh'' ping ?st =
      (Inr (ev_id ev), ?st\<lparr>outbox := outbox ?st @ [ev]\<rparr>) \<and>
      ev_pubkey ev = key_pair_public toy_keys (Keys [1])"
    by (rule exI [of _ "the (sign_event sample_env 0 (Keys [1]) PROTOCOL_KIND
        (json_to_string (env_J sample_env) (encode_request ping))
        [public_key_tag sample_env (PublicKey [5]), realm_tag sample_env (PublicKey [7])])"])
      (simp add: forward_send_def sample_env_fields lookup send_service_request_def sample_env_io)
  then obtain ev where ev: "forward_send sample_env (Some ''a'') ''ssh'' ping ?st =
      (Inr (ev_id ev), ?st\<lparr>outbox := outbox ?st @ [ev]\<rparr>)"
    "ev_pubkey ev = key_pair_public toy_keys (Keys [1])" by blast
  have inv: "mgr_inv (mgr ?st)" by (simp add: sample_manager_inv)
  have "outbox ?st = []" by (simp add: avatar_init_def)
  with forwarding_scoped_to_identity [OF inv sample_env_order ev(1)] ev show ?thesis
    by auto
qed

text \<open>
  Binding of a connection: over every sequence of messages, the service a connection is
  bound to is the type named by its last valid \<open>connect\<close>, a request is forwarded only to
  that service and unchanged but for the version and id it is given, and every request that
  is not forwarded is answered with the id it had.
\<close>

lemma connection_binding:
  "fst (serve_all None ms) = first_some binds (rev ms) \<and>
   (case snd (handle_message (fst (serve_all None ms)) m) of
      Ignore \<Rightarrow> \<not> is_request m
    | Reply r \<Rightarrow> is_request m \<and> resp_id r = id_or JNull m
    | Forward svc req \<Rightarrow> first_some binds (rev ms) = Some svc \<and> msg_method m = Some (req_method req) \<and>
        req_method req \<noteq> ''connect'' \<and> req_params req = msg_params m \<and>
        req_id req = Some (id_or JNull m))"
proof -
  have bound: "fst (serve_all None ms) = first_some binds (rev ms)"
    by (simp add: serve_all_bound split: option.split)
  show ?thesis
    unfolding bound
    by (auto simp: handle_message_def Let_def is_request_def response_error_def response_success_def
        split: option.split)
qed

text \<open>
  The socket files under the discipline that a socket is opened anew only after the accept
  task of the old one has ended: in every reachable state each running task is reachable
  through the file of its socket, with mode 0700, and no two tasks share a file.
\<close>

lemma disciplined_sockets_reachable:
  assumes "reach (\<lambda>d. d = no_sockets) (disciplined_step m0) d" and "sd_running d n = Some name"
  shows "(\<exists>f. sd_files d name = Some f \<and> sf_listener f = n \<and> sf_mode f = MODE_0700) \<and>
    (\<forall>k. sd_running d k = Some name \<longrightarrow> k = n)"
  using socket_dir.reach_invar [OF assms(1)] assms(2) unfolding reachable_sockets_def by blast

text \<open>
  Without that discipline, which the daemon does not follow when it replaces a session,
  the socket is lost: if the accept task of the old listener ends after the new listener of
  the same user was started, it removes the new socket, and the new listener runs without one.
\<close>

lemma late_cleanup_removes_new_socket:
  assumes "may_bind R" and "may_chmod R" and "may_chown R" and "n \<noteq> k"
    and "d1 = snd (start_user_listener R m0 uid gid n d)"
    and "d2 = snd (start_user_listener R m0 uid gid k d1)"
    and "d3 = listener_shutdown n d2"
  shows "sd_running d3 k = Some (api_socket_name uid) \<and> sd_files d3 (api_socket_name uid) = None"
  using assms by (simp add: start_user_listener_def listener_shutdown_def Let_def)

end
