(* ===== verification/Daemon_Start.thy ===== *)
theory Daemon_Start
  imports Startup Local_Api
begin

text \<open>
  The start of the daemon from its settings to its event loop (crates/avatar/src/main.rs, \<open>main\<close>):
  what \<open>Startup\<close> holds, the connection to the relay, the local API, which is a directory for
  the sockets of the users when there is a user map and one socket for everybody otherwise, the
  event loop, the whole program as \<open>avatar_main\<close>, and the listener that reconnects the relay when
  the system wakes up.
\<close>

section \<open>The relay\<close>

text \<open>
  What the daemon asks of the relay client, in order; the client is a library. The events it
  subscribes to are those of the protocol with its own key in a \<open>p\<close> tag, from now on.
\<close>

record subscription =
  sub_kind :: nat
  sub_tag :: string
  sub_value :: string
  sub_since :: nat

definition subscription_filter :: "avatar_env \<Rightarrow> nat \<Rightarrow> subscription" where
  "subscription_filter E now = \<lparr>sub_kind = PROTOCOL_KIND, sub_tag = ''p'',
     sub_value = pubkey_hex E (key_pair_public (env_K E) (env_keys E)), sub_since = now\<rparr>"

datatype relay_call =
    AddRelay string
  | ClientConnect
  | Subscribe subscription
  | RelayDisconnect
  | SleepMillis nat

text \<open>Adding the relay and subscribing may fail; connecting goes on in the background.\<close>

definition connect_relay :: "avatar_env \<Rightarrow> bool \<Rightarrow> bool \<Rightarrow> string \<Rightarrow> nat \<Rightarrow> relay_call list \<times> bool" where
  "connect_relay E added subscribed relay now =
     (if \<not> added then ([AddRelay relay], False)
      else ([AddRelay relay, ClientConnect, Subscribe (subscription_filter E now)], subscribed))"

section \<open>Start\<close>

datatype start_error = BootFailed boot_error | RelayFailed | DirectoryFailed | ListenFailed

text \<open>\<open>n\<close> is the accept task of the default listener; \<open>name\<close> is the path of the socket as text.\<close>

definition setup_local_api ::
    "socket_rights \<Rightarrow> nat \<Rightarrow> nat \<Rightarrow> user_map option \<Rightarrow> path \<Rightarrow> string \<Rightarrow> file_system \<Rightarrow> socket_dir \<Rightarrow>
      (start_error + unit) \<times> file_system \<times> socket_dir" where
  "setup_local_api R m0 n users socket name fs d =
     (if users \<noteq> None then
        (case fs_create_dir_all fs socket of
           None \<Rightarrow> (Inl DirectoryFailed, fs, d)
         | Some fs' \<Rightarrow> (Inr (), fs', d))
      else
        (case (case path_parent socket of None \<Rightarrow> Some fs | Some parent \<Rightarrow> fs_create_dir_all fs parent) of
           None \<Rightarrow> (Inl DirectoryFailed, fs, d)
         | Some fs' \<Rightarrow>
             (case start_default_listener R m0 name n d of
                (ok, d') \<Rightarrow> (if ok then Inr () else Inl ListenFailed, fs', d'))))"

text \<open>\<open>relay_ok\<close>: what \<open>connect_relay\<close> gives, the relay was added and the subscription accepted.\<close>

definition daemon_start ::
    "boot_env \<Rightarrow> bytes option \<Rightarrow> avatar_settings \<Rightarrow> bool \<Rightarrow> socket_rights \<Rightarrow> nat \<Rightarrow> nat \<Rightarrow> string \<Rightarrow>
      file_system \<Rightarrow> socket_dir \<Rightarrow> ((start_error + boot) \<times> file_system \<times> socket_dir) option" where
  "daemon_start E rng S relay_ok R m0 n name fs d =
     (case avatar_startup E rng S fs of
        None \<Rightarrow> None
      | Some (Inl e, fs') \<Rightarrow> Some (Inl (BootFailed e), fs', d)
      | Some (Inr b, fs') \<Rightarrow>
          if \<not> relay_ok then Some (Inl RelayFailed, fs', d)
          else
            (case setup_local_api R m0 n (boot_user_map b) (set_local_api_socket S) name fs' d of
               (Inl e, r) \<Rightarrow> Some (Inl e, r)
             | (Inr _, r) \<Rightarrow> Some (Inr b, r)))"

text \<open>
  With a user map, no socket is opened at the start, so every socket is one of a user, scoped to
  an identity; without one, the daemon runs with exactly the default socket.
\<close>

lemma setup_sockets:
  assumes "setup_local_api R m0 n users socket name fs d = (Inr (), fs', d')"
  shows "case users of
      Some _ \<Rightarrow> d' = d \<and> socket \<in> dirs fs'
    | None \<Rightarrow> sd_running d' = (sd_running d)(n \<mapsto> name) \<and>
        (\<exists>f. sd_files d' name = Some f \<and> sf_listener f = n)"
  using assms
  by (auto simp: setup_local_api_def start_default_listener_def fs_create_dir_all_def ancestors_def Let_def
      split: option.splits if_splits prod.splits intro!: image_eqI [where x = "length (comps socket)"])

lemma default_socket_only_without_users:
  assumes "daemon_start E rng S relay_ok R m0 n name fs d = Some (Inr b, fs', d')"
  shows "(boot_user_map b \<noteq> None \<longrightarrow> d' = d \<and> set_local_api_socket S \<in> dirs fs') \<and>
    (boot_user_map b = None \<longrightarrow> sd_running d' n = Some name)"
proof -
  obtain fs1 where "setup_local_api R m0 n (boot_user_map b) (set_local_api_socket S) name fs1 d = (Inr (), fs', d')"
    using assms by (auto simp: daemon_start_def split: option.splits prod.splits sum.splits if_splits)
  from setup_sockets [OF this] show ?thesis by (auto split: option.splits)
qed

text \<open>A start that fails leaves no listener behind.\<close>

lemma failed_start_no_listener:
  "daemon_start E rng S relay_ok R m0 n name fs d = Some (Inl e, fs', d') \<Longrightarrow> sd_running d' = sd_running d"
  by (auto simp: daemon_start_def setup_local_api_def start_default_listener_def Let_def
      split: option.splits prod.splits sum.splits if_splits)

section \<open>The event loop\<close>

text \<open>The client reports events and other things, which the loop ignores, until it is shut down.\<close>

datatype notification = EventNotification event | OtherNotification

fun event_loop :: "avatar_env \<Rightarrow> notification list \<Rightarrow> avatar_state \<Rightarrow> avatar_state" where
  "event_loop E [] st = st"
| "event_loop E (EventNotification ev # ns) st = event_loop E ns (event_loop_step E ev st)"
| "event_loop E (OtherNotification # ns) st = event_loop E ns st"

lemma event_loop_keeps_inv:
  assumes "iter_order (env_order E)"
    and "\<forall>ev. EventNotification ev \<in> set ns \<longrightarrow> author (ev_id ev) = ev_pubkey ev"
  shows "avatar_inv author st \<Longrightarrow> avatar_inv author (event_loop E ns st)"
  using assms(2)
proof (induction ns arbitrary: st)
  case (Cons n ns)
  then show ?case by (cases n) (auto intro: event_loop_inv [OF _ assms(1)])
qed simp

text \<open>Every session that the loop leaves was there at its start or comes from an attach among its events.\<close>

lemma event_loop_append: "event_loop E (ns @ ns') st = event_loop E ns' (event_loop E ns st)"
  by (induction E ns st rule: event_loop.induct) simp_all

lemma event_loop_sessions:
  assumes "iter_order (env_order E)" and "hex_decode_vec (env_C E) [] = Some []" and "avatar_inv author st"
  shows "\<forall>ev. EventNotification ev \<in> set ns \<longrightarrow> author (ev_id ev) = ev_pubkey ev \<Longrightarrow>
    hm_get (sessions (mgr (event_loop E ns st))) i = Some s \<Longrightarrow> hm_get (sessions (mgr st)) i = None \<Longrightarrow>
    \<exists>ns1 ev ns2. ns = ns1 @ EventNotification ev # ns2 \<and> i = ev_id ev \<and>
      session_authenticated E (event_loop E ns1 st) ev s"
proof (induction ns rule: rev_induct)
  case (snoc n ns)
  let ?st = "event_loop E ns st"
  have old: ?case if "hm_get (sessions (mgr ?st)) i = Some s"
    using snoc.IH that snoc.prems(1,3) by fastforce
  have inv: "avatar_inv author ?st" using event_loop_keeps_inv [OF assms(1) _ assms(3)] snoc.prems(1) by simp
  show ?case
  proof (cases "\<exists>ev. n = EventNotification ev \<and> ev_kind ev = PROTOCOL_KIND")
    case True
    then obtain ev where ev: "n = EventNotification ev" "ev_kind ev = PROTOCOL_KIND" by blast
    have "hm_get (sessions (mgr (snd (handle_event E ev ?st)))) i = Some s"
      using snoc.prems(2) ev by (simp add: event_loop_append event_loop_step_def)
    from session_created_only_if_authenticated [OF inv assms(1) _ assms(2) this] snoc.prems(1) ev(1) old
    show ?thesis by auto
  next
    case False
    then have "event_loop E (ns @ [n]) st = ?st"
      by (cases n) (auto simp: event_loop_append event_loop_step_def)
    with snoc.prems(2) old show ?thesis by simp
  qed
qed simp

section \<open>The program\<close>

text \<open>
  What \<open>main\<close> meets besides its command line, the files and the sockets: the answers of the
  libraries, of the relay and of the random source, and the notifications until the client is
  shut down. The keys and lists in \<open>dw_avatar\<close> do not matter, the start sets them.
\<close>

record daemon_world =
  dw_boot :: boot_env
  dw_avatar :: avatar_env
  dw_parse_config :: "string \<Rightarrow> avatar_config option"
  dw_rng :: "bytes option"
  dw_relay_added :: bool
  dw_subscribed :: bool
  dw_now :: nat
  dw_rights :: socket_rights
  dw_socket_mode :: nat
  dw_socket_name :: "path \<Rightarrow> string"
  dw_notifications :: "notification list"

definition main_settings :: "daemon_world \<Rightarrow> avatar_cli \<Rightarrow> file_system \<Rightarrow> avatar_settings" where
  "main_settings W cli fs = resolve_settings cli
     (case load_config (dw_parse_config W) (be_home (dw_boot W)) fs ''avatar'' (cli_config cli) of
        None \<Rightarrow> empty_config
      | Some config \<Rightarrow> config)"

definition daemon_env :: "daemon_world \<Rightarrow> boot \<Rightarrow> avatar_env" where
  "daemon_env W b = (dw_avatar W)\<lparr>env_K := be_keys (dw_boot W), env_keys := lk_nostr_keys (boot_login_keys b),
     env_login_xpriv := lk_xpriv (boot_login_keys b), env_login_xpub := lk_xpub (boot_login_keys b),
     env_allowlist := boot_allowlist b, env_user_map := boot_user_map b\<rparr>"

text \<open>The default listener is the accept task 0. \<open>None\<close> is a panic while the user map is loaded.\<close>

definition avatar_main ::
    "daemon_world \<Rightarrow> avatar_cli \<Rightarrow> file_system \<Rightarrow> socket_dir \<Rightarrow>
      ((start_error + avatar_state) \<times> file_system \<times> socket_dir) option" where
  "avatar_main W cli fs d =
     (let S = main_settings W cli fs;
          relay_ok = snd (connect_relay (dw_avatar W) (dw_relay_added W) (dw_subscribed W) (set_relay S) (dw_now W))
      in case daemon_start (dw_boot W) (dw_rng W) S relay_ok (dw_rights W) (dw_socket_mode W) 0
           (dw_socket_name W (set_local_api_socket S)) fs d of
         None \<Rightarrow> None
       | Some (Inl e, r) \<Rightarrow> Some (Inl e, r)
       | Some (Inr b, r) \<Rightarrow> Some (Inr (event_loop (daemon_env W b) (dw_notifications W) avatar_init), r))"

lemma avatar_main_runs:
  assumes "avatar_main W cli fs d = Some (Inr st, fs', d')"
  shows "\<exists>b fs1. avatar_startup (dw_boot W) (dw_rng W) (main_settings W cli fs) fs = Some (Inr b, fs1) \<and>
    dw_relay_added W \<and> dw_subscribed W \<and> st = event_loop (daemon_env W b) (dw_notifications W) avatar_init"
  using assms by (auto simp: avatar_main_def daemon_start_def connect_relay_def Let_def
      split: option.splits prod.splits sum.splits if_splits)

lemma startup_allowlist:
  "avatar_startup E rng S fs = Some (Inr b, fs') \<Longrightarrow>
     boot_allowlist b = load_allowlist fs (expand_tilde (be_home E) (set_allowlist S))"
  by (auto simp: avatar_startup_def Let_def split: option.splits prod.splits sum.splits)

section \<open>Sleep and wake\<close>

text \<open>
  \<open>run_sleep_wake_listener\<close>: the system bus, the proxy of logind and the signal stream may be
  unavailable. A signal has arguments that may not decode, then whether the system is about to
  sleep, and whether the client finds its relay at that time; the list ends when the stream does.
\<close>

record logind =
  li_bus :: bool
  li_proxy :: bool
  li_stream :: bool
  li_signals :: "(bool option \<times> bool) list"

fun handle_signals :: "(bool option \<times> bool) list \<Rightarrow> relay_call list \<times> bool" where
  "handle_signals [] = ([], True)"
| "handle_signals ((None, _) # _) = ([], False)"
| "handle_signals ((Some True, _) # rest) = handle_signals rest"
| "handle_signals ((Some False, found) # rest) =
     (case handle_signals rest of
        (calls, ok) \<Rightarrow> ((if found then [RelayDisconnect, SleepMillis 100] else []) @ ClientConnect # calls, ok))"

definition run_sleep_wake_listener :: "logind \<Rightarrow> relay_call list \<times> bool" where
  "run_sleep_wake_listener D =
     (if \<not> li_bus D \<or> \<not> li_proxy D \<or> \<not> li_stream D then ([], False) else handle_signals (li_signals D))"

text \<open>
  The listener only acts on a wake, and never leaves the relay disconnected: between a
  disconnect and the next connect there is only the sleep of 100 ms, also when the listener then
  ends with an error.
\<close>

fun relay_wanted :: "bool \<Rightarrow> relay_call list \<Rightarrow> bool" where
  "relay_wanted up [] = up"
| "relay_wanted up (RelayDisconnect # calls) = relay_wanted False calls"
| "relay_wanted up (ClientConnect # calls) = relay_wanted True calls"
| "relay_wanted up (_ # calls) = relay_wanted up calls"

lemma listener_reconnects:
  "relay_wanted True (fst (run_sleep_wake_listener D))"
  "(\<forall>x. (Some False, x) \<notin> set (li_signals D)) \<Longrightarrow> fst (run_sleep_wake_listener D) = []"
proof -
  have "relay_wanted True (fst (handle_signals sigs))" for sigs
    by (induction sigs rule: handle_signals.induct) (auto split: prod.split)
  then show "relay_wanted True (fst (run_sleep_wake_listener D))" by (simp add: run_sleep_wake_listener_def)
  have "(\<forall>x. (Some False, x) \<notin> set sigs) \<Longrightarrow> fst (handle_signals sigs) = []" for sigs
    by (induction sigs rule: handle_signals.induct) auto
  then show "(\<forall>x. (Some False, x) \<notin> set (li_signals D)) \<Longrightarrow> fst (run_sleep_wake_listener D) = []"
    by (simp add: run_sleep_wake_listener_def)
qed

section \<open>Properties\<close>

text \<open>
  C1. No session without authentication, from the command line on: every session that a run of
  the daemon ends with goes back to one event of the relay that the run handled, has its id and
  belongs to the key that signed it; the attach request in it passed the connector verification
  against the login key derived from the seed, and the allowlist file read at the start admits
  its identity; the session carries identity, services and extended key of the request; and when
  the request has a connector with a signature, that signature verifies under the identity of
  the session. The hypotheses: event ids determine their signer, the empty string decodes as no
  bytes.
\<close>

theorem run_sessions_authenticated:
  assumes "avatar_main W cli fs d = Some (Inr st, fs', d')"
    and "iter_order (env_order (dw_avatar W))" and "hex_decode_vec (env_C (dw_avatar W)) [] = Some []"
    and "\<forall>ev. EventNotification ev \<in> set (dw_notifications W) \<longrightarrow> author (ev_id ev) = ev_pubkey ev"
    and "hm_get (sessions (mgr st)) i = Some s" and "S = main_settings W cli fs"
  shows "\<exists>b fs1 ns1 ev ns2. avatar_startup (dw_boot W) (dw_rng W) S fs = Some (Inr b, fs1) \<and>
    dw_notifications W = ns1 @ EventNotification ev # ns2 \<and> i = ev_id ev \<and>
    session_authenticated (daemon_env W b) (event_loop (daemon_env W b) ns1 avatar_init) ev s \<and>
    allowed (load_allowlist fs (expand_tilde (be_home (dw_boot W)) (set_allowlist S))) (rs_identity s)"
proof -
  obtain b fs1 where b: "avatar_startup (dw_boot W) (dw_rng W) S fs = Some (Inr b, fs1)"
    and st: "st = event_loop (daemon_env W b) (dw_notifications W) avatar_init"
    using avatar_main_runs [OF assms(1)] assms(6) by blast
  have "hm_get (sessions (mgr avatar_init)) i = None" by (simp add: avatar_init_def session_manager_new_def)
  with event_loop_sessions [OF _ _ avatar_inv_init assms(4), of "daemon_env W b" i s] assms(2,3,5) st
  obtain ns1 ev ns2 where "dw_notifications W = ns1 @ EventNotification ev # ns2" "i = ev_id ev"
    and auth: "session_authenticated (daemon_env W b) (event_loop (daemon_env W b) ns1 avatar_init) ev s"
    by (auto simp: daemon_env_def)
  moreover have "allowed (boot_allowlist b) (rs_identity s)"
    using auth by (auto simp: session_authenticated_def daemon_env_def)
  ultimately show ?thesis using b startup_allowlist [OF b] by auto
qed

definition sample_cli :: avatar_cli where
  "sample_cli = \<lparr>cli_config = None, cli_relay = ''ws://r'', cli_log_level = ''info'', cli_local_api_socket = path_of ''/s'',
     cli_seed_file = ''/var/seed'', cli_allowlist = ''/none'', cli_users_file = path_of ''/none'',
     cli_descriptor_path = path_of ''/etc/d'', cli_bt_addr = None, cli_rfcomm_channel = 3\<rparr>"

definition sample_world :: daemon_world where
  "sample_world = \<lparr>dw_boot = sample_boot_env, dw_avatar = sample_env, dw_parse_config = \<lambda>_. None,
     dw_rng = Some (replicate 32 5), dw_relay_added = True, dw_subscribed = True, dw_now = 0,
     dw_rights = \<lparr>may_bind = True, may_chmod = True, may_chown = True\<rparr>, dw_socket_mode = 0, dw_socket_name = \<lambda>_. ''/s'',
     dw_notifications = [OtherNotification, EventNotification (sample_event 7 1 ''attach'' [])]\<rparr>"

lemma sample_main_settings: "main_settings sample_world sample_cli fs = sample_settings"
proof -
  have none: "first_config (\<lambda>_. None) fs ps = None" for ps :: "path list"
    by (induction ps) (simp_all split: option.split)
  show ?thesis
    by (simp add: main_settings_def sample_world_def load_config_def none resolve_settings_def setting_def empty_config_def
        sample_cli_def sample_settings_def)
qed

lemma sample_run_session:
  "\<exists>s. hm_get (sessions (mgr (event_loop (daemon_env sample_world b) (dw_notifications sample_world) avatar_init))) (EventId [7, 1]) = Some s"
  if "allowed (boot_allowlist b) ''id''"
proof -
  let ?E = "daemon_env sample_world b" and ?ev = "sample_event 7 1 ''attach'' []"
  have E: "env_J ?E = sample_text" "env_C ?E = sample_crypto" "env_order ?E = rev" "env_allowlist ?E = boot_allowlist b"
    by (simp_all add: daemon_env_def sample_world_def sample_env_with_def)
  have adm: "attach_admitted ?E (sample_params 5)"
    using that by (simp add: attach_admitted_def verify_connector_Accept_iff E get_str_def jget_json_object
        signed_by_identity_def hex_of_length_def sample_crypto_def)
  have "handle_event ?E ?ev avatar_init = handle_attach ?E ?ev (PublicKey [7]) (sample_message 5) avatar_init"
    by (simp add: handle_event_def decrypt_event_def daemon_env_def sample_world_def sample_env_with_def sample_text_def
        sample_event_def decode_message_encode_request sample_message_def [symmetric])
  also have "\<dots> = establish ?E ?ev (PublicKey [7]) (sample_message 5) (parse_services (sample_params 5)) ''id''
      (Some (Xpub (as_bytes ''xp''))) avatar_init"
    using sample_init_no_match [of rev] by (simp add: handle_attach_admitted [OF adm sample_message_fields(1) [symmetric]] E)
  finally have "event_loop ?E (dw_notifications sample_world) avatar_init = snd (establish ?E ?ev (PublicKey [7])
      (sample_message 5) (parse_services (sample_params 5)) ''id'' (Some (Xpub (as_bytes ''xp''))) avatar_init)"
    by (simp add: sample_world_def event_loop_step_def) (simp add: sample_event_def)
  moreover have "ev_id ?ev = EventId [7, 1]" by (simp add: sample_event_def)
  moreover have "iter_order (env_order ?E)" by (simp add: E)
  ultimately show ?thesis
    using establish_get_new [OF sample_inv _ sample_attacher] by metis
qed

text \<open>Directories are only ever added.\<close>

lemma write_descriptor_dirs: "dirs fs \<subseteq> dirs (write_descriptor p content fs)"
  by (auto simp: write_descriptor_def fs_create_dir_all_def fs_write_def Let_def split: option.splits if_splits)

lemma resolve_seed_dirs: "dirs (snd (resolve_seed rng fs p)) = dirs fs"
  by (auto simp: resolve_seed_def fs_write_def fs_remove_def fs_chmod_def Let_def split: option.splits if_splits)

definition sample_root_fs :: file_system where
  "sample_root_fs = sample_fs\<lparr>dirs := {path_of ''/'', path_of ''/var''}\<rparr>"

lemma sample_root_startup:
  "\<exists>b fs'. avatar_startup sample_boot_env (Some (replicate 32 5)) sample_settings sample_root_fs = Some (Inr b, fs') \<and>
     boot_user_map b = None \<and> path_of ''/'' \<in> dirs fs'"
proof -
  obtain e where users: "user_map_load (be_info sample_boot_env) (be_from_name sample_boot_env)
      (be_parse_users sample_boot_env) sample_root_fs (set_users_file sample_settings) = Some (Inl e)"
    using sample_users by blast
  have path: "expand_tilde (be_home sample_boot_env) (set_seed_file sample_settings) = path_of ''/var/seed''"
    by (simp add: sample_boot_env_def sample_settings_def expand_tilde_def starts_with_def)
  have "fst (resolve_seed (Some (replicate 32 5)) sample_root_fs (path_of ''/var/seed'')) = Inr (replicate 32 5)"
    by (simp add: seed_run_defs sample_root_fs_def)
  then obtain fs1 where seed: "resolve_seed (Some (replicate 32 5)) sample_root_fs (path_of ''/var/seed'') =
      (Inr (replicate 32 5), fs1)" by (metis prod.collapse)
  then have "path_of ''/'' \<in> dirs fs1" using resolve_seed_dirs [of "Some (replicate 32 5)" sample_root_fs "path_of ''/var/seed''"]
    by (simp add: sample_root_fs_def)
  moreover obtain lk where keys: "derive_login_keys (be_keys sample_boot_env) (replicate 32 5) 0 = Inr lk"
    by (simp add: derive_login_keys_def sample_boot_env_def toy_keys_def normal_index_def)
  ultimately show ?thesis using write_descriptor_dirs by (auto simp: avatar_startup_def Let_def users path seed keys)
qed

lemma sample_main:
  "\<exists>b fs' d'. avatar_main sample_world sample_cli sample_root_fs d =
     Some (Inr (event_loop (daemon_env sample_world b) (dw_notifications sample_world) avatar_init), fs', d') \<and>
     allowed (boot_allowlist b) ''id''"
proof -
  obtain b fs' where b: "avatar_startup sample_boot_env (Some (replicate 32 5)) sample_settings sample_root_fs = Some (Inr b, fs')"
    "boot_user_map b = None" "path_of ''/'' \<in> dirs fs'" using sample_root_startup by blast
  have "boot_allowlist b = {}" using startup_allowlist [OF b(1)]
    by (simp add: load_allowlist_def fs_read_def sample_root_fs_def sample_fs_def)
  moreover have "path_parent (path_of ''/s'') = Some (path_of ''/'')"
    by (simp add: path_parent_def path_of_def starts_with_def)
  then have "\<exists>d'. setup_local_api \<lparr>may_bind = True, may_chmod = True, may_chown = True\<rparr> 0 0 (boot_user_map b)
      (path_of ''/s'') ''/s'' fs' d = (Inr (), fs', d')"
    using b(2,3) by (simp add: setup_local_api_def fs_create_dir_all_def start_default_listener_def Let_def)
  ultimately show ?thesis
    using b(1) sample_main_settings [of sample_root_fs]
    by (auto simp: avatar_main_def Let_def daemon_start_def connect_relay_def sample_world_def sample_settings_def allowed_def)
qed

theorem run_sessions_authenticated_witness:
  "\<exists>d st fs' d' s b ns1 ev. avatar_main sample_world sample_cli sample_root_fs d = Some (Inr st, fs', d') \<and>
     hm_get (sessions (mgr st)) (EventId [7, 1]) = Some s \<and> ev_id ev = EventId [7, 1] \<and>
     session_authenticated (daemon_env sample_world b) (event_loop (daemon_env sample_world b) ns1 avatar_init) ev s"
proof -
  obtain d b fs' d' where run: "avatar_main sample_world sample_cli sample_root_fs d =
      Some (Inr (event_loop (daemon_env sample_world b) (dw_notifications sample_world) avatar_init), fs', d')"
    "allowed (boot_allowlist b) ''id''" using sample_main by blast
  obtain s where s: "hm_get (sessions (mgr (event_loop (daemon_env sample_world b) (dw_notifications sample_world) avatar_init)))
      (EventId [7, 1]) = Some s" using sample_run_session [OF run(2)] by blast
  have env: "iter_order (env_order (dw_avatar sample_world))" "hex_decode_vec (env_C (dw_avatar sample_world)) [] = Some []"
    "\<forall>ev. EventNotification ev \<in> set (dw_notifications sample_world) \<longrightarrow> sample_author (ev_id ev) = ev_pubkey ev"
    by (simp_all add: sample_world_def sample_env_fields sample_crypto_def)
  from run_sessions_authenticated [OF run(1) env s refl] run(1) s show ?thesis by metis
qed

end
