(* ===== verification/Framing.thy ===== *)
theory Framing
  imports Protocol
begin

text \<open>
  Length-prefixed frames: a 4-byte big-endian length and the payload. Three sockets of the
  system use them, with different limits (crates/km-ssh-sa/src/ssh_agent.rs,
  crates/km-nostr-sa/src/main.rs, crates/pkcs11-gpg/src/local_client.rs).
\<close>

text \<open>
  What travels in the frames is JSON, parsed from bytes (\<open>serde_json::from_slice\<close>), with byte
  strings in base64 (the crate \<open>base64\<close>, a parameter with its documented law).
\<close>

definition json_from_slice :: "json_text \<Rightarrow> bytes \<Rightarrow> json option" where
  "json_from_slice J bs = Option.bind (from_utf8 bs) (from_str_value J)"

record base64_lib =
  b64_encode :: "bytes \<Rightarrow> string"
  b64_decode :: "string \<Rightarrow> bytes option"

definition base64_laws :: "base64_lib \<Rightarrow> bool" where
  "base64_laws B \<longleftrightarrow> (\<forall>bs. b64_decode B (b64_encode B bs) = Some bs)"

text \<open>An encoding that is no base64 but obeys the law: two hexadecimal digits a byte.\<close>

fun hex_pairs :: "string \<Rightarrow> bytes option" where
  "hex_pairs [] = Some []"
| "hex_pairs (a # b # cs) =
     (case (hex_digit_val a, hex_digit_val b) of
        (Some x, Some y) \<Rightarrow> map_option ((#) (of_nat (x * 16 + y))) (hex_pairs cs)
      | _ \<Rightarrow> None)"
| "hex_pairs [_] = None"

definition toy_base64 :: base64_lib where
  "toy_base64 = \<lparr>b64_encode = \<lambda>bs. concat (map hex_byte_upper bs), b64_decode = hex_pairs\<rparr>"

lemma hex_pairs_upper: "hex_pairs (concat (map hex_byte_upper bs)) = Some bs"
proof (induction bs)
  case (Cons b bs)
  have "unat b div 16 < 16" using unat_byte_less [of b] by linarith
  then show ?case using Cons
    by (simp add: hex_byte_upper_def hex_digit_val_upper)
qed simp

lemma toy_base64_laws: "base64_laws toy_base64"
  by (simp add: base64_laws_def toy_base64_def hex_pairs_upper)

text \<open>\<open>PathBuf::join\<close> of a directory and a relative file name.\<close>

definition join_file :: "string \<Rightarrow> string \<Rightarrow> string" where
  "join_file dir name =
     (if dir = [] then name else if last dir = CHR ''/'' then dir @ name else dir @ ''/'' @ name)"

section \<open>Frames\<close>

definition write_frame :: "bytes \<Rightarrow> bytes" where
  "write_frame payload = u32_to_be_bytes (of_nat (length payload)) @ payload"

datatype frame_error = StreamEnded | InvalidLength nat | PayloadEnded

fun u32_of_list :: "bytes \<Rightarrow> u32" where
  "u32_of_list (a # b # c # d # _) = u32_from_be_bytes a b c d"
| "u32_of_list _ = 0"

definition read_frame :: "nat \<Rightarrow> bytes \<Rightarrow> frame_error + (bytes \<times> bytes)" where
  "read_frame limit s =
     (case read_exact 4 s of
        None \<Rightarrow> Inl StreamEnded
      | Some (len_buf, s1) \<Rightarrow>
          let len = unat (u32_of_list len_buf) in
          if len = 0 \<or> len > limit then Inl (InvalidLength len)
          else (case read_exact len s1 of
                  None \<Rightarrow> Inl PayloadEnded
                | Some (payload, s2) \<Rightarrow> Inr (payload, s2)))"

lemma u32_of_list_be [codec_simps]: "u32_of_list (u32_to_be_bytes w) = w"
  "u32_of_list (u32_to_be_bytes w @ s) = w"
  by (simp_all add: u32_to_be_bytes_def)

lemma read_write_frame:
  assumes "0 < length p" and "length p \<le> limit" and "limit < 2 ^ 32"
  shows "read_frame limit (write_frame p @ rest) = Inr (p, rest)"
proof -
  have "unat (of_nat (length p) :: u32) = length p"
    using assms by (intro unat_of_nat_u32) simp
  with assms show ?thesis
    by (simp add: read_frame_def write_frame_def codec_simps)
qed

lemma read_frame_SomeD:
  "read_frame limit s = Inr (p, rest) \<Longrightarrow>
     0 < length p \<and> length p \<le> limit \<and> (\<exists>h. length h = 4 \<and> s = h @ p @ rest)"
  by (auto simp: read_frame_def Let_def split: option.splits if_splits dest!: read_exact_SomeD)

interpretation length_frame: frame_codec write_frame "\<lambda>s. ok_of (read_frame limit s)"
    "\<lambda>p. 0 < length p \<and> length p \<le> limit \<and> limit < 2 ^ 32" for limit
  by unfold_locales (simp add: read_write_frame)

end
