(* ===== verification/Service_Link.thy ===== *)
theory Service_Link
  imports Framing
begin

text \<open>
  What the service avatars share (km-ssh-sa, km-gpg-sa and km-nostr-sa have the same code for
  it): the connection to the avatar with retries, the \<open>connect\<close> handshake, and one exchange of
  a request and its response on that connection.
\<close>

section \<open>Connecting\<close>

text \<open>
  \<open>connect_with_retry\<close> on the outcomes of its attempts: the delays it sleeps, in seconds, and
  the attempts it did not need; \<open>None\<close> while every attempt so far has failed.
\<close>

fun connect_with_retry_from :: "nat \<Rightarrow> bool list \<Rightarrow> (nat list \<times> bool list) option" where
  "connect_with_retry_from delay [] = None"
| "connect_with_retry_from delay (connected # attempts) =
     (if connected then Some ([], attempts)
      else map_option (\<lambda>(sleeps, rest). (delay # sleeps, rest))
             (connect_with_retry_from (min (delay * 2) 30) attempts))"

definition connect_with_retry :: "bool list \<Rightarrow> (nat list \<times> bool list) option" where
  "connect_with_retry attempts = connect_with_retry_from 1 attempts"

lemma retry_delays_from:
  "connect_with_retry_from (min (2 ^ k) 30) attempts = Some (sleeps, rest) \<Longrightarrow>
     sleeps = map (\<lambda>i. min (2 ^ (k + i)) 30) [0..<length sleeps]"
proof (induction attempts arbitrary: k sleeps)
  case (Cons a attempts)
  show ?case
  proof (cases a)
    case False
    with Cons.prems obtain sl where sl: "sleeps = min (2 ^ k) 30 # sl"
      "connect_with_retry_from (min (min (2 ^ k) 30 * 2) 30) attempts = Some (sl, rest)" by auto
    have "min (min (2 ^ k) 30 * 2) 30 = min (2 ^ Suc k) (30 :: nat)" by (simp add: min_def)
    with sl(2) Cons.IH [of "Suc k" sl] have IH: "sl = map (\<lambda>i. min (2 ^ (Suc k + i)) 30) [0..<length sl]" by simp
    have "map (\<lambda>i. min (2 ^ (k + i)) 30) [0..<Suc (length sl)] =
        min (2 ^ k) 30 # map (\<lambda>i. min (2 ^ (Suc k + i)) (30 :: nat)) [0..<length sl]"
      by (simp add: upt_conv_Cons comp_def del: upt_Suc flip: map_Suc_upt)
    with IH show ?thesis unfolding sl(1) by simp
  qed (use Cons.prems in simp)
qed simp

lemma retry_attempts:
  "connect_with_retry_from delay attempts = Some (sleeps, rest) \<Longrightarrow>
     attempts = replicate (length sleeps) False @ True # rest"
  by (induction attempts arbitrary: delay sleeps) (auto split: if_splits)

lemma retry_returns_iff:
  "connect_with_retry_from delay attempts = None \<longleftrightarrow> True \<notin> set attempts"
  by (induction attempts arbitrary: delay) auto

section \<open>One exchange with the avatar\<close>

text \<open>
  The avatar as the peer of a connection: a state, and what it does with the bytes of a request,
  \<open>None\<close> when they cannot be written, otherwise the bytes it writes until it has written a line
  or closes. A connection also has the bytes that are already buffered. When a line does not
  parse, it has been consumed all the same.
\<close>

type_synonym 's peer = "'s \<Rightarrow> bytes \<Rightarrow> (bytes \<times> 's) option"

datatype exchange_error = NotSent | NotReceived read_error

definition send_and_receive ::
    "json_text \<Rightarrow> 's peer \<Rightarrow> 's \<times> bytes \<Rightarrow> json_rpc_request \<Rightarrow>
      (exchange_error + json_rpc_response) \<times> 's \<times> bytes" where
  "send_and_receive J peer conn req =
     (let (st, buf) = conn in
      case peer st (write_line_message J encode_request req) of
        None \<Rightarrow> (Inl NotSent, conn)
      | Some (out, st') \<Rightarrow>
          (case read_line_message J decode_response (buf @ out) of
             Inr (resp, rest) \<Rightarrow> (Inr resp, st', rest)
           | Inl e \<Rightarrow> (Inl (NotReceived e), st', snd (split_line (buf @ out)))))"

text \<open>
  The \<open>connect\<close> request that opens every connection, and the sleep of the reconnection loop
  after a handshake that failed, in seconds.
\<close>

datatype handshake = HandshakeFailed nat | Established

definition handshake_of :: "exchange_error + json_rpc_response \<Rightarrow> handshake" where
  "handshake_of r =
     (case r of
        Inl NotSent \<Rightarrow> HandshakeFailed 1
      | Inl (NotReceived _) \<Rightarrow> HandshakeFailed 1
      | Inr resp \<Rightarrow> if resp_error resp \<noteq> None then HandshakeFailed 5 else Established)"

section \<open>Synchrony\<close>

text \<open>
  A peer that writes at most one line for each request, as the avatar does, and what a request
  gets from it when nothing is left over from before.
\<close>

definition one_line_peer :: "'s peer \<Rightarrow> bool" where
  "one_line_peer peer \<longleftrightarrow>
     (\<forall>st req out st'. peer st req = Some (out, st') \<longrightarrow> snd (split_line out) = [])"

definition own_response ::
    "json_text \<Rightarrow> 's peer \<Rightarrow> 's \<Rightarrow> json_rpc_request \<Rightarrow> exchange_error + json_rpc_response" where
  "own_response J peer st req =
     (case peer st (write_line_message J encode_request req) of
        None \<Rightarrow> Inl NotSent
      | Some (out, _) \<Rightarrow>
          (case read_line_message J decode_response out of
             Inr (resp, _) \<Rightarrow> Inr resp
           | Inl e \<Rightarrow> Inl (NotReceived e)))"

definition peer_after :: "json_text \<Rightarrow> 's peer \<Rightarrow> 's \<Rightarrow> json_rpc_request \<Rightarrow> 's" where
  "peer_after J peer st req =
     (case peer st (write_line_message J encode_request req) of None \<Rightarrow> st | Some (_, st') \<Rightarrow> st')"

lemma read_line_message_rest:
  "read_line_message J decode s = Inr (m, rest) \<Longrightarrow> rest = snd (split_line s)"
  by (auto simp: read_line_message_def Let_def split: prod.splits option.splits if_splits)

lemma send_and_receive_sync:
  assumes "one_line_peer peer"
  shows "send_and_receive J peer (st, []) req = (own_response J peer st req, peer_after J peer st req, [])"
proof (cases "peer st (write_line_message J encode_request req)")
  case (Some r)
  obtain out st' where r: "r = (out, st')" by fastforce
  have "snd (split_line out) = []" using assms Some r unfolding one_line_peer_def by blast
  with Some r read_line_message_rest [of J decode_response out] show ?thesis
    by (auto simp: send_and_receive_def own_response_def peer_after_def split: sum.split)
qed (simp add: send_and_receive_def own_response_def peer_after_def)

text \<open>Nothing compares the id of a response: a second line is the answer to the next request.\<close>

lemma extra_line_answers_next_request:
  assumes "peer st (write_line_message J encode_request req1) = Some (l1 @ l2, st')"
    and "read_line_message J decode_response (l1 @ l2) = Inr (resp1, l2)"
    and "read_line_message J decode_response l2 = Inr (resp2, [])" and "0x0A \<in> set l2"
    and "peer st' (write_line_message J encode_request req2) = Some (l3, st'')"
  shows "\<exists>conn. send_and_receive J peer (snd (send_and_receive J peer (st, []) req1)) req2 = (Inr resp2, conn)"
proof -
  have "split_line (l2 @ l3) = (fst (split_line l2), snd (split_line l2) @ l3)"
    using assms(4) by (induction l2) (auto split: prod.split)
  with assms(3) have "read_line_message J decode_response (l2 @ l3) = Inr (resp2, l3)"
    using read_line_message_rest [OF assms(3)]
    by (auto simp: read_line_message_def Let_def split: prod.splits option.splits if_splits)
  with assms(1,2,5) show ?thesis by (simp add: send_and_receive_def)
qed

text \<open>A text on which one response prints as a line.\<close>

lemma toy_response_line:
  assumes "wire_response r = r"
  shows "read_line_message (toy_text (encode_response r)) decode_response (as_bytes ''x'' @ [0x0A]) = Inr (r, [])"
proof -
  have "sendable_line (toy_text (encode_response r)) encode_response r"
    by (simp add: sendable_line_def prints_line_def toy_text_def MAX_LINE_SIZE_def as_bytes_def
        utf8_valid_ascii ascii_ws_def)
  from read_write_line [where rest = "[]", OF this, of decode_response, OF decode_encode_response] assms show ?thesis
    by (simp add: write_line_message_def toy_text_def)
qed

section \<open>Effects\<close>

text \<open>
  What a start-up sequence does to files, sockets and other programs. A step is done or fails;
  a failure ends the sequence (the \<open>?\<close> operator) unless the step is \<open>Ignoring\<close> it.
\<close>

datatype effect =
    CreateDirAll string
  | SetMode string nat
  | WriteText string string
  | RemoveFile string
  | BindSocket string
  | RunCommand string "string list"

datatype step = Must effect | Ignoring effect

fun run_steps :: "(effect \<Rightarrow> bool) \<Rightarrow> step list \<Rightarrow> effect list \<times> bool" where
  "run_steps fails [] = ([], True)"
| "run_steps fails (Must e # ss) =
     (if fails e then ([], False) else (case run_steps fails ss of (ds, ok) \<Rightarrow> (e # ds, ok)))"
| "run_steps fails (Ignoring e # ss) =
     (case run_steps fails ss of (ds, ok) \<Rightarrow> (if fails e then ds else e # ds, ok))"

fun step_effect :: "step \<Rightarrow> effect" where
  "step_effect (Must e) = e"
| "step_effect (Ignoring e) = e"

lemma run_steps_append:
  "run_steps fails (ss @ ts) =
     (case run_steps fails ss of
        (ds, True) \<Rightarrow> (case run_steps fails ts of (es, ok) \<Rightarrow> (ds @ es, ok))
      | (ds, False) \<Rightarrow> (ds, False))"
  by (induction fails ss rule: run_steps.induct) (auto split: prod.split bool.split)

lemma run_steps_done:
  "run_steps fails ss = (ds, ok) \<Longrightarrow> e \<in> set ds \<Longrightarrow> e \<in> step_effect ` set ss \<and> \<not> fails e"
  by (induction fails ss arbitrary: ds ok rule: run_steps.induct)
    (auto split: prod.splits if_splits)

text \<open>A later step is only reached when every earlier step that must succeed was done.\<close>

lemma run_steps_order:
  assumes "run_steps fails (ss @ ts) = (ds, ok)" and "e \<in> set ds" and "e \<notin> step_effect ` set ss"
  shows "\<exists>pre post. ds = pre @ post \<and> run_steps fails ss = (pre, True) \<and> e \<in> set post"
proof -
  obtain pre b where pre: "run_steps fails ss = (pre, b)" by fastforce
  then have "e \<notin> set pre" using run_steps_done assms(3) by blast
  with assms(1,2) pre show ?thesis by (cases b) (auto simp: run_steps_append split: prod.splits)
qed

lemma run_steps_musts:
  "run_steps fails ss = (ds, True) \<Longrightarrow> Must e \<in> set ss \<Longrightarrow> e \<in> set ds"
  by (induction fails ss arbitrary: ds rule: run_steps.induct) (auto split: prod.splits if_splits)

lemma run_steps_all: "(\<And>e. \<not> fails e) \<Longrightarrow> run_steps fails ss = (map step_effect ss, True)"
  by (induction fails ss rule: run_steps.induct) simp_all

end
