(* ===== verification/Ssh_Agent.thy ===== *)
theory Ssh_Agent
  imports Framing
begin

text \<open>
  The SSH service avatar: the agent socket (crates/km-ssh-sa/src/ssh_agent.rs) with its wire
  format, and the bridge that answers its requests over the local API of the avatar
  (crates/km-ssh-sa/src/main.rs). Base64 belongs to the crate \<open>base64\<close> and is a parameter.
\<close>

section \<open>The wire format\<close>

definition SSH_AGENTC_REQUEST_IDENTITIES :: byte where "SSH_AGENTC_REQUEST_IDENTITIES = 11"
definition SSH_AGENT_IDENTITIES_ANSWER :: byte where "SSH_AGENT_IDENTITIES_ANSWER = 12"
definition SSH_AGENTC_SIGN_REQUEST :: byte where "SSH_AGENTC_SIGN_REQUEST = 13"
definition SSH_AGENT_SIGN_RESPONSE :: byte where "SSH_AGENT_SIGN_RESPONSE = 14"
definition SSH_AGENT_FAILURE :: byte where "SSH_AGENT_FAILURE = 5"

definition AGENT_LIMIT :: nat where "AGENT_LIMIT = 256 * 1024"

text \<open>\<open>offset + 4 > len\<close> and the sums below stay under \<open>2 ^ 64\<close>: a body has at most 256 KiB.\<close>

definition be_at :: "bytes \<Rightarrow> nat \<Rightarrow> u32" where
  "be_at buf offset =
     u32_from_be_bytes (buf ! offset) (buf ! (offset + 1)) (buf ! (offset + 2)) (buf ! (offset + 3))"

definition read_string :: "bytes \<Rightarrow> nat \<Rightarrow> bytes option \<times> nat" where
  "read_string buf offset =
     (if offset + 4 > length buf then (None, offset)
      else let len = unat (be_at buf offset); offset = offset + 4 in
           if offset + len > length buf then (None, offset)
           else (Some (take len (drop offset buf)), offset + len))"

definition wire_string :: "bytes \<Rightarrow> bytes" where
  "wire_string s = u32_to_be_bytes (of_nat (length s)) @ s"

definition build_identities_answer :: "(bytes \<times> string) list \<Rightarrow> bytes" where
  "build_identities_answer identities =
     [SSH_AGENT_IDENTITIES_ANSWER] @ u32_to_be_bytes (of_nat (length identities)) @
     concat (map (\<lambda>(key_blob, comment). wire_string key_blob @ wire_string (as_bytes comment)) identities)"

definition build_sign_response :: "bytes \<Rightarrow> string \<Rightarrow> bytes" where
  "build_sign_response raw_signature key_type =
     (let sig_blob = wire_string (as_bytes key_type) @ wire_string raw_signature
      in [SSH_AGENT_SIGN_RESPONSE] @ wire_string sig_blob)"

section \<open>The agent\<close>

datatype agent_request =
    RequestIdentities
  | SignRequest bytes bytes u32

text \<open>The body of a sign request; the flags are optional.\<close>

definition parse_sign_request :: "bytes \<Rightarrow> agent_request option" where
  "parse_sign_request body =
     (case read_string body 0 of
        (None, _) \<Rightarrow> None
      | (Some key_blob, offset) \<Rightarrow>
          (case read_string body offset of
             (None, _) \<Rightarrow> None
           | (Some data, offset) \<Rightarrow>
               Some (SignRequest key_blob data
                 (if offset + 4 \<le> length body then be_at body offset else 0))))"

text \<open>
  What the main loop does with a request: the channel to it is closed, or it replies in time,
  or the reply is dropped or late.
\<close>

datatype agent_reply =
    Identities "(bytes \<times> string) list"
  | Signed "bytes option" string

datatype agent_outcome = ChannelClosed | Replied agent_reply | ReplyDropped | ReplyTimeout

definition identities_response :: "agent_outcome \<Rightarrow> bytes" where
  "identities_response outcome =
     (case outcome of
        Replied (Identities ids) \<Rightarrow> build_identities_answer ids
      | _ \<Rightarrow> [SSH_AGENT_FAILURE])"

definition sign_response :: "agent_outcome \<Rightarrow> bytes" where
  "sign_response outcome =
     (case outcome of
        Replied (Signed (Some sig) key_type) \<Rightarrow> build_sign_response sig key_type
      | _ \<Rightarrow> [SSH_AGENT_FAILURE])"

text \<open>
  The reply to one payload, given what the main loop answers to the request it makes. The
  payload is not empty: \<open>read_frame\<close> refuses the empty frame.
\<close>

definition agent_message :: "(agent_request \<Rightarrow> agent_outcome) \<Rightarrow> bytes \<Rightarrow> bytes" where
  "agent_message serve payload =
     (let msg_type = payload ! 0; msg_body = drop 1 payload in
      if msg_type = SSH_AGENTC_REQUEST_IDENTITIES then identities_response (serve RequestIdentities)
      else if msg_type = SSH_AGENTC_SIGN_REQUEST then
        (case parse_sign_request msg_body of
           None \<Rightarrow> [SSH_AGENT_FAILURE]
         | Some req \<Rightarrow> sign_response (serve req))
      else [SSH_AGENT_FAILURE])"

text \<open>One turn of \<open>handle_connection\<close>: the bytes written back and the rest of the input.\<close>

definition agent_turn ::
    "(agent_request \<Rightarrow> agent_outcome) \<Rightarrow> bytes \<Rightarrow> (bytes \<times> bytes) option" where
  "agent_turn serve s =
     (case read_frame AGENT_LIMIT s of
        Inl _ \<Rightarrow> None
      | Inr (payload, rest) \<Rightarrow> Some (write_frame (agent_message serve payload), rest))"

text \<open>A connection runs until its input ends or is malformed; each turn consumes input.\<close>

function agent_connection :: "(agent_request \<Rightarrow> agent_outcome) \<Rightarrow> bytes \<Rightarrow> bytes" where
  "agent_connection serve s =
     (case agent_turn serve s of
        None \<Rightarrow> []
      | Some (out, rest) \<Rightarrow> out @ agent_connection serve rest)"
  by pat_completeness auto
termination
  by (relation "measure (length \<circ> snd)")
    (auto simp: agent_turn_def split: sum.splits dest!: read_frame_SomeD)

declare agent_connection.simps [simp del]

section \<open>The bridge to the avatar\<close>

definition ssh_connect_request :: "string \<Rightarrow> json_rpc_request" where
  "ssh_connect_request npub = request_new ''connect''
     (json_object [(''npub'', JString npub), (''type'', JString ''ssh'')]) (json_of_nat 1)"

definition bridge_request :: "base64_lib \<Rightarrow> u64 \<Rightarrow> agent_request \<Rightarrow> json_rpc_request" where
  "bridge_request B rid req =
     (case req of
        RequestIdentities \<Rightarrow>
          request_new ''ssh.request_identities'' (json_object []) (json_of_nat (unat rid))
      | SignRequest key_blob data flags \<Rightarrow>
          request_new ''ssh.sign_request'' (json_object [(''key_blob'', JString (b64_encode B key_blob)),
            (''data'', JString (b64_encode B data)), (''flags'', json_of_nat (unat flags))])
            (json_of_nat (unat rid)))"

definition str_field :: "json \<Rightarrow> string \<Rightarrow> string" where
  "str_field v k = (case get_str v k of None \<Rightarrow> [] | Some s \<Rightarrow> s)"

definition parse_identity :: "base64_lib \<Rightarrow> json \<Rightarrow> (bytes \<times> string) option" where
  "parse_identity B ident =
     map_option (\<lambda>key_blob. (key_blob, str_field ident ''comment''))
       (b64_decode B (str_field ident ''key_blob''))"

text \<open>
  The reply to an agent request, and whether the avatar connection survives. \<open>None\<close> is a
  failed exchange: the request could not be written or no response could be read.
\<close>

definition bridge_reply ::
    "base64_lib \<Rightarrow> agent_request \<Rightarrow> json_rpc_response option \<Rightarrow> agent_reply \<times> bool" where
  "bridge_reply B req resp =
     (case req of
        RequestIdentities \<Rightarrow>
          (case resp of
             None \<Rightarrow> (Identities [], False)
           | Some r \<Rightarrow>
               (if resp_error r \<noteq> None then Identities []
                else Identities
                  (case Option.bind (Option.bind (resp_result r) (\<lambda>v. jget v ''identities'')) as_array of
                     None \<Rightarrow> []
                   | Some idents \<Rightarrow> List.map_filter (parse_identity B) idents), True))
      | SignRequest _ _ _ \<Rightarrow>
          (case resp of
             None \<Rightarrow> (Signed None ''ssh-ed25519'', False)
           | Some r \<Rightarrow>
               (if resp_error r \<noteq> None then Signed None ''ssh-ed25519''
                else Signed
                  (Option.bind (Option.bind (resp_result r) (\<lambda>v. get_str v ''signature'')) (b64_decode B))
                  (case Option.bind (resp_result r) (\<lambda>v. get_str v ''key_type'') of
                     None \<Rightarrow> ''ssh-ed25519'' | Some k \<Rightarrow> k), True)))"

section \<open>Reading back what the agent writes\<close>

text \<open>A client's parser of the answers, in terms of the same \<open>read_string\<close>.\<close>

fun parse_identities :: "nat \<Rightarrow> bytes \<Rightarrow> nat \<Rightarrow> (bytes \<times> bytes) list option" where
  "parse_identities 0 buf offset = (if offset = length buf then Some [] else None)"
| "parse_identities (Suc n) buf offset =
     (case read_string buf offset of
        (None, _) \<Rightarrow> None
      | (Some k, offset) \<Rightarrow>
          (case read_string buf offset of
             (None, _) \<Rightarrow> None
           | (Some c, offset) \<Rightarrow> map_option (\<lambda>r. (k, c) # r) (parse_identities n buf offset)))"

definition parse_identities_answer :: "bytes \<Rightarrow> (bytes \<times> bytes) list option" where
  "parse_identities_answer m =
     (if length m < 5 \<or> m ! 0 \<noteq> SSH_AGENT_IDENTITIES_ANSWER then None
      else parse_identities (unat (be_at m 1)) m 5)"

definition parse_sign_response :: "bytes \<Rightarrow> (bytes \<times> bytes) option" where
  "parse_sign_response m =
     (if m = [] \<or> m ! 0 \<noteq> SSH_AGENT_SIGN_RESPONSE then None
      else case read_string m 1 of
        (Some blob, offset) \<Rightarrow>
          (if offset \<noteq> length m then None
           else case read_string blob 0 of
             (Some algo, o1) \<Rightarrow>
               (case read_string blob o1 of
                  (Some sig, o2) \<Rightarrow> if o2 = length blob then Some (algo, sig) else None
                | _ \<Rightarrow> None)
           | _ \<Rightarrow> None)
      | _ \<Rightarrow> None)"

lemma be_at_append:
  "offset = length pre \<Longrightarrow> be_at (pre @ u32_to_be_bytes w @ s) offset = w"
  by (simp add: be_at_def u32_to_be_bytes_def nth_append)

lemma read_string_at [codec_simps]:
  assumes "offset = length pre" and "length s < 2 ^ 32"
  shows "read_string (pre @ wire_string s @ rest) offset = (Some s, length pre + 4 + length s)"
proof -
  have "be_at (pre @ wire_string s @ rest) offset = of_nat (length s)"
    using assms(1) by (simp add: wire_string_def be_at_append)
  moreover have "unat (of_nat (length s) :: u32) = length s"
    by (rule unat_of_nat_u32 [OF assms(2)])
  ultimately show ?thesis
    using assms(1) by (simp add: read_string_def wire_string_def)
qed

lemma read_string_SomeD:
  assumes "read_string buf offset = (Some s, offset')"
  shows "offset + 4 + length s = offset' \<and> offset' \<le> length buf \<and> s = take (length s) (drop (offset + 4) buf)"
  using assms by (auto simp: read_string_def Let_def split: if_splits)

lemma parse_identities_build:
  "list_all (\<lambda>(k, c). length k < 2 ^ 32 \<and> length c < 2 ^ 32) ids \<Longrightarrow>
     parse_identities (length ids) (pre @ concat (map (\<lambda>(k, c). wire_string k @ wire_string (as_bytes c)) ids))
       (length pre) = Some (map (\<lambda>(k, c). (k, as_bytes c)) ids)"
proof (induction ids arbitrary: pre)
  case (Cons x ids)
  obtain k c where x: "x = (k, c)" by fastforce
  let ?tail = "concat (map (\<lambda>(k, c). wire_string k @ wire_string (as_bytes c)) ids)"
  let ?buf = "pre @ wire_string k @ wire_string (as_bytes c) @ ?tail"
  have len: "length k < 2 ^ 32" "length (as_bytes c) < 2 ^ 32" using Cons.prems x by simp_all
  have 1: "read_string ?buf (length pre) = (Some k, length pre + 4 + length k)"
    by (rule read_string_at [OF refl len(1)])
  have 2: "read_string ?buf (length pre + 4 + length k) =
      (Some (as_bytes c), length pre + 4 + length k + 4 + length (as_bytes c))"
    using read_string_at [of "length pre + 4 + length k" "pre @ wire_string k" "as_bytes c" ?tail] len(2)
    by (simp add: wire_string_def)
  have 3: "parse_identities (length ids) ?buf (length pre + 4 + length k + 4 + length (as_bytes c)) =
      Some (map (\<lambda>(k, c). (k, as_bytes c)) ids)"
    using Cons.IH [of "pre @ wire_string k @ wire_string (as_bytes c)"] Cons.prems x
    by (simp add: wire_string_def add_ac)
  show ?case using 1 2 3 by (simp add: x)
qed simp

lemma parse_sign_request_wire [codec_simps]:
  assumes "length k < 2 ^ 32" and "length d < 2 ^ 32"
  shows "parse_sign_request (wire_string k @ wire_string d @ u32_to_be_bytes flags) =
    Some (SignRequest k d flags)"
proof -
  let ?body = "wire_string k @ wire_string d @ u32_to_be_bytes flags"
  have 1: "read_string ?body 0 = (Some k, 4 + length k)"
    using read_string_at [of 0 "[]" k] assms(1) by simp
  have 2: "read_string ?body (4 + length k) = (Some d, 4 + length k + 4 + length d)"
    using read_string_at [of "4 + length k" "wire_string k" d "u32_to_be_bytes flags"] assms(2)
    by (simp add: wire_string_def)
  have "be_at ?body (4 + length k + 4 + length d) = flags"
    using be_at_append [of "4 + length k + 4 + length d" "wire_string k @ wire_string d" flags "[]"]
    by (simp add: wire_string_def)
  with 1 2 show ?thesis by (simp add: parse_sign_request_def wire_string_def)
qed

lemma parse_sign_request_SomeD:
  assumes "parse_sign_request body = Some req"
  shows "\<exists>k d flags. req = SignRequest k d flags \<and> 8 + length k + length d \<le> length body"
  using assms
  by (auto simp: parse_sign_request_def split: option.splits prod.splits if_splits dest!: read_string_SomeD)

lemma parse_sign_response_build:
  assumes "length sig + length kt + 8 < 2 ^ 32"
  shows "parse_sign_response (build_sign_response sig kt) = Some (as_bytes kt, sig)"
proof -
  let ?blob = "wire_string (as_bytes kt) @ wire_string sig"
  have len: "length ?blob = 8 + length kt + length sig" by (simp add: wire_string_def)
  have 1: "read_string (SSH_AGENT_SIGN_RESPONSE # wire_string ?blob) 1 = (Some ?blob, 5 + length ?blob)"
    using read_string_at [of 1 "[SSH_AGENT_SIGN_RESPONSE]" ?blob "[]"] assms len by simp
  have 2: "read_string ?blob 0 = (Some (as_bytes kt), 4 + length kt)"
    using read_string_at [of 0 "[]" "as_bytes kt" "wire_string sig"] assms by simp
  have 3: "read_string ?blob (4 + length kt) = (Some sig, 8 + length kt + length sig)"
    using read_string_at [of "4 + length kt" "wire_string (as_bytes kt)" sig "[]"] assms
    by (simp add: wire_string_def)
  have "length (wire_string ?blob) = 4 + length ?blob" by (simp add: wire_string_def)
  with 1 2 3 len show ?thesis
    by (simp add: parse_sign_response_def build_sign_response_def)
qed

lemma agent_connection_Nil [simp]: "agent_connection serve [] = []"
  by (simp add: agent_connection.simps agent_turn_def read_frame_def read_exact_def)

interpretation agent_loop: answering_loop write_frame "\<lambda>s. ok_of (read_frame AGENT_LIMIT s)"
    "\<lambda>p. 0 < length p \<and> length p \<le> AGENT_LIMIT" "\<lambda>p. write_frame (agent_message serve p)"
    "agent_connection serve" for serve
proof unfold_locales
  show "ok_of (read_frame AGENT_LIMIT s) = Some (p, rest) \<Longrightarrow>
      agent_connection serve s = write_frame (agent_message serve p) @ agent_connection serve rest" for s p rest
    by (subst agent_connection.simps) (auto simp: agent_turn_def ok_of_def split: sum.splits)
  show "ok_of (read_frame AGENT_LIMIT s) = None \<Longrightarrow> agent_connection serve s = []" for s
    by (subst agent_connection.simps) (auto simp: agent_turn_def ok_of_def split: sum.splits)
qed (simp add: read_write_frame AGENT_LIMIT_def)

section \<open>Properties\<close>

text \<open>
  C27. Round trip of the agent's answers: a client that reads an identities answer gets exactly
  the identities and comments that were listed, in order, and a client that reads a sign
  response gets exactly the algorithm name and the signature, when the lengths fit the 32-bit
  length fields.
\<close>

theorem agent_answers_roundtrip:
  assumes "length ids < 2 ^ 32" and "list_all (\<lambda>(k, c). length k < 2 ^ 32 \<and> length c < 2 ^ 32) ids"
    and "length sig + length kt + 8 < 2 ^ 32"
  shows "parse_identities_answer (build_identities_answer ids) =
      Some (map (\<lambda>(k, c). (k, as_bytes c)) ids) \<and>
    parse_sign_response (build_sign_response sig kt) = Some (as_bytes kt, sig)"
proof -
  let ?hdr = "SSH_AGENT_IDENTITIES_ANSWER # u32_to_be_bytes (of_nat (length ids))"
  let ?rest = "concat (map (\<lambda>(k, c). wire_string k @ wire_string (as_bytes c)) ids)"
  have "be_at (?hdr @ ?rest) 1 = of_nat (length ids)"
    using be_at_append [of 1 "[SSH_AGENT_IDENTITIES_ANSWER]" "of_nat (length ids)" ?rest] by simp
  moreover have "unat (of_nat (length ids) :: u32) = length ids"
    by (rule unat_of_nat_u32 [OF assms(1)])
  moreover have "parse_identities (length ids) (?hdr @ ?rest) 5 = Some (map (\<lambda>(k, c). (k, as_bytes c)) ids)"
    using parse_identities_build [OF assms(2), of ?hdr] by simp
  ultimately show ?thesis using parse_sign_response_build [OF assms(3)]
    by (simp add: parse_identities_answer_def build_identities_answer_def)
qed

theorem agent_answers_roundtrip_witness:
  "parse_identities_answer (build_identities_answer [([1, 2], ''laptop''), ([3], [])]) =
      Some [([1, 2], as_bytes ''laptop''), ([3], [])] \<and>
   parse_sign_response (build_sign_response [9, 8, 7] ''ssh-ed25519'') =
      Some (as_bytes ''ssh-ed25519'', [9, 8, 7])"
  using agent_answers_roundtrip [of "[([1, 2], ''laptop''), ([3], [])]" "[9, 8, 7]" "''ssh-ed25519''"]
  by simp

text \<open>
  The agent serves each connection as a request-response protocol: whatever the requests,
  the output is one framed answer per framed request, in the order of the requests, computed
  from that request alone; nothing is written after a malformed frame.
\<close>

lemma agent_one_answer_per_request:
  assumes "\<forall>p \<in> set ps. 0 < length p \<and> length p \<le> AGENT_LIMIT"
    and "\<not> (\<exists>p r. read_frame AGENT_LIMIT tail = Inr (p, r))"
  shows "agent_connection serve (concat (map write_frame ps) @ tail) =
    concat (map (\<lambda>p. write_frame (agent_message serve p)) ps)"
  using assms by (intro agent_loop.loop_stream) (auto simp: list_all_iff ok_of_def split: sum.split)

text \<open>
  Faithful forwarding of a sign request: the payload a client builds for a key, data and
  flags reaches the main loop as exactly that key, data and flags; the answer is a signature
  only when the main loop returned one, and it carries that signature; in every other case,
  a truncated request included, the answer is the failure message.
\<close>

lemma sign_request_served_faithfully:
  assumes "length k < 2 ^ 32" and "length d < 2 ^ 32"
  shows "agent_message serve (SSH_AGENTC_SIGN_REQUEST # wire_string k @ wire_string d @ u32_to_be_bytes flags) =
      sign_response (serve (SignRequest k d flags)) \<and>
    (\<forall>req. sign_response (serve req) = [SSH_AGENT_FAILURE] \<or>
      (\<exists>sig kt. serve req = Replied (Signed (Some sig) kt) \<and>
         sign_response (serve req) = build_sign_response sig kt)) \<and>
    (\<forall>body. case parse_sign_request body of
       None \<Rightarrow> agent_message serve (SSH_AGENTC_SIGN_REQUEST # body) = [SSH_AGENT_FAILURE]
     | Some req \<Rightarrow> \<exists>k d fl. req = SignRequest k d fl \<and> 8 + length k + length d \<le> length body)"
  using assms
  by (auto simp: agent_message_def SSH_AGENTC_SIGN_REQUEST_def SSH_AGENTC_REQUEST_IDENTITIES_def
      codec_simps sign_response_def dest: parse_sign_request_SomeD
      split: agent_outcome.splits agent_reply.splits option.splits)

end
