(* ===== verification/Nostr_Sa.thy ===== *)
theory Nostr_Sa
  imports Framing
begin

text \<open>
  The Nostr service avatar (crates/km-nostr-sa/src/main.rs): length-prefixed JSON-RPC from local
  clients, byte strings in hexadecimal; JSON-RPC lines to the avatar, byte strings in base64.
  The crates \<open>hex\<close> and \<open>base64\<close> are parameters with their documented round-trip law.
\<close>

section \<open>Framed messages\<close>

record hex_lib =
  hex_enc :: "bytes \<Rightarrow> string"
  hex_dec :: "string \<Rightarrow> bytes option"

definition hex_laws :: "hex_lib \<Rightarrow> bool" where
  "hex_laws H \<longleftrightarrow> (\<forall>bs. hex_dec H (hex_enc H bs) = Some bs)"

record nostr_lib =
  nl_text :: json_text
  nl_base64 :: base64_lib
  nl_hex :: hex_lib

definition MAX_MESSAGE_SIZE :: nat where "MAX_MESSAGE_SIZE = 1024 * 1024"

definition read_framed_message :: "json_text \<Rightarrow> bytes \<Rightarrow> (json \<times> bytes) option" where
  "read_framed_message J s =
     (case read_frame MAX_MESSAGE_SIZE s of
        Inl _ \<Rightarrow> None
      | Inr (buf, rest) \<Rightarrow> map_option (\<lambda>v. (v, rest)) (json_from_slice J buf))"

definition write_framed_message :: "json_text \<Rightarrow> json \<Rightarrow> bytes" where
  "write_framed_message J v = write_frame (as_bytes (json_to_string J v))"

section \<open>Translation of byte fields\<close>

definition hex_to_base64_field :: "nostr_lib \<Rightarrow> string \<Rightarrow> json \<Rightarrow> json" where
  "hex_to_base64_field L field obj =
     (case get_str obj field of
        None \<Rightarrow> obj
      | Some hex_str \<Rightarrow>
          (case hex_dec (nl_hex L) hex_str of
             None \<Rightarrow> obj
           | Some bytes \<Rightarrow> jset obj field (JString (b64_encode (nl_base64 L) bytes))))"

definition base64_to_hex_field :: "nostr_lib \<Rightarrow> string \<Rightarrow> json \<Rightarrow> json" where
  "base64_to_hex_field L field obj =
     (case get_str obj field of
        None \<Rightarrow> obj
      | Some b64_str \<Rightarrow>
          (case b64_decode (nl_base64 L) b64_str of
             None \<Rightarrow> obj
           | Some bytes \<Rightarrow> jset obj field (JString (hex_enc (nl_hex L) bytes))))"

definition translate_request_params :: "nostr_lib \<Rightarrow> string \<Rightarrow> json \<Rightarrow> json" where
  "translate_request_params L meth params =
     (let h = hex_to_base64_field L in
      if meth = ''get_public_keys'' then params
      else if meth = ''sign_event'' then h ''event_hash'' (h ''public_key'' params)
      else if meth = ''nip04_encrypt'' \<or> meth = ''nip04_decrypt'' \<or> meth = ''nip44_encrypt'' \<or>
        meth = ''nip44_decrypt'' then h ''peer_public_key'' (h ''public_key'' params)
      else if meth = ''get_mls_pubkey'' then h ''nostr_pubkey'' params
      else if meth = ''mls_sign'' then h ''data'' (h ''mls_pubkey'' params)
      else if meth = ''sign_account_identity_proof'' then
        h ''mls_signature_public_key'' (h ''account_identity'' params)
      else if meth = ''mls_hpke_pubkey_at'' then h ''mls_pubkey'' params
      else if meth = ''mls_hpke_dh'' \<or> meth = ''mls_hpke_decap'' then h ''peer_public'' (h ''hpke_pubkey'' params)
      else if meth = ''mls_next_hpke_init_key'' then h ''current_hpke_pubkey'' (h ''mls_pubkey'' params)
      else params)"

definition translate_response_result :: "nostr_lib \<Rightarrow> string \<Rightarrow> json \<Rightarrow> json" where
  "translate_response_result L meth result =
     (let b = base64_to_hex_field L in
      if meth = ''get_public_keys'' then
        (case result of JArray items \<Rightarrow> JArray (map (b ''public_key'') items) | _ \<Rightarrow> result)
      else if meth = ''sign_event'' then b ''signature'' result
      else if meth = ''get_mls_pubkey'' then b ''mls_pubkey'' result
      else if meth = ''mls_sign'' \<or> meth = ''sign_account_identity_proof'' then b ''signature'' result
      else if meth = ''mls_hpke_pubkey_at'' \<or> meth = ''mls_next_hpke_init_key'' then b ''hpke_pubkey'' result
      else if meth = ''mls_hpke_dh'' \<or> meth = ''mls_hpke_decap'' then b ''dh_result'' result
      else result)"

section \<open>A client connection\<close>

record client_request =
  cr_method :: string
  cr_params :: json
  cr_client_id :: json

text \<open>What the main loop does with a request: it is gone, it drops the reply, or it replies.\<close>

datatype client_outcome = MainLoopClosed | RequestDropped | ClientReply json_rpc_response

definition error_object :: "64 word \<Rightarrow> string \<Rightarrow> json \<Rightarrow> json" where
  "error_object code message ident = json_object
     [(''jsonrpc'', JString ''2.0''),
      (''error'', json_object [(''code'', json_of_i64 code), (''message'', JString message)]),
      (''id'', ident)]"

definition json_default :: "json \<Rightarrow> json option \<Rightarrow> json" where
  "json_default d v = (case v of None \<Rightarrow> d | Some x \<Rightarrow> x)"

definition client_request_of :: "json \<Rightarrow> client_request option" where
  "client_request_of msg =
     map_option (\<lambda>meth. \<lparr>cr_method = meth, cr_params = json_default (json_object []) (jget msg ''params''),
                         cr_client_id = json_default JNull (jget msg ''id'')\<rparr>)
       (get_str msg ''method'')"

text \<open>One message: the response written back, \<open>None\<close> when the task returns.\<close>

definition client_answer :: "(client_request \<Rightarrow> client_outcome) \<Rightarrow> json \<Rightarrow> json option" where
  "client_answer serve msg =
     (case client_request_of msg of
        None \<Rightarrow> Some (error_object JSONRPC_INVALID_REQUEST ''missing method'' (json_default JNull (jget msg ''id'')))
      | Some req \<Rightarrow>
          (case serve req of
             MainLoopClosed \<Rightarrow> None
           | ClientReply resp \<Rightarrow> Some (norm_json (encode_response resp))
           | RequestDropped \<Rightarrow> Some (error_object JSONRPC_INTERNAL_ERROR ''request dropped'' (cr_client_id req))))"

function handle_client :: "nostr_lib \<Rightarrow> (client_request \<Rightarrow> client_outcome) \<Rightarrow> bytes \<Rightarrow> bytes" where
  "handle_client L serve s =
     (case read_framed_message (nl_text L) s of
        None \<Rightarrow> []
      | Some (msg, rest) \<Rightarrow>
          (case client_answer serve msg of
             None \<Rightarrow> []
           | Some v \<Rightarrow> write_framed_message (nl_text L) v @ handle_client L serve rest))"
  by pat_completeness auto
termination
  by (relation "measure (\<lambda>(_, _, s). length s)")
    (auto simp: read_framed_message_def split: sum.splits dest!: read_frame_SomeD)

declare handle_client.simps [simp del]

section \<open>The bridge to the avatar\<close>

definition nostr_connect_request :: json_rpc_request where
  "nostr_connect_request =
     request_new ''connect'' (json_object [(''type'', JString ''nostr'')]) (json_of_nat 1)"

definition bridge_nostr_request :: "nostr_lib \<Rightarrow> u64 \<Rightarrow> client_request \<Rightarrow> json_rpc_request" where
  "bridge_nostr_request L rid req =
     request_new (''nostr.'' @ cr_method req) (translate_request_params L (cr_method req) (cr_params req))
       (json_of_nat (unat rid))"

text \<open>
  The response to the client and whether the avatar connection survives, from the result of
  the exchange with the avatar (\<open>Inl\<close> with the text of the failure).
\<close>

definition bridge_nostr_response ::
    "nostr_lib \<Rightarrow> client_request \<Rightarrow> string + json_rpc_response \<Rightarrow> json_rpc_response \<times> bool" where
  "bridge_nostr_response L req r =
     (case r of
        Inr resp \<Rightarrow>
          (\<lparr>resp_jsonrpc = ''2.0'', resp_result = map_option (translate_response_result L (cr_method req)) (resp_result resp),
            resp_error = resp_error resp, resp_id = cr_client_id req\<rparr>, True)
      | Inl e \<Rightarrow>
          (response_error (cr_client_id req) JSONRPC_INTERNAL_ERROR (''avatar connection error: '' @ e), False))"

section \<open>Lemmas\<close>

lemma get_str_jset:
  "get_str v k = Some s \<Longrightarrow> get_str (jset v k (JString t)) k' = (if k' = k then Some t else get_str v k')"
  by (cases "jget v k") (simp_all add: get_str_def jget_jset)

lemma hex_to_base64_field_spec:
  assumes "hex_laws (nl_hex L)" and "get_str v k = Some (hex_enc (nl_hex L) b)"
  shows "get_str (hex_to_base64_field L k v) k' =
    (if k' = k then Some (b64_encode (nl_base64 L) b) else get_str v k')"
  using assms by (simp add: hex_to_base64_field_def hex_laws_def get_str_jset)

lemma base64_to_hex_field_spec:
  assumes "base64_laws (nl_base64 L)" and "get_str v k = Some (b64_encode (nl_base64 L) b)"
  shows "get_str (base64_to_hex_field L k v) k' =
    (if k' = k then Some (hex_enc (nl_hex L) b) else get_str v k')"
  using assms by (simp add: base64_to_hex_field_def base64_laws_def get_str_jset)

lemma field_translation_jget:
  "jget v k \<noteq> None \<Longrightarrow> k' \<noteq> k \<Longrightarrow> jget (hex_to_base64_field L k v) k' = jget v k'"
  "k' \<noteq> k \<Longrightarrow> jget (hex_to_base64_field L k v) k' = jget v k'"
  "k' \<noteq> k \<Longrightarrow> jget (base64_to_hex_field L k v) k' = jget v k'"
  by (auto simp: hex_to_base64_field_def base64_to_hex_field_def get_str_def jget_jset
      split: option.splits Option.bind_splits)

definition framed_printable :: "json_text \<Rightarrow> json \<Rightarrow> bool" where
  "framed_printable J v \<longleftrightarrow> json_from_str J (json_to_string J v) = Some v \<and>
     utf8_valid (as_bytes (json_to_string J v)) \<and> 0 < length (json_to_string J v) \<and>
     length (json_to_string J v) \<le> MAX_MESSAGE_SIZE"

lemma read_write_framed:
  assumes "json_from_str J (json_to_string J v) = Some v" and "json_wf v"
    and "utf8_valid (as_bytes (json_to_string J v))"
    and "0 < length (json_to_string J v)" and "length (json_to_string J v) \<le> MAX_MESSAGE_SIZE"
  shows "read_framed_message J (write_framed_message J v @ rest) = Some (v, rest)"
proof -
  have "read_frame MAX_MESSAGE_SIZE (write_frame (as_bytes (json_to_string J v)) @ rest) =
      Inr (as_bytes (json_to_string J v), rest)"
    using assms(4,5) by (intro read_write_frame) (simp_all add: MAX_MESSAGE_SIZE_def)
  then show ?thesis using assms(1-3)
    by (simp add: read_framed_message_def write_framed_message_def json_from_slice_def from_str_value_def)
qed

text \<open>A client connection whose requests are all answered.\<close>

interpretation client_loop: answering_loop "write_framed_message (nl_text L)" "read_framed_message (nl_text L)"
    "\<lambda>v. framed_printable (nl_text L) v \<and> json_wf v"
    "\<lambda>msg. write_framed_message (nl_text L) (the (client_answer (\<lambda>req. ClientReply (serve req)) msg))"
    "handle_client L (\<lambda>req. ClientReply (serve req))" for L serve
proof unfold_locales
  have "\<exists>v. client_answer (\<lambda>req. ClientReply (serve req)) msg = Some v" for msg
    by (auto simp: client_answer_def split: option.split)
  then show "read_framed_message (nl_text L) s = Some (p, rest) \<Longrightarrow>
      handle_client L (\<lambda>req. ClientReply (serve req)) s =
      write_framed_message (nl_text L) (the (client_answer (\<lambda>req. ClientReply (serve req)) p)) @
      handle_client L (\<lambda>req. ClientReply (serve req)) rest" for s p rest
    by (metis handle_client.simps option.case(2) option.sel prod.case)
qed (auto simp: read_write_framed framed_printable_def handle_client.simps)

text \<open>The byte fields of each method, in a table.\<close>

definition request_byte_fields :: "string \<Rightarrow> string list" where
  "request_byte_fields meth = (case map_of
     [(''sign_event'', [''public_key'', ''event_hash'']),
      (''nip04_encrypt'', [''public_key'', ''peer_public_key'']),
      (''nip04_decrypt'', [''public_key'', ''peer_public_key'']),
      (''nip44_encrypt'', [''public_key'', ''peer_public_key'']),
      (''nip44_decrypt'', [''public_key'', ''peer_public_key'']),
      (''get_mls_pubkey'', [''nostr_pubkey'']),
      (''mls_sign'', [''mls_pubkey'', ''data'']),
      (''sign_account_identity_proof'', [''account_identity'', ''mls_signature_public_key'']),
      (''mls_hpke_pubkey_at'', [''mls_pubkey'']),
      (''mls_hpke_dh'', [''hpke_pubkey'', ''peer_public'']),
      (''mls_hpke_decap'', [''hpke_pubkey'', ''peer_public'']),
      (''mls_next_hpke_init_key'', [''mls_pubkey'', ''current_hpke_pubkey''])] meth
     of None \<Rightarrow> [] | Some fs \<Rightarrow> fs)"

lemma translate_request_fold:
  "translate_request_params L meth v = fold (hex_to_base64_field L) (request_byte_fields meth) v"
  by (simp add: translate_request_params_def request_byte_fields_def Let_def)

lemma fold_field_frame:
  "k' \<notin> set ks \<Longrightarrow> jget (fold (hex_to_base64_field L) ks v) k' = jget v k'"
  by (induction ks arbitrary: v) (auto simp: field_translation_jget)

lemma fold_field_spec:
  assumes "hex_laws (nl_hex L)" and "distinct ks" and "k \<in> set ks" and "get_str v k = Some (hex_enc (nl_hex L) b)"
  shows "get_str (fold (hex_to_base64_field L) ks v) k = Some (b64_encode (nl_base64 L) b)"
  using assms(2-4)
proof (induction ks arbitrary: v)
  case (Cons k' ks)
  show ?case
  proof (cases "k = k'")
    case True
    have "jget (fold (hex_to_base64_field L) ks (hex_to_base64_field L k v)) k = jget (hex_to_base64_field L k v) k"
      using Cons.prems(1) True by (intro fold_field_frame) simp
    with True hex_to_base64_field_spec [OF assms(1) Cons.prems(3), of k] show ?thesis
      by (simp add: get_str_def)
  next
    case False
    then have "get_str (hex_to_base64_field L k' v) k = get_str v k"
      by (simp add: get_str_def field_translation_jget)
    with Cons False show ?thesis by simp
  qed
qed simp

lemma request_byte_fields_distinct: "distinct (request_byte_fields meth)"
  by (simp add: request_byte_fields_def)

section \<open>Properties\<close>

text \<open>
  C33. Translation of the requests: for every method, a byte field of its parameters that holds
  the hexadecimal text of some bytes reaches the avatar as the base64 text of the same bytes,
  and every other field reaches it unchanged, whatever it holds.
\<close>

theorem request_translation_exact:
  assumes "hex_laws (nl_hex L)"
  shows "(\<forall>k b. k \<in> set (request_byte_fields meth) \<longrightarrow> get_str v k = Some (hex_enc (nl_hex L) b) \<longrightarrow>
      get_str (translate_request_params L meth v) k = Some (b64_encode (nl_base64 L) b)) \<and>
    (\<forall>k. k \<notin> set (request_byte_fields meth) \<longrightarrow> jget (translate_request_params L meth v) k = jget v k)"
  unfolding translate_request_fold
  using fold_field_spec [OF assms request_byte_fields_distinct] fold_field_frame by blast

definition toy_nostr_lib :: "json_text \<Rightarrow> nostr_lib" where
  "toy_nostr_lib J = \<lparr>nl_text = J, nl_base64 = toy_base64,
     nl_hex = \<lparr>hex_enc = b64_encode toy_base64, hex_dec = b64_decode toy_base64\<rparr>\<rparr>"

lemma toy_nostr_laws: "hex_laws (nl_hex (toy_nostr_lib J))" "base64_laws (nl_base64 (toy_nostr_lib J))"
  using toy_base64_laws by (simp_all add: toy_nostr_lib_def hex_laws_def base64_laws_def)

theorem request_translation_exact_witness:
  "get_str (translate_request_params (toy_nostr_lib (toy_text JNull)) ''mls_sign''
      (JObject [(''data'', JString (b64_encode toy_base64 [1, 2])), (''note'', JNull)])) ''data'' =
      Some (b64_encode toy_base64 [1, 2]) \<and>
   jget (translate_request_params (toy_nostr_lib (toy_text JNull)) ''mls_sign''
      (JObject [(''data'', JString (b64_encode toy_base64 [1, 2])), (''note'', JNull)])) ''note'' = Some JNull"
proof -
  let ?L = "toy_nostr_lib (toy_text JNull)"
  let ?v = "JObject [(''data'', JString (b64_encode toy_base64 [1, 2])), (''note'', JNull)]"
  have "get_str ?v ''data'' = Some (hex_enc (nl_hex ?L) [1, 2])" "b64_encode (nl_base64 ?L) = b64_encode toy_base64"
    by (simp_all add: get_str_def toy_nostr_lib_def)
  moreover have "''data'' \<in> set (request_byte_fields ''mls_sign'')" "''note'' \<notin> set (request_byte_fields ''mls_sign'')"
    by (simp_all add: request_byte_fields_def)
  ultimately show ?thesis using request_translation_exact [OF toy_nostr_laws(1), of "''mls_sign''" ?v]
    by simp
qed

end
