(* ===== verification/Bridge.thy ===== *)
theory Bridge
  imports Service_Link Ssh_Agent Nostr_Sa
begin

text \<open>
  The main loops of km-ssh-sa and km-nostr-sa (crates/km-ssh-sa/src/main.rs,
  crates/km-nostr-sa/src/main.rs): connect to the avatar with retries, send \<open>connect\<close>, then
  forward one request of the local programs after the other, and start over when an exchange
  fails. The two programs have the same loop around their own translation, a \<open>service\<close>.
\<close>

section \<open>The loop\<close>

record ('req, 'rep) service =
  sv_connect :: json_rpc_request
  sv_request :: "u64 \<Rightarrow> 'req \<Rightarrow> json_rpc_request"
  sv_reply :: "'req \<Rightarrow> exchange_error + json_rpc_response \<Rightarrow> 'rep \<times> bool"

text \<open>Connecting, with the delay before the attempt after the next; connected; left the loop.\<close>

datatype 's phase = Connecting nat | Linked "'s \<times> bytes" | Stopped

record ('s, 'req, 'rep) bridge =
  br_phase :: "'s phase"
  br_next_id :: u64
  br_slept :: "nat list"
  br_replies :: "('req \<times> 'rep) list"

text \<open>
  What the loop waits for: the outcome of a connection attempt (with the state of the peer
  behind the new connection), the next request of a local program, or the end of these.
\<close>

datatype ('s, 'req) bridge_event = Refused | Accepted 's | Requested 'req | ChannelsClosed

definition reconnect :: "nat \<Rightarrow> ('s, 'req, 'rep) bridge \<Rightarrow> ('s, 'req, 'rep) bridge" where
  "reconnect secs b = b\<lparr>br_phase := Connecting 1, br_slept := br_slept b @ [secs]\<rparr>"

definition bridge_connected ::
    "json_text \<Rightarrow> 's peer \<Rightarrow> ('req, 'rep) service \<Rightarrow> 's \<Rightarrow> ('s, 'req, 'rep) bridge \<Rightarrow> ('s, 'req, 'rep) bridge" where
  "bridge_connected J peer sv st b =
     (case send_and_receive J peer (st, []) (sv_connect sv) of
        (r, conn) \<Rightarrow>
          (case handshake_of r of
             Established \<Rightarrow> b\<lparr>br_phase := Linked conn\<rparr>
           | HandshakeFailed secs \<Rightarrow> reconnect secs b))"

definition bridge_serve ::
    "json_text \<Rightarrow> 's peer \<Rightarrow> ('req, 'rep) service \<Rightarrow> 's \<times> bytes \<Rightarrow> 'req \<Rightarrow>
      ('s, 'req, 'rep) bridge \<Rightarrow> ('s, 'req, 'rep) bridge" where
  "bridge_serve J peer sv conn req b =
     (case send_and_receive J peer conn (sv_request sv (br_next_id b) req) of
        (r, conn') \<Rightarrow>
          let (reply, connection_ok) = sv_reply sv req r;
              b = b\<lparr>br_next_id := br_next_id b + 1, br_replies := br_replies b @ [(req, reply)]\<rparr>
          in if connection_ok then b\<lparr>br_phase := Linked conn'\<rparr> else reconnect 1 b)"

text \<open>\<open>None\<close> for an event the loop does not wait for.\<close>

definition bridge_step ::
    "json_text \<Rightarrow> 's peer \<Rightarrow> ('req, 'rep) service \<Rightarrow> ('s, 'req, 'rep) bridge \<Rightarrow>
      ('s, 'req) bridge_event \<Rightarrow> ('s, 'req, 'rep) bridge option" where
  "bridge_step J peer sv b e =
     (case (br_phase b, e) of
        (Connecting delay, Refused) \<Rightarrow>
          Some (b\<lparr>br_phase := Connecting (min (delay * 2) 30), br_slept := br_slept b @ [delay]\<rparr>)
      | (Connecting _, Accepted st) \<Rightarrow> Some (bridge_connected J peer sv st b)
      | (Linked conn, Requested req) \<Rightarrow> Some (bridge_serve J peer sv conn req b)
      | (Linked _, ChannelsClosed) \<Rightarrow> Some (b\<lparr>br_phase := Stopped\<rparr>)
      | _ \<Rightarrow> None)"

definition bridge_init :: "('s, 'req, 'rep) bridge" where
  "bridge_init = \<lparr>br_phase = Connecting 1, br_next_id = 2, br_slept = [], br_replies = []\<rparr>"

fun bridge_run ::
    "json_text \<Rightarrow> 's peer \<Rightarrow> ('req, 'rep) service \<Rightarrow> ('s, 'req, 'rep) bridge \<Rightarrow>
      ('s, 'req) bridge_event list \<Rightarrow> ('s, 'req, 'rep) bridge option" where
  "bridge_run J peer sv b [] = Some b"
| "bridge_run J peer sv b (e # es) =
     Option.bind (bridge_step J peer sv b e) (\<lambda>b'. bridge_run J peer sv b' es)"

section \<open>The two services\<close>

definition ssh_service :: "base64_lib \<Rightarrow> string \<Rightarrow> (agent_request, agent_reply) service" where
  "ssh_service B npub = \<lparr>sv_connect = ssh_connect_request npub, sv_request = bridge_request B,
     sv_reply = \<lambda>req r. bridge_reply B req (ok_of r)\<rparr>"

definition ssh_main_step ::
    "json_text \<Rightarrow> base64_lib \<Rightarrow> string \<Rightarrow> 's peer \<Rightarrow> ('s, agent_request, agent_reply) bridge \<Rightarrow>
      ('s, agent_request) bridge_event \<Rightarrow> ('s, agent_request, agent_reply) bridge option" where
  "ssh_main_step J B npub peer = bridge_step J peer (ssh_service B npub)"

definition nostr_service ::
    "nostr_lib \<Rightarrow> (exchange_error \<Rightarrow> string) \<Rightarrow> (client_request, json_rpc_response) service" where
  "nostr_service L disp = \<lparr>sv_connect = nostr_connect_request, sv_request = bridge_nostr_request L,
     sv_reply = \<lambda>req r. bridge_nostr_response L req (map_sum disp id r)\<rparr>"

definition nostr_main_step ::
    "nostr_lib \<Rightarrow> (exchange_error \<Rightarrow> string) \<Rightarrow> 's peer \<Rightarrow> ('s, client_request, json_rpc_response) bridge \<Rightarrow>
      ('s, client_request) bridge_event \<Rightarrow> ('s, client_request, json_rpc_response) bridge option" where
  "nostr_main_step L disp peer = bridge_step (nl_text L) peer (nostr_service L disp)"

text \<open>The sockets they listen on: a stale file is removed first.\<close>

definition start_agent :: "string \<Rightarrow> step list" where
  "start_agent socket_path = [Ignoring (RemoveFile socket_path), Must (BindSocket socket_path)]"

definition start_nostr_listener :: "bool \<Rightarrow> string \<Rightarrow> step list" where
  "start_nostr_listener socket_exists listen_socket =
     (if socket_exists then [Must (RemoveFile listen_socket)] else []) @ [Must (BindSocket listen_socket)]"

section \<open>The contract of a service\<close>

text \<open>
  The state after any events: requests answered in order with consecutive ids, each from the
  avatar's own response to it; nothing buffered; delays between one second and thirty. \<open>P\<close> is
  any property of the peers that were connected to which their own steps keep.
\<close>

definition in_step ::
    "json_text \<Rightarrow> 's peer \<Rightarrow> ('s \<Rightarrow> bool) \<Rightarrow> ('req, 'rep) service \<Rightarrow> ('s, 'req, 'rep) bridge \<Rightarrow> bool" where
  "in_step J peer P sv b \<longleftrightarrow>
     (case br_phase b of Linked (st, buf) \<Rightarrow> P st \<and> buf = [] | Connecting d \<Rightarrow> 1 \<le> d \<and> d \<le> 30 | Stopped \<Rightarrow> True) \<and>
     br_next_id b = 2 + of_nat (length (br_replies b)) \<and>
     (\<forall>d \<in> set (br_slept b). 1 \<le> d \<and> d \<le> 30) \<and>
     (\<forall>i < length (br_replies b). \<exists>st. P st \<and> snd (br_replies b ! i) =
        fst (sv_reply sv (fst (br_replies b ! i))
          (own_response J peer st (sv_request sv (2 + of_nat i) (fst (br_replies b ! i))))))"

definition peer_keeps :: "('s \<Rightarrow> bool) \<Rightarrow> 's peer \<Rightarrow> bool" where
  "peer_keeps P peer \<longleftrightarrow> (\<forall>st line out st'. P st \<longrightarrow> peer st line = Some (out, st') \<longrightarrow> P st')"

definition accepts_only :: "('s \<Rightarrow> bool) \<Rightarrow> ('s, 'req) bridge_event list \<Rightarrow> bool" where
  "accepts_only P es \<longleftrightarrow> (\<forall>st. Accepted st \<in> set es \<longrightarrow> P st)"

lemma peer_after_keeps: "peer_keeps P peer \<Longrightarrow> P st \<Longrightarrow> P (peer_after J peer st req)"
  unfolding peer_keeps_def peer_after_def by (fastforce split: option.splits prod.splits)

text \<open>
  What the loop relies on: a reply keeps the connection only when the exchange succeeded, and
  a successful exchange keeps it. With a peer that writes at most one line for each request, the
  loop never gets out of step with the avatar.
\<close>

locale bridge_service =
  fixes sv :: "('req, 'rep) service"
  assumes reply_keeps_connection: "snd (sv_reply sv req r) \<longleftrightarrow> (\<exists>resp. r = Inr resp)"
begin

text \<open>A connection with a failed exchange is given up, whatever the peer does.\<close>

lemma serve_phase:
  "send_and_receive J peer conn (sv_request sv (br_next_id b) req) = (r, conn') \<Longrightarrow>
     br_phase (bridge_serve J peer sv conn req b) =
       (case r of Inl _ \<Rightarrow> Connecting 1 | Inr _ \<Rightarrow> Linked conn')"
  using reply_keeps_connection [of req r]
  by (auto simp: bridge_serve_def reconnect_def Let_def split: prod.split sum.split)

lemma in_step_init: "in_step J peer P sv bridge_init"
  by (simp add: in_step_def bridge_init_def)

lemma in_step_reconnect:
  "in_step J peer P sv b \<Longrightarrow> 1 \<le> secs \<Longrightarrow> secs \<le> 30 \<Longrightarrow> in_step J peer P sv (reconnect secs b)"
  by (auto simp: in_step_def reconnect_def)

lemma in_step_connected:
  assumes "one_line_peer peer" and "peer_keeps P peer" and "P st" and "in_step J peer P sv b"
  shows "in_step J peer P sv (bridge_connected J peer sv st b)"
proof (cases "handshake_of (own_response J peer st (sv_connect sv))")
  case (HandshakeFailed secs)
  then have "1 \<le> secs" "secs \<le> 30"
    by (auto simp: handshake_of_def split: sum.splits exchange_error.splits if_splits)
  with HandshakeFailed in_step_reconnect [OF assms(4)] show ?thesis
    by (simp add: bridge_connected_def send_and_receive_sync [OF assms(1)])
qed (use assms(4) peer_after_keeps [OF assms(2,3)] in
    \<open>simp add: bridge_connected_def send_and_receive_sync [OF assms(1)] in_step_def\<close>)

lemma in_step_serve:
  assumes "one_line_peer peer" and "peer_keeps P peer" and "in_step J peer P sv b"
    and "br_phase b = Linked (st, [])"
  shows "in_step J peer P sv (bridge_serve J peer sv (st, []) req b)"
proof -
  let ?r = "own_response J peer st (sv_request sv (br_next_id b) req)"
  have st: "P st" using assms(3,4) by (simp add: in_step_def)
  obtain reply ok where rep: "sv_reply sv req ?r = (reply, ok)" by fastforce
  let ?b = "b\<lparr>br_next_id := br_next_id b + 1, br_replies := br_replies b @ [(req, reply)]\<rparr>"
  have "in_step J peer P sv ?b"
    unfolding in_step_def
  proof (intro conjI allI impI)
    fix i assume "i < length (br_replies ?b)"
    then consider "i < length (br_replies b)" | "i = length (br_replies b)" by fastforce
    then show "\<exists>st. P st \<and> snd (br_replies ?b ! i) = fst (sv_reply sv (fst (br_replies ?b ! i))
        (own_response J peer st (sv_request sv (2 + of_nat i) (fst (br_replies ?b ! i)))))"
    proof cases
      case 1
      with assms(3) show ?thesis by (simp add: in_step_def nth_append)
    next
      case 2
      with rep assms(3) st show ?thesis by (auto simp: in_step_def intro!: exI [of _ st])
    qed
  qed (use assms(3,4) in \<open>auto simp: in_step_def\<close>)
  then have "in_step J peer P sv (?b\<lparr>br_phase := Linked (peer_after J peer st (sv_request sv (br_next_id b) req), [])\<rparr>)"
    "in_step J peer P sv (reconnect 1 ?b)"
    using peer_after_keeps [OF assms(2) st] by (simp_all add: in_step_def reconnect_def)
  then show ?thesis
    by (simp add: bridge_serve_def send_and_receive_sync [OF assms(1)] rep Let_def)
qed

lemma in_step_step:
  assumes "one_line_peer peer" and "peer_keeps P peer" and "accepts_only P [e]"
    and "in_step J peer P sv b" and "bridge_step J peer sv b e = Some b'"
  shows "in_step J peer P sv b'"
proof (cases "br_phase b")
  case (Connecting d)
  with assms(4) have "in_step J peer P sv (b\<lparr>br_phase := Connecting (min (d * 2) 30), br_slept := br_slept b @ [d]\<rparr>)"
    by (auto simp: in_step_def)
  with Connecting assms(3,5) in_step_connected [OF assms(1,2) _ assms(4)] show ?thesis
    by (auto simp: bridge_step_def accepts_only_def split: bridge_event.splits)
next
  case (Linked conn)
  with assms(4) obtain st where "conn = (st, [])" by (cases conn) (simp add: in_step_def)
  with Linked assms(5) in_step_serve [OF assms(1,2,4)] assms(4) show ?thesis
    by (auto simp: bridge_step_def in_step_def split: bridge_event.splits)
qed (use assms(5) in \<open>simp add: bridge_step_def\<close>)

lemma in_step_run:
  "one_line_peer peer \<Longrightarrow> peer_keeps P peer \<Longrightarrow> accepts_only P es \<Longrightarrow> in_step J peer P sv b \<Longrightarrow>
     bridge_run J peer sv b es = Some b' \<Longrightarrow> in_step J peer P sv b'"
proof (induction es arbitrary: b)
  case (Cons e es)
  then obtain b1 where "bridge_step J peer sv b e = Some b1" "bridge_run J peer sv b1 es = Some b'"
    by (auto simp: bind_eq_Some_conv)
  moreover have "accepts_only P [e]" "accepts_only P es" using Cons.prems(3) by (simp_all add: accepts_only_def)
  ultimately show ?case using Cons in_step_step [of peer P e J b b1] by blast
qed simp

end

text \<open>The requests among the events.\<close>

definition requests_of :: "('s, 'req) bridge_event list \<Rightarrow> 'req list" where
  "requests_of es = concat (map (\<lambda>e. case e of Requested r \<Rightarrow> [r] | _ \<Rightarrow> []) es)"

lemma bridge_step_replies:
  "bridge_step J peer sv b e = Some b' \<Longrightarrow>
     map fst (br_replies b') = map fst (br_replies b) @ requests_of [e]"
  by (auto simp: bridge_step_def bridge_connected_def bridge_serve_def reconnect_def requests_of_def Let_def
      split: phase.splits bridge_event.splits prod.splits handshake.splits if_splits)

lemma bridge_run_replies:
  "bridge_run J peer sv b es = Some b' \<Longrightarrow> map fst (br_replies b') = map fst (br_replies b) @ requests_of es"
  by (induction es arbitrary: b)
    (auto simp: bind_eq_Some_conv dest!: bridge_step_replies simp: requests_of_def)

interpretation ssh: bridge_service "ssh_service B npub" for B npub
  by unfold_locales
    (auto simp: ssh_service_def bridge_reply_def ok_of_def split: agent_request.split sum.splits)

lemma map_sum_Inr: "map_sum f id r = Inr x \<longleftrightarrow> r = Inr x"
  by (cases r) simp_all

interpretation nostr: bridge_service "nostr_service L disp" for L disp
  by unfold_locales
    (auto simp: nostr_service_def bridge_nostr_response_def map_sum_Inr split: sum.splits)

section \<open>Properties\<close>

text \<open>
  The bridge of km-ssh-sa stays in step with the avatar: after any connections, refusals,
  failed handshakes and lost connections, the replies are for the agent requests received, one
  each and in order; each comes from the avatar's own response to that request (sent with its
  own id) and from no other line; and no sleep is longer than thirty seconds. The avatar may
  be any peer that writes at most one line for each request, or closes, or dies.
\<close>

lemma ssh_bridge_in_step:
  assumes "one_line_peer peer" and "bridge_run J peer (ssh_service B npub) bridge_init es = Some b"
  shows "map fst (br_replies b) = requests_of es \<and>
    (\<forall>i < length (br_replies b). \<exists>st. snd (br_replies b ! i) =
       fst (bridge_reply B (requests_of es ! i)
         (ok_of (own_response J peer st (bridge_request B (2 + of_nat i) (requests_of es ! i)))))) \<and>
    (\<forall>d \<in> set (br_slept b). 1 \<le> d \<and> d \<le> 30)"
proof -
  have reqs: "map fst (br_replies b) = requests_of es"
    using bridge_run_replies [OF assms(2)] by (simp add: bridge_init_def)
  then have "i < length (br_replies b) \<Longrightarrow> fst (br_replies b ! i) = requests_of es ! i" for i
    by (metis nth_map)
  moreover have "in_step J peer (\<lambda>_. True) (ssh_service B npub) b"
    by (rule ssh.in_step_run [OF assms(1) _ _ ssh.in_step_init assms(2)])
      (simp_all add: peer_keeps_def accepts_only_def)
  ultimately show ?thesis using reqs by (simp add: in_step_def ssh_service_def)
qed

definition mute_peer :: "nat peer" where
  "mute_peer st req = (if st = 0 then None else Some (as_bytes ''x'' @ [0x0A], st - 1))"

definition connect_ok :: json_rpc_response where
  "connect_ok = response_success (json_of_nat 1) (json_object [])"

text \<open>What an agent connection gets from the bridge while its avatar connection is up.\<close>

definition bridged ::
    "json_text \<Rightarrow> base64_lib \<Rightarrow> 's peer \<Rightarrow> 's \<Rightarrow> u64 \<Rightarrow> agent_request \<Rightarrow> agent_outcome" where
  "bridged J B peer st rid req =
     Replied (fst (bridge_reply B req (ok_of (own_response J peer st (bridge_request B rid req)))))"

lemma own_response_line:
  assumes "peer st (write_line_message J encode_request req) = Some (write_line_message J encode_response resp, st')"
    and "sendable_line J encode_response resp" and "wire_response resp = resp"
  shows "own_response J peer st req = Inr resp"
  using read_write_line [where rest = "[]", OF assms(2), of decode_response, OF decode_encode_response] assms(1,3)
  by (simp add: own_response_def)

text \<open>
  C35. Signing over SSH end to end: the sign request that an SSH client writes to the agent
  socket goes to the avatar as \<open>ssh.sign_request\<close> with the same key blob and data in base64 and
  the same flags, and the client reads back exactly the signature bytes and the key type that
  the avatar answered.
\<close>

theorem ssh_sign_end_to_end:
  assumes "base64_laws B" and "9 + 4 + length k + length d \<le> AGENT_LIMIT"
    and "req = bridge_request B rid (SignRequest k d flags)"
    and "peer st (write_line_message J encode_request req) = Some (write_line_message J encode_response resp, st')"
    and "sendable_line J encode_response resp" and "wire_response resp = resp"
    and "resp_error resp = None" and "resp_result resp = Some res"
    and "get_str res ''signature'' = Some (b64_encode B sig)" and "get_str res ''key_type'' = Some kt"
    and "length sig + length kt + 8 < 2 ^ 32"
  shows "req_method req = ''ssh.sign_request'' \<and>
    get_str (req_params req) ''key_blob'' = Some (b64_encode B k) \<and>
    get_str (req_params req) ''data'' = Some (b64_encode B d) \<and>
    jget (req_params req) ''flags'' = Some (json_of_nat (unat flags)) \<and>
    (\<exists>answer. agent_connection (bridged J B peer st rid)
        (write_frame (SSH_AGENTC_SIGN_REQUEST # wire_string k @ wire_string d @ u32_to_be_bytes flags)) =
        write_frame answer \<and>
      parse_sign_response answer = Some (as_bytes kt, sig))"
proof -
  let ?m = "SSH_AGENTC_SIGN_REQUEST # wire_string k @ wire_string d @ u32_to_be_bytes flags"
  have len: "length k < 2 ^ 32" "length d < 2 ^ 32" "length ?m \<le> AGENT_LIMIT"
    using assms(2) by (simp_all add: AGENT_LIMIT_def wire_string_def)
  have sent: "req_method req = ''ssh.sign_request'' \<and>
      get_str (req_params req) ''key_blob'' = Some (b64_encode B k) \<and>
      get_str (req_params req) ''data'' = Some (b64_encode B d) \<and>
      jget (req_params req) ''flags'' = Some (json_of_nat (unat flags))"
    by (simp add: assms(3) bridge_request_def request_new_def get_str_def jget_json_object)
  have "own_response J peer st req = Inr resp"
    by (rule own_response_line [where st' = st']) (rule assms)+
  then have "bridged J B peer st rid (SignRequest k d flags) = Replied (Signed (Some sig) kt)"
    using assms(1,3,7-10)
    by (simp add: bridged_def bridge_reply_def base64_laws_def)
  then have "agent_message (bridged J B peer st rid) ?m = build_sign_response sig kt"
    using parse_sign_request_wire [OF len(1,2), of flags]
    by (simp add: agent_message_def SSH_AGENTC_SIGN_REQUEST_def SSH_AGENTC_REQUEST_IDENTITIES_def sign_response_def)
  moreover have "agent_connection (bridged J B peer st rid) (write_frame ?m) =
      write_frame (agent_message (bridged J B peer st rid) ?m)"
    using len(3) by (intro agent_loop.loop_one) (simp_all add: read_frame_def read_exact_def)
  ultimately show ?thesis
    using sent parse_sign_response_build [OF assms(11)] by auto
qed

definition signed_response :: json_rpc_response where
  "signed_response = response_success (json_of_nat 2)
     (JObject [(''key_type'', JString ''ssh-rsa''), (''signature'', JString (b64_encode toy_base64 [7, 8]))])"

theorem ssh_sign_end_to_end_witness:
  "\<exists>answer. agent_connection
      (bridged (toy_text (encode_response signed_response)) toy_base64 (\<lambda>_ _. Some (as_bytes ''x'' @ [0x0A], ())) () 2)
      (write_frame (SSH_AGENTC_SIGN_REQUEST # wire_string [1] @ wire_string [2, 3] @ u32_to_be_bytes 4)) =
      write_frame answer \<and>
    parse_sign_response answer = Some (as_bytes ''ssh-rsa'', [7, 8])"
proof -
  let ?J = "toy_text (encode_response signed_response)" and ?peer = "\<lambda>_ _. Some (as_bytes ''x'' @ [0x0A], ())"
  have "sendable_line ?J encode_response signed_response"
    by (simp add: sendable_line_def prints_line_def toy_text_def MAX_LINE_SIZE_def as_bytes_def
        utf8_valid_ascii ascii_ws_def)
  moreover have "wire_response signed_response = signed_response"
    by (simp add: wire_response_def signed_response_def response_success_def json_of_nat_def wire_opt_def
        map_of_entries_def)
  moreover have "resp_error signed_response = None" "resp_result signed_response = Some
      (JObject [(''key_type'', JString ''ssh-rsa''), (''signature'', JString (b64_encode toy_base64 [7, 8]))])"
    by (simp_all add: signed_response_def response_success_def)
  ultimately show ?thesis
    using ssh_sign_end_to_end [OF toy_base64_laws, of "[1]" "[2, 3]" _ 2 4 ?peer "()" ?J signed_response "()"
        "JObject [(''key_type'', JString ''ssh-rsa''), (''signature'', JString (b64_encode toy_base64 [7, 8]))]"
        "[7, 8]" "''ssh-rsa''"]
    by (simp add: AGENT_LIMIT_def get_str_def write_line_message_def toy_text_def)
qed

text \<open>
  C36. Connecting to the avatar: \<open>connect_with_retry\<close> returns exactly when some attempt succeeds,
  after one failed attempt for each sleep, and the sleeps are 1, 2, 4, 8, 16 seconds and then
  30 seconds each; while every attempt fails it goes on.
\<close>

theorem connect_with_retry_backoff:
  "(connect_with_retry attempts = None \<longleftrightarrow> True \<notin> set attempts) \<and>
   (\<forall>sleeps rest. connect_with_retry attempts = Some (sleeps, rest) \<longrightarrow>
      attempts = replicate (length sleeps) False @ True # rest \<and>
      sleeps = map (\<lambda>i. min (2 ^ i) 30) [0..<length sleeps])"
  using retry_returns_iff [of 1 attempts] retry_attempts [of 1 attempts] retry_delays_from [of 0 attempts]
  by (simp add: connect_with_retry_def)

theorem connect_with_retry_backoff_witness:
  "connect_with_retry [False, False, True, False] = Some ([1, 2], [False]) \<and>
   connect_with_retry (replicate 7 False) = None"
  using connect_with_retry_backoff [of "replicate 7 False"]
  by (simp add: connect_with_retry_def)

end
