(* ===== verification/Daemon_Link.thy ===== *)
theory Daemon_Link
  imports Bridge Local_Api
begin

text \<open>
  The daemon as the peer of a service avatar: what the loop of crates/avatar/src/local_api.rs
  (\<open>handle_connection\<close>) does with the line of a request, with the relay and the other
  connections going on in between. It meets what the bridges assume of the avatar, so their
  properties hold of the two programs together.
\<close>

section \<open>The system as a function\<close>

text \<open>What an event of the daemon does; an event that the system does not wait for does nothing.\<close>

fun api_exec :: "avatar_env \<Rightarrow> (string \<Rightarrow> string) \<Rightarrow> api_event \<Rightarrow> api_system \<Rightarrow> api_system" where
  "api_exec E json_error (RelayEvent ev) s = s\<lparr>daemon := event_loop_step E ev (daemon s)\<rparr>"
| "api_exec E json_error (Connect c ident) s =
     (if conns s c = None then set_conn c (Some \<lparr>cn_identity = ident, cn_bound = None, cn_phase = Idle,
        cn_written = []\<rparr>) s else s)"
| "api_exec E json_error (Message c msg) s =
     (case conns s c of
        None \<Rightarrow> s
      | Some con \<Rightarrow> if cn_phase con = Idle then
          (case serve_message E con msg (daemon s) of
             (con', st') \<Rightarrow> set_conn c (Some con') (s\<lparr>daemon := st'\<rparr>)) else s)"
| "api_exec E json_error (Register c) s =
     (case conns s c of
        None \<Rightarrow> s
      | Some con \<Rightarrow> (case cn_phase con of
          Sent eid i \<Rightarrow> set_conn c (Some (con\<lparr>cn_phase := Waiting eid (next_waiter s) i\<rparr>))
            (s\<lparr>daemon := forward_wait eid (next_waiter s) (daemon s), next_waiter := next_waiter s + 1\<rparr>)
        | _ \<Rightarrow> s))"
| "api_exec E json_error (Receive c t) s =
     (case conns s c of
        None \<Rightarrow> s
      | Some con \<Rightarrow> (case cn_phase con of
          Waiting eid tx i \<Rightarrow> if (tx, t) \<in> set (delivered (daemon s))
            then finish E json_error c con i (Delivered t) s else s
        | _ \<Rightarrow> s))"
| "api_exec E json_error (SenderDropped c) s =
     (case conns s c of
        None \<Rightarrow> s
      | Some con \<Rightarrow> (case cn_phase con of
          Waiting eid tx i \<Rightarrow> if tx \<notin> snd ` set (pending (daemon s)) \<and> tx \<notin> fst ` set (delivered (daemon s))
            then finish E json_error c con i Dropped s else s
        | _ \<Rightarrow> s))"
| "api_exec E json_error (TimeOut c) s =
     (case conns s c of
        None \<Rightarrow> s
      | Some con \<Rightarrow> (case cn_phase con of
          Waiting eid tx i \<Rightarrow> finish E json_error c con i TimedOut
            (s\<lparr>daemon := forward_timeout eid (daemon s)\<rparr>)
        | _ \<Rightarrow> s))"
| "api_exec E json_error (Disconnect c) s =
     (case conns s c of
        None \<Rightarrow> s
      | Some con \<Rightarrow> if cn_phase con = Idle then set_conn c None s else s)"

text \<open>Events of the relay come with the key that signed them.\<close>

fun authored :: "(event_id \<Rightarrow> public_key) \<Rightarrow> api_event \<Rightarrow> bool" where
  "authored author (RelayEvent ev) \<longleftrightarrow> author (ev_id ev) = ev_pubkey ev"
| "authored author _ \<longleftrightarrow> True"

text \<open>It is the step relation, read as a function.\<close>

lemma api_step_exec: "api_step E json_error author s e s' \<Longrightarrow> s' = api_exec E json_error e s"
  by (erule api_step.cases) simp_all

lemma api_exec_step:
  "authored author e \<Longrightarrow>
     api_exec E json_error e s = s \<or> api_step E json_error author s e (api_exec E json_error e s)"
  by (cases e) (auto split: option.splits prod.splits phase.splits intro: api_step.intros api_step.register [simplified])

abbreviation daemon_reach :: "avatar_env \<Rightarrow> (string \<Rightarrow> string) \<Rightarrow> (event_id \<Rightarrow> public_key) \<Rightarrow> api_system \<Rightarrow> bool" where
  "daemon_reach E json_error author \<equiv> reach (\<lambda>s. s = api_init) (api_step E json_error author)"

lemma api_exec_reach:
  "daemon_reach E json_error author s \<Longrightarrow> authored author e \<Longrightarrow>
     daemon_reach E json_error author (api_exec E json_error e s)"
  using api_exec_step [of author e E json_error s] by (auto intro: reach_step)

section \<open>One request\<close>

text \<open>What the client of a connection does itself, and so does not happen while it waits.\<close>

fun of_client :: "nat \<Rightarrow> api_event \<Rightarrow> bool" where
  "of_client c (Connect d _) \<longleftrightarrow> d = c"
| "of_client c (Message d _) \<longleftrightarrow> d = c"
| "of_client c (Disconnect d) \<longleftrightarrow> d = c"
| "of_client c _ \<longleftrightarrow> False"

abbreviation others :: "nat \<Rightarrow> api_event list \<Rightarrow> bool" where
  "others c \<equiv> list_all (\<lambda>e. \<not> of_client c e)"

text \<open>
  A turn of the loop of connection \<open>c\<close>: its message, then anything that goes on while its client
  waits.
\<close>

definition daemon_turn ::
    "avatar_env \<Rightarrow> (string \<Rightarrow> string) \<Rightarrow> nat \<Rightarrow> api_event list \<Rightarrow> json_rpc_message \<Rightarrow> api_system \<Rightarrow> api_system" where
  "daemon_turn E json_error c sched msg s = fold (api_exec E json_error) (Message c msg # sched) s"

record daemon_link =
  dl_system :: api_system
  dl_schedule :: "api_event list list"

text \<open>
  What goes on until a service avatar has its answer: the next of the schedules, and at last the
  awaits of the connection itself that are still due, the entry in the table and the end of the
  30 seconds of \<open>tokio::time::timeout\<close>.
\<close>

definition link_schedule :: "nat \<Rightarrow> daemon_link \<Rightarrow> api_event list" where
  "link_schedule c l =
     filter (\<lambda>e. \<not> of_client c e) (case dl_schedule l of [] \<Rightarrow> [] | es # _ \<Rightarrow> es) @ [Register c, TimeOut c]"

definition written_since :: "connection \<Rightarrow> nat \<Rightarrow> api_system \<Rightarrow> json_rpc_response list" where
  "written_since con c s =
     (case conns s c of None \<Rightarrow> [] | Some con' \<Rightarrow> drop (length (cn_written con)) (cn_written con'))"

text \<open>
  The peer that a service avatar talks to: connection \<open>c\<close> of the daemon. A line that is not a
  message closes the connection.
\<close>

definition daemon_peer :: "avatar_env \<Rightarrow> (string \<Rightarrow> string) \<Rightarrow> nat \<Rightarrow> daemon_link peer" where
  "daemon_peer E json_error c l line =
     (case conns (dl_system l) c of
        None \<Rightarrow> None
      | Some con \<Rightarrow>
          (case read_line_message (env_J E) decode_message line of
             Inl _ \<Rightarrow> Some ([], l\<lparr>dl_system := set_conn c None (dl_system l)\<rparr>)
           | Inr (msg, _) \<Rightarrow>
               let s' = daemon_turn E json_error c (link_schedule c l) msg (dl_system l)
               in Some (concat (map (write_line_message (env_J E) encode_response) (written_since con c s')),
                    \<lparr>dl_system = s', dl_schedule = tl (dl_schedule l)\<rparr>)))"

lemma link_schedule_others: "others c (link_schedule c l)"
  by (simp add: link_schedule_def list_all_iff)

text \<open>
  What the programs rely on of the compact printer of \<open>serde_json\<close>: no line breaks, no white
  space at the end, a text that parses gives the document it was printed from, and the empty
  text is no document.
\<close>

definition compact_text :: "json_text \<Rightarrow> bool" where
  "compact_text J \<longleftrightarrow> json_from_str J [] = None \<and>
     (\<forall>v. newline \<notin> set (json_to_string J v) \<and> ws_rev_len (rev (json_to_string J v)) = 0 \<and>
        json_from_str J (json_to_string J v) \<in> {None, Some v})"

section \<open>At most one line\<close>

lemma conns_set_conn [simp]: "conns (set_conn c con s) = (conns s)(c := con)"
  by (simp add: set_conn_def)

text \<open>The events that move connection \<open>c\<close> while its client waits.\<close>

fun on_conn :: "nat \<Rightarrow> api_event \<Rightarrow> bool" where
  "on_conn c (Register d) \<longleftrightarrow> d = c"
| "on_conn c (Receive d _) \<longleftrightarrow> d = c"
| "on_conn c (SenderDropped d) \<longleftrightarrow> d = c"
| "on_conn c (TimeOut d) \<longleftrightarrow> d = c"
| "on_conn c e \<longleftrightarrow> of_client c e"

lemma api_exec_conns_other:
  "\<not> on_conn c e \<Longrightarrow> conns (api_exec E json_error e s) c = conns s c"
  by (cases e) (auto simp: finish_def split: option.splits phase.splits prod.splits)

lemma api_exec_idle:
  "conns s c = Some con \<Longrightarrow> cn_phase con = Idle \<Longrightarrow> \<not> of_client c e \<Longrightarrow>
     conns (api_exec E json_error e s) c = Some con"
  by (cases "on_conn c e") (cases e, auto simp: api_exec_conns_other)

lemma api_exec_delivered_other:
  "(\<And>ev. e \<noteq> RelayEvent ev) \<Longrightarrow> delivered (daemon (api_exec E json_error e s)) = delivered (daemon s)"
  by (cases e)
    (auto simp: finish_def forward_wait_def forward_timeout_def dest: serve_message_frame
      split: option.splits phase.splits prod.splits)

lemma fold_idle:
  "conns s c = Some con \<Longrightarrow> cn_phase con = Idle \<Longrightarrow> others c es \<Longrightarrow>
     conns (fold (api_exec E json_error) es s) c = Some con"
  by (induction es arbitrary: s) (auto dest: api_exec_idle)

text \<open>Whatever a connection was doing, it has written at most one response more, and then is idle.\<close>

definition progress :: "nat \<Rightarrow> connection \<Rightarrow> api_system \<Rightarrow> bool" where
  "progress c con0 s \<longleftrightarrow>
     (\<exists>con w. conns s c = Some con \<and> cn_written con = cn_written con0 @ w \<and>
        (cn_phase con = Idle \<or> w = []) \<and> length w \<le> 1)"

lemma progress_exec:
  assumes "progress c con0 s" and "\<not> of_client c e"
  shows "progress c con0 (api_exec E json_error e s)"
proof -
  obtain con w where con: "conns s c = Some con" "cn_written con = cn_written con0 @ w"
    "cn_phase con = Idle \<or> w = []" "length w \<le> 1" using assms(1) unfolding progress_def by blast
  show ?thesis
  proof (cases "on_conn c e")
    case False
    with con show ?thesis unfolding progress_def by (auto simp: api_exec_conns_other)
  next
    case True
    with con assms(2) show ?thesis
      by (cases e; cases "cn_phase con") (auto simp: progress_def finish_def answer_with_def)
  qed
qed

lemma progress_message:
  "conns s c = Some con \<Longrightarrow> progress c con (api_exec E json_error (Message c msg) s)"
  by (auto simp: progress_def serve_message_def answer_with_def Let_def
      split: prod.splits api_action.splits sum.splits)

lemma progress_fold:
  "progress c con0 s \<Longrightarrow> others c es \<Longrightarrow> progress c con0 (fold (api_exec E json_error) es s)"
  by (induction es arbitrary: s) (auto intro: progress_exec)

lemma turn_progress:
  "conns s c = Some con \<Longrightarrow> others c sched \<Longrightarrow> progress c con (daemon_turn E json_error c sched msg s)"
  unfolding daemon_turn_def fold_simps(2) by (rule progress_fold [OF progress_message])

lemma written_line:
  "compact_text J \<Longrightarrow> split_line (write_line_message J encode m @ rest) = (write_line_message J encode m, rest)"
  by (simp add: write_line_message_def split_line_append as_bytes_newline compact_text_def)

lemma daemon_peer_one_line:
  assumes "compact_text (env_J E)"
  shows "one_line_peer (daemon_peer E json_error c)"
  unfolding one_line_peer_def
proof (intro allI impI)
  fix l line out l' assume run: "daemon_peer E json_error c l line = Some (out, l')"
  then obtain con where con: "conns (dl_system l) c = Some con"
    by (auto simp: daemon_peer_def split: option.splits)
  show "snd (split_line out) = []"
  proof (cases "read_line_message (env_J E) decode_message line")
    case (Inr r)
    obtain msg where out: "out = concat (map (write_line_message (env_J E) encode_response)
        (written_since con c (daemon_turn E json_error c (link_schedule c l) msg (dl_system l))))"
      using run con Inr by (auto simp: daemon_peer_def Let_def split: prod.splits)
    from turn_progress [OF con link_schedule_others, of E json_error l msg] obtain w where
      "written_since con c (daemon_turn E json_error c (link_schedule c l) msg (dl_system l)) = w" "length w \<le> 1"
      by (auto simp: progress_def written_since_def)
    with out show ?thesis
      by (cases w) (auto simp: written_line [OF assms, where rest = "[]", simplified])
  qed (use run con in \<open>simp add: daemon_peer_def\<close>)
qed

section \<open>How a wait ends\<close>

text \<open>
  All of the following speaks of the events \<open>es\<close> that happened since the state \<open>s\<close>, and of the
  states in between. The text \<open>t\<close> answered the event \<open>eid\<close>: one of these events is a relay event
  that arrived while connection \<open>c\<close> waited for \<open>eid\<close>, replies to it and decrypts to \<open>t\<close>.
\<close>

definition answered_by ::
    "avatar_env \<Rightarrow> (string \<Rightarrow> string) \<Rightarrow> nat \<Rightarrow> api_event list \<Rightarrow> api_system \<Rightarrow> event_id \<Rightarrow> string \<Rightarrow> bool" where
  "answered_by E json_error c es s eid t \<longleftrightarrow>
     (\<exists>es1 ev es2 s1 tx. es = es1 @ RelayEvent ev # es2 \<and> s1 = fold (api_exec E json_error) es1 s \<and>
        waits s1 c eid tx \<and> reply_target E ev = Some eid \<and> decrypt_event E (daemon s1) ev = Some t)"

text \<open>Another connection waited for the same event, so that its entry took the place of \<open>c\<close>'s.\<close>

definition displaced ::
    "avatar_env \<Rightarrow> (string \<Rightarrow> string) \<Rightarrow> nat \<Rightarrow> api_event list \<Rightarrow> api_system \<Rightarrow> event_id \<Rightarrow> bool" where
  "displaced E json_error c es s eid \<longleftrightarrow>
     (\<exists>es1 es2 d tx. es = es1 @ es2 \<and> d \<noteq> c \<and> waits (fold (api_exec E json_error) es1 s) d eid tx)"

text \<open>Connection \<open>c\<close> waited for \<open>eid\<close>, and one of the events ended its wait in this way.\<close>

definition wait_ended ::
    "avatar_env \<Rightarrow> (string \<Rightarrow> string) \<Rightarrow> nat \<Rightarrow> api_event list \<Rightarrow> api_system \<Rightarrow> event_id \<Rightarrow> wait_outcome \<Rightarrow> bool" where
  "wait_ended E json_error c es s eid outcome \<longleftrightarrow>
     (\<exists>es1 e es2 tx. es = es1 @ e # es2 \<and> waits (fold (api_exec E json_error) es1 s) c eid tx \<and>
        (case outcome of
           Delivered t \<Rightarrow> e = Receive c t \<and> answered_by E json_error c es1 s eid t
         | Dropped \<Rightarrow> e = SenderDropped c \<and> displaced E json_error c es1 s eid
         | TimedOut \<Rightarrow> e = TimeOut c))"

lemma answered_by_later: "answered_by E json_error c es s eid t \<Longrightarrow> answered_by E json_error c (es @ es') s eid t"
  unfolding answered_by_def by (metis append.assoc append_Cons)

lemma displaced_later: "displaced E json_error c es s eid \<Longrightarrow> displaced E json_error c (es @ es') s eid"
  unfolding displaced_def by (metis append.assoc)

lemma wait_ended_later: "wait_ended E json_error c es s eid outcome \<Longrightarrow> wait_ended E json_error c (es @ es') s eid outcome"
  unfolding wait_ended_def by (metis append.assoc append_Cons)

lemma wait_ended_now:
  assumes "waits (fold (api_exec E json_error) es s) c eid tx"
    and "case outcome of
        Delivered t \<Rightarrow> e = Receive c t \<and> answered_by E json_error c es s eid t
      | Dropped \<Rightarrow> e = SenderDropped c \<and> displaced E json_error c es s eid
      | TimedOut \<Rightarrow> e = TimeOut c"
  shows "wait_ended E json_error c (es @ [e]) s eid outcome"
  unfolding wait_ended_def using assms by blast

text \<open>
  A request that was forwarded as the event \<open>eid\<close>: the connection \<open>con0\<close> was to answer it, and the
  events \<open>es\<close> have happened since the state \<open>s\<close>.
\<close>

definition forward_stage ::
    "avatar_env \<Rightarrow> (string \<Rightarrow> string) \<Rightarrow> nat \<Rightarrow> connection \<Rightarrow> event_id \<Rightarrow> json \<Rightarrow> api_event list \<Rightarrow> api_system \<Rightarrow>
      connection \<Rightarrow> avatar_state \<Rightarrow> bool" where
  "forward_stage E json_error c con0 eid i es s con st \<longleftrightarrow>
     cn_identity con = cn_identity con0 \<and> cn_bound con = cn_bound con0 \<and>
     (case cn_phase con of
        Sent eid' i' \<Rightarrow> eid' = eid \<and> i' = i \<and> cn_written con = cn_written con0
      | Waiting eid' tx i' \<Rightarrow> eid' = eid \<and> i' = i \<and> cn_written con = cn_written con0 \<and>
          (\<forall>t. (tx, t) \<in> set (delivered st) \<longrightarrow> answered_by E json_error c es s eid t) \<and>
          (hm_get (pending st) eid = Some tx \<or> tx \<in> fst ` set (delivered st) \<or> displaced E json_error c es s eid)
      | Idle \<Rightarrow> \<exists>outcome. cn_written con = cn_written con0 @ [forward_answer (env_J E) json_error i outcome] \<and>
          wait_ended E json_error c es s eid outcome)"

definition forwarded ::
    "avatar_env \<Rightarrow> (string \<Rightarrow> string) \<Rightarrow> nat \<Rightarrow> connection \<Rightarrow> event_id \<Rightarrow> json \<Rightarrow> api_event list \<Rightarrow> api_system \<Rightarrow> bool" where
  "forwarded E json_error c con0 eid i es s \<longleftrightarrow>
     (\<exists>con. conns (fold (api_exec E json_error) es s) c = Some con \<and>
        forward_stage E json_error c con0 eid i es s con (daemon (fold (api_exec E json_error) es s)))"

lemma forwarded_iff:
  "conns (fold (api_exec E json_error) es s) c = Some con \<Longrightarrow> forwarded E json_error c con0 eid i es s \<longleftrightarrow>
     forward_stage E json_error c con0 eid i es s con (daemon (fold (api_exec E json_error) es s))"
  by (simp add: forwarded_def)

text \<open>What a relay event does for a waiter.\<close>

lemma relay_delivers:
  assumes "table_ok s" and "waits s c eid tx" and "(tx, t) \<in> set (delivered (event_loop_step E ev (daemon s)))"
  shows "(tx, t) \<in> set (delivered (daemon s)) \<or>
    reply_target E ev = Some eid \<and> decrypt_event E (daemon s) ev = Some t"
proof (cases "(tx, t) \<in> set (delivered (daemon s))")
  case new: False
  from new assms(3) event_loop_pending [of E ev "daemon s"] obtain eid' where
    ev: "reply_target E ev = Some eid'" "decrypt_event E (daemon s) ev = Some t"
    and tx: "hm_get (pending (daemon s)) eid' = Some tx"
    by (auto split: option.splits)
  obtain d where d: "waits s d eid' tx" using table_ok_entry [OF assms(1) tx] by blast
  from table_ok_unique [OF assms(1) d assms(2)] d waits_unique [OF assms(2)] have "eid' = eid" by blast
  with ev show ?thesis by blast
qed simp

lemma relay_keeps_entry:
  "hm_get (pending st) eid = Some tx \<Longrightarrow>
     hm_get (pending (event_loop_step E ev st)) eid = Some tx \<or> tx \<in> fst ` set (delivered (event_loop_step E ev st))"
  using event_loop_pending [of E ev st] by (auto simp: hm_get_remove)

lemma relay_keeps_delivered: "set (delivered st) \<subseteq> set (delivered (event_loop_step E ev st))"
  using event_loop_pending [of E ev st] by auto

text \<open>Only a connection that waits for an event touches the entry of that event.\<close>

lemma api_exec_entry_other:
  assumes "\<not> on_conn c e" and "\<And>ev. e \<noteq> RelayEvent ev" and "hm_get (pending (daemon s)) eid = Some tx"
  shows "hm_get (pending (daemon (api_exec E json_error e s))) eid = Some tx \<or>
    (\<exists>d tx'. d \<noteq> c \<and> (waits s d eid tx' \<or> waits (api_exec E json_error e s) d eid tx'))"
proof (cases e)
  case (Register d)
  show ?thesis
  proof (cases "conns s d")
    case (Some con)
    with assms Register show ?thesis
      by (cases "cn_phase con") (auto simp: waits_set_conn forward_wait_def hm_get_insert)
  qed (use assms Register in simp)
next
  case (TimeOut d)
  show ?thesis
  proof (cases "conns s d")
    case (Some con)
    with assms TimeOut show ?thesis
      by (cases "cn_phase con") (auto simp: finish_def forward_timeout_def hm_get_remove waits_def)
  qed (use assms TimeOut in simp)
qed (use assms in \<open>auto simp: finish_def dest: serve_message_frame split: option.splits phase.splits prod.splits\<close>)

lemma fold_snoc: "fold f (es @ [e]) s = f e (fold f es s)"
  by simp

lemma forwarded_relay:
  assumes "table_ok (fold (api_exec E json_error) es s)" and "forwarded E json_error c con0 eid i es s"
  shows "forwarded E json_error c con0 eid i (es @ [RelayEvent ev]) s"
proof -
  let ?s = "fold (api_exec E json_error) es s"
  obtain con where con: "conns ?s c = Some con" using assms(2) unfolding forwarded_def by blast
  note fwd = assms(2) [unfolded forwarded_iff [OF con] forward_stage_def]
  have now: "answered_by E json_error c (es @ [RelayEvent ev]) s eid t"
    if "waits ?s c eid tx" "reply_target E ev = Some eid" "decrypt_event E (daemon ?s) ev = Some t" for tx t
    unfolding answered_by_def using that by blast
  show ?thesis
  proof (cases "cn_phase con")
    case (Waiting eid' tx i')
    with fwd have eid: "eid' = eid" "i' = i"
      and old: "\<And>t. (tx, t) \<in> set (delivered (daemon ?s)) \<Longrightarrow> answered_by E json_error c es s eid t"
      and entry: "hm_get (pending (daemon ?s)) eid = Some tx \<or> tx \<in> fst ` set (delivered (daemon ?s)) \<or>
        displaced E json_error c es s eid" by simp_all
    have waits: "waits ?s c eid tx" using con Waiting eid by (simp add: waits_def)
    have "answered_by E json_error c (es @ [RelayEvent ev]) s eid t"
      if "(tx, t) \<in> set (delivered (event_loop_step E ev (daemon ?s)))" for t
      using relay_delivers [OF assms(1) waits that] old now [OF waits] answered_by_later by blast
    moreover have "hm_get (pending (event_loop_step E ev (daemon ?s))) eid = Some tx \<or>
        tx \<in> fst ` set (delivered (event_loop_step E ev (daemon ?s))) \<or> displaced E json_error c (es @ [RelayEvent ev]) s eid"
      using entry relay_keeps_entry [of "daemon ?s" eid tx E ev] relay_keeps_delivered [of "daemon ?s" E ev]
        displaced_later by blast
    ultimately show ?thesis using con fwd Waiting eid by (simp add: forwarded_def forward_stage_def)
  qed (use con fwd wait_ended_later [of E json_error c es s eid _ "[RelayEvent ev]"] in
      \<open>auto simp: forwarded_def forward_stage_def\<close>)
qed

lemma forwarded_other:
  assumes "forwarded E json_error c con0 eid i es s" and "\<not> on_conn c e" and "\<And>ev. e \<noteq> RelayEvent ev"
  shows "forwarded E json_error c con0 eid i (es @ [e]) s"
proof -
  let ?s = "fold (api_exec E json_error) es s"
  obtain con where con: "conns ?s c = Some con" using assms(1) unfolding forwarded_def by blast
  note fwd = assms(1) [unfolded forwarded_iff [OF con] forward_stage_def]
  have con': "conns (api_exec E json_error e ?s) c = Some con" using api_exec_conns_other [OF assms(2)] con by simp
  have same: "delivered (daemon (api_exec E json_error e ?s)) = delivered (daemon ?s)"
    by (rule api_exec_delivered_other [OF assms(3)])
  show ?thesis
  proof (cases "cn_phase con")
    case (Waiting eid' tx i')
    have "displaced E json_error c (es @ [e]) s eid"
      if "d \<noteq> c" "waits ?s d eid tx' \<or> waits (api_exec E json_error e ?s) d eid tx'" for d tx'
      using that(2)
    proof
      assume "waits ?s d eid tx'"
      with that(1) show ?thesis unfolding displaced_def by blast
    next
      assume "waits (api_exec E json_error e ?s) d eid tx'"
      with that(1) show ?thesis unfolding displaced_def
        by (intro exI [of _ "es @ [e]"] exI [of _ "[]"] exI [of _ d] exI [of _ tx']) simp
    qed
    with api_exec_entry_other [OF assms(2,3), of ?s eid tx E json_error] fwd Waiting
    have "hm_get (pending (daemon (api_exec E json_error e ?s))) eid = Some tx \<or>
        tx \<in> fst ` set (delivered (daemon (api_exec E json_error e ?s))) \<or> displaced E json_error c (es @ [e]) s eid"
      using displaced_later [of E json_error c es s eid "[e]"] unfolding same by auto
    with con' fwd Waiting answered_by_later same show ?thesis by (auto simp: forwarded_def forward_stage_def)
  qed (use con' fwd wait_ended_later [of E json_error c es s eid _ "[e]"] in \<open>auto simp: forwarded_def forward_stage_def\<close>)
qed

lemma forwarded_on_conn:
  assumes "table_ok (fold (api_exec E json_error) es s)" and "forwarded E json_error c con0 eid i es s"
    and "on_conn c e" and "\<not> of_client c e"
  shows "forwarded E json_error c con0 eid i (es @ [e]) s"
proof -
  let ?s = "fold (api_exec E json_error) es s"
  obtain con where con: "conns ?s c = Some con" using assms(2) unfolding forwarded_def by blast
  note fwd = assms(2) [unfolded forwarded_iff [OF con] forward_stage_def]
  have fresh: "(next_waiter ?s, t) \<notin> set (delivered (daemon ?s))" for t
    using table_ok_delivered [OF assms(1)] by blast
  show ?thesis
  proof (cases "cn_phase con")
    case Idle
    have "conns (api_exec E json_error e ?s) c = Some con" by (rule api_exec_idle [OF con Idle assms(4)])
    with fwd Idle wait_ended_later [of E json_error c es s eid _ "[e]"] show ?thesis by (auto simp: forwarded_def forward_stage_def)
  next
    case (Sent eid' i')
    with con fwd fresh assms(3,4) show ?thesis
      by (cases e) (auto simp: forwarded_def forward_stage_def forward_wait_def hm_get_insert)
  next
    case (Waiting eid' tx i')
    with con fwd have waits: "waits ?s c eid tx" by (simp add: waits_def)
    have ends: "forwarded E json_error c con0 eid i (es @ [e]) s"
      if "conns (api_exec E json_error e ?s) c = Some (answer_with (forward_answer (env_J E) json_error i outcome) con)"
        and "wait_ended E json_error c (es @ [e]) s eid outcome" for outcome
      using that fwd Waiting by (auto simp: forwarded_def forward_stage_def answer_with_def)
    note ended = wait_ended_now [OF waits]
    have stays: "forwarded E json_error c con0 eid i (es @ [e]) s" if "api_exec E json_error e ?s = ?s"
      using that con fwd Waiting answered_by_later [of E json_error c es s eid _ "[e]"]
        displaced_later [of E json_error c es s eid "[e]"] by (auto simp: forwarded_def forward_stage_def)
    show ?thesis
    proof (cases e)
      case (Receive d t)
      with assms(3) have e: "e = Receive c t" by simp
      show ?thesis
      proof (cases "(tx, t) \<in> set (delivered (daemon ?s))")
        case True
        with fwd Waiting have "answered_by E json_error c es s eid t" by simp
        with ended [where outcome = "Delivered t" and e = e] e have "wait_ended E json_error c (es @ [e]) s eid (Delivered t)" by simp
        with ends con Waiting fwd e True show ?thesis by (simp add: finish_def)
      qed (use stays con Waiting e in simp)
    next
      case (SenderDropped d)
      with assms(3) have e: "e = SenderDropped c" by simp
      show ?thesis
      proof (cases "tx \<notin> snd ` set (pending (daemon ?s)) \<and> tx \<notin> fst ` set (delivered (daemon ?s))")
        case True
        then have "hm_get (pending (daemon ?s)) eid \<noteq> Some tx" by (force dest: map_of_SomeD)
        with fwd Waiting True have "displaced E json_error c es s eid" by simp
        with ended [where outcome = Dropped and e = e] e have "wait_ended E json_error c (es @ [e]) s eid Dropped" by simp
        with ends con Waiting fwd e True show ?thesis by (simp add: finish_def)
      next
        case False
        show ?thesis by (rule stays) (use False con Waiting e in auto)
      qed
    next
      case (TimeOut d)
      with assms(3) have e: "e = TimeOut c" by simp
      with ended [where outcome = TimedOut and e = e] have "wait_ended E json_error c (es @ [e]) s eid TimedOut" by simp
      with ends con Waiting fwd e show ?thesis by (simp add: finish_def)
    qed (use stays con Waiting assms(3,4) in simp_all)
  qed
qed

lemma forwarded_exec:
  assumes "table_ok (fold (api_exec E json_error) es s)" and "\<not> of_client c e" and "forwarded E json_error c con0 eid i es s"
  shows "forwarded E json_error c con0 eid i (es @ [e]) s"
  using forwarded_on_conn [OF assms(1,3) _ assms(2)] forwarded_relay [OF assms(1,3)] forwarded_other [OF assms(3)]
  by blast

lemma api_exec_inv:
  "api_inv author s \<Longrightarrow> iter_order (env_order E) \<Longrightarrow> authored author e \<Longrightarrow> api_inv author (api_exec E json_error e s)"
  using api_exec_step [of author e E json_error s] by (auto intro: api_step_inv)

lemma fold_inv:
  "api_inv author s \<Longrightarrow> iter_order (env_order E) \<Longrightarrow> list_all (authored author) es \<Longrightarrow>
     api_inv author (fold (api_exec E json_error) es s)"
  by (induction es arbitrary: s) (auto intro: api_exec_inv)

lemma forwarded_fold:
  assumes "api_inv author s" and "iter_order (env_order E)" and "forwarded E json_error c con0 eid i es s"
    and "list_all (authored author) es"
  shows "list_all (authored author) es' \<Longrightarrow> others c es' \<Longrightarrow> forwarded E json_error c con0 eid i (es @ es') s"
proof (induction es' rule: rev_induct)
  case (snoc e es')
  have "api_inv author (fold (api_exec E json_error) (es @ es') s)"
    using fold_inv [OF assms(1,2), of "es @ es'" json_error] assms(4) snoc.prems(1) by simp
  then have "table_ok (fold (api_exec E json_error) (es @ es') s)" by (simp add: api_inv_def)
  from forwarded_exec [OF this _ snoc.IH, of e] snoc.prems show ?case by simp
qed (use assms(3) in simp)

lemma fold_reach:
  "daemon_reach E json_error author s \<Longrightarrow> list_all (authored author) es \<Longrightarrow>
     daemon_reach E json_error author (fold (api_exec E json_error) es s)"
  by (induction es arbitrary: s) (auto intro: api_exec_reach)

text \<open>Entered in the table, or with its wait over, a connection is idle after its timeout.\<close>

definition past_send :: "nat \<Rightarrow> api_system \<Rightarrow> bool" where
  "past_send c s \<longleftrightarrow> (\<exists>con. conns s c = Some con \<and> (\<forall>eid i. cn_phase con \<noteq> Sent eid i))"

lemma past_send_exec: "past_send c s \<Longrightarrow> \<not> of_client c e \<Longrightarrow> past_send c (api_exec E json_error e s)"
  unfolding past_send_def
  by (cases "on_conn c e") (cases e, auto simp: api_exec_conns_other finish_def answer_with_def split: phase.split)

lemma past_send_fold: "past_send c s \<Longrightarrow> others c es \<Longrightarrow> past_send c (fold (api_exec E json_error) es s)"
  by (induction es arbitrary: s) (auto intro: past_send_exec)

lemma past_send_register: "conns s c \<noteq> None \<Longrightarrow> past_send c (api_exec E json_error (Register c) s)"
  by (auto simp: past_send_def split: phase.split)

lemma past_send_timeout:
  "past_send c s \<Longrightarrow> \<exists>con. conns (api_exec E json_error (TimeOut c) s) c = Some con \<and> cn_phase con = Idle"
  by (auto simp: past_send_def finish_def answer_with_def split: phase.split)

lemma fold_alive: "conns s c \<noteq> None \<Longrightarrow> others c es \<Longrightarrow> conns (fold (api_exec E json_error) es s) c \<noteq> None"
proof (induction es arbitrary: s)
  case (Cons e es)
  have "conns (api_exec E json_error e s) c \<noteq> None"
    using Cons.prems by (cases "on_conn c e") (cases e, auto simp: api_exec_conns_other finish_def split: phase.split)
  with Cons show ?case by simp
qed simp

lemma ends_idle:
  assumes "conns s c \<noteq> None" and "others c (xs @ Register c # ys @ TimeOut c # zs)"
  shows "\<exists>con. conns (fold (api_exec E json_error) (xs @ Register c # ys @ TimeOut c # zs) s) c = Some con \<and> cn_phase con = Idle"
proof -
  let ?run = "fold (api_exec E json_error)"
  have es: "others c xs" "others c ys" "others c zs" using assms(2) by simp_all
  have "past_send c (?run ys (api_exec E json_error (Register c) (?run xs s)))"
    by (intro past_send_fold past_send_register fold_alive [OF assms(1)] es)
  from past_send_timeout [OF this, of E json_error] obtain con where
    "conns (api_exec E json_error (TimeOut c) (?run ys (api_exec E json_error (Register c) (?run xs s)))) c = Some con"
    "cn_phase con = Idle" by blast
  from fold_idle [OF this es(3), of E json_error] this(2) show ?thesis by (simp del: api_exec.simps)
qed

section \<open>Where a response comes from\<close>

text \<open>
  The response that a message gets, by what \<open>handle_message\<close> decides; \<open>es\<close> are the events since
  the state \<open>s\<close> in which the message came, itself included.
\<close>

definition turn_response ::
    "avatar_env \<Rightarrow> (string \<Rightarrow> string) \<Rightarrow> nat \<Rightarrow> connection \<Rightarrow> json_rpc_message \<Rightarrow> api_event list \<Rightarrow> api_system \<Rightarrow>
      json_rpc_response \<Rightarrow> bool" where
  "turn_response E json_error c con msg es s r \<longleftrightarrow>
     (case snd (handle_message (cn_bound con) msg) of
        Ignore \<Rightarrow> False
      | Reply r' \<Rightarrow> r = r'
      | Forward svc req \<Rightarrow>
          (case forward_send E (cn_identity con) svc req (daemon s) of
             (Inl r', _) \<Rightarrow> r = r'
           | (Inr eid, _) \<Rightarrow> \<exists>outcome. r = forward_answer (env_J E) json_error (request_id req) outcome \<and>
               wait_ended E json_error c es s eid outcome))"

text \<open>After its message, a connection is idle with its response written, or forwards.\<close>

definition turn_forwards ::
    "avatar_env \<Rightarrow> connection \<Rightarrow> json_rpc_message \<Rightarrow> api_system \<Rightarrow> event_id \<Rightarrow> json \<Rightarrow> bool" where
  "turn_forwards E con msg s eid i \<longleftrightarrow>
     (\<exists>svc req. snd (handle_message (cn_bound con) msg) = Forward svc req \<and> i = request_id req \<and>
        fst (forward_send E (cn_identity con) svc req (daemon s)) = Inr eid)"

lemma turn_begins:
  assumes "conns s c = Some con" and "cn_phase con = Idle" and "is_request msg"
    and "bound = fst (handle_message (cn_bound con) msg)"
  shows "(\<exists>r. conns (api_exec E json_error (Message c msg) s) c = Some (con\<lparr>cn_bound := bound, cn_written := cn_written con @ [r]\<rparr>) \<and>
      (\<forall>es. turn_response E json_error c con msg es s r)) \<or>
    (\<exists>eid i. turn_forwards E con msg s eid i \<and>
      forwarded E json_error c (con\<lparr>cn_bound := bound\<rparr>) eid i [Message c msg] s)"
proof (cases "snd (handle_message (cn_bound con) msg)")
  case Ignore
  with assms(3) have False by (auto simp: handle_message_def is_request_def Let_def split: option.splits if_splits)
  then show ?thesis ..
next
  case (Reply r)
  have "conns (api_exec E json_error (Message c msg) s) c = Some (con\<lparr>cn_bound := bound, cn_written := cn_written con @ [r]\<rparr>)"
    using assms Reply by (auto simp: serve_message_def answer_with_def Let_def split: prod.split)
  then show ?thesis using Reply by (auto simp: turn_response_def)
next
  case (Forward svc req)
  obtain x st' where send: "forward_send E (cn_identity con) svc req (daemon s) = (x, st')" by fastforce
  have s1: "api_exec E json_error (Message c msg) s = set_conn c (Some (case x of
      Inl r \<Rightarrow> answer_with r (con\<lparr>cn_bound := bound\<rparr>)
    | Inr eid \<Rightarrow> con\<lparr>cn_bound := bound, cn_phase := Sent eid (request_id req)\<rparr>)) (s\<lparr>daemon := st'\<rparr>)"
    using assms(1,2,4) Forward
    by (auto simp: serve_message_def Let_def send split: prod.split sum.split)
  show ?thesis
  proof (cases x)
    case (Inl r)
    with assms(2) have "conns (api_exec E json_error (Message c msg) s) c = Some (con\<lparr>cn_bound := bound, cn_written := cn_written con @ [r]\<rparr>)"
      by (simp add: s1 answer_with_def del: api_exec.simps)
    then show ?thesis using Forward Inl send by (auto simp: turn_response_def)
  next
    case (Inr eid)
    have "forwarded E json_error c (con\<lparr>cn_bound := bound\<rparr>) eid (request_id req) [Message c msg] s"
      using Inr by (simp add: forwarded_def forward_stage_def s1 del: api_exec.simps)
    moreover have "turn_forwards E con msg s eid (request_id req)"
      using Forward Inr send by (auto simp: turn_forwards_def)
    ultimately show ?thesis by blast
  qed
qed

text \<open>The turn: answered, or still on its way.\<close>

lemma turn_state:
  assumes "api_inv author s" and "iter_order (env_order E)" and "list_all (authored author) sched" and "others c sched"
    and "conns s c = Some con" and "cn_phase con = Idle" and "is_request msg"
    and "bound = fst (handle_message (cn_bound con) msg)"
  shows "(\<exists>r. conns (daemon_turn E json_error c sched msg s) c = Some (con\<lparr>cn_bound := bound, cn_written := cn_written con @ [r]\<rparr>) \<and>
      turn_response E json_error c con msg (Message c msg # sched) s r) \<or>
    (\<exists>con' eid i. turn_forwards E con msg s eid i \<and> conns (daemon_turn E json_error c sched msg s) c = Some con' \<and>
      cn_bound con' = bound \<and> cn_written con' = cn_written con \<and>
      (cn_phase con' = Sent eid i \<or> (\<exists>tx. cn_phase con' = Waiting eid tx i)))"
  using turn_begins [OF assms(5-8), of E json_error]
proof (elim disjE exE conjE)
  fix r assume one: "conns (api_exec E json_error (Message c msg) s) c = Some (con\<lparr>cn_bound := bound, cn_written := cn_written con @ [r]\<rparr>)"
    and r: "\<forall>es. turn_response E json_error c con msg es s r"
  from fold_idle [OF one _ assms(4)] assms(6) r show ?thesis
    unfolding daemon_turn_def by (auto simp del: api_exec.simps)
next
  fix eid i assume i: "turn_forwards E con msg s eid i"
    and fwd: "forwarded E json_error c (con\<lparr>cn_bound := bound\<rparr>) eid i [Message c msg] s"
  have turn: "daemon_turn E json_error c sched msg s = fold (api_exec E json_error) ([Message c msg] @ sched) s"
    by (simp add: daemon_turn_def)
  have "forwarded E json_error c (con\<lparr>cn_bound := bound\<rparr>) eid i ([Message c msg] @ sched) s"
    by (rule forwarded_fold [OF assms(1,2) fwd _ assms(3,4)]) simp
  then obtain con' where con': "conns (daemon_turn E json_error c sched msg s) c = Some con'"
    and stage: "forward_stage E json_error c (con\<lparr>cn_bound := bound\<rparr>) eid i ([Message c msg] @ sched) s con'
      (daemon (daemon_turn E json_error c sched msg s))"
    unfolding forwarded_def turn [symmetric] by blast
  then have same: "cn_identity con' = cn_identity con" "cn_bound con' = bound" by (simp_all add: forward_stage_def)
  show ?thesis
  proof (cases "cn_phase con'")
    case Idle
    with stage obtain outcome where w: "cn_written con' = cn_written con @ [forward_answer (env_J E) json_error i outcome]"
      and o: "wait_ended E json_error c (Message c msg # sched) s eid outcome" by (auto simp: forward_stage_def)
    with same Idle assms(6) have "con' = con\<lparr>cn_bound := bound,
        cn_written := cn_written con @ [forward_answer (env_J E) json_error i outcome]\<rparr>"
      by (cases con; cases con') simp
    moreover have "turn_response E json_error c con msg (Message c msg # sched) s (forward_answer (env_J E) json_error i outcome)"
      using i o by (auto simp: turn_forwards_def turn_response_def split: prod.splits intro!: exI [of _ outcome])
    ultimately show ?thesis using con' by blast
  qed (use con' same stage i in \<open>auto simp: forward_stage_def\<close>)
qed

lemma turn_reach:
  "daemon_reach E json_error author s \<Longrightarrow> list_all (authored author) sched \<Longrightarrow>
     daemon_reach E json_error author (daemon_turn E json_error c sched msg s)"
  unfolding daemon_turn_def by (intro fold_reach) simp_all

lemma turn_idle:
  assumes "conns s c = Some con" and "others c (xs @ Register c # ys @ TimeOut c # zs)"
  shows "\<exists>con'. conns (daemon_turn E json_error c (xs @ Register c # ys @ TimeOut c # zs) msg s) c = Some con' \<and> cn_phase con' = Idle"
proof -
  have "conns (api_exec E json_error (Message c msg) s) c \<noteq> None"
    using progress_message [OF assms(1), of E json_error msg] by (auto simp: progress_def)
  from ends_idle [OF this assms(2)] show ?thesis by (simp add: daemon_turn_def del: api_exec.simps)
qed

lemma turn_answers:
  assumes "daemon_reach E json_error author s" and "iter_order (env_order E)" and "list_all (authored author) sched"
    and "conns s c = Some con" and "cn_phase con = Idle" and "is_request msg"
    and "others c sched" and "sched = xs @ Register c # ys @ TimeOut c # zs"
  shows "\<exists>r. conns (daemon_turn E json_error c sched msg s) c =
      Some (con\<lparr>cn_bound := fst (handle_message (cn_bound con) msg), cn_written := cn_written con @ [r]\<rparr>) \<and>
    turn_response E json_error c con msg (Message c msg # sched) s r"
  using turn_state [OF api_reach_inv [OF assms(2,1)] assms(2,3,7,4-6) refl, of json_error]
    turn_idle [OF assms(4), of xs ys zs E json_error msg] assms(7,8) by fastforce

section \<open>The daemon behind a service avatar\<close>

text \<open>A daemon that got here from its start, with connection \<open>c\<close> idle or closed.\<close>

definition link_ok ::
    "avatar_env \<Rightarrow> (string \<Rightarrow> string) \<Rightarrow> (event_id \<Rightarrow> public_key) \<Rightarrow> nat \<Rightarrow> daemon_link \<Rightarrow> bool" where
  "link_ok E json_error author c l \<longleftrightarrow>
     daemon_reach E json_error author (dl_system l) \<and> list_all (list_all (authored author)) (dl_schedule l) \<and>
     (\<forall>con. conns (dl_system l) c = Some con \<longrightarrow> cn_phase con = Idle)"

lemma link_schedule_authored:
  "link_ok E json_error author c l \<Longrightarrow> list_all (authored author) (link_schedule c l)"
  by (cases "dl_schedule l") (auto simp: link_ok_def link_schedule_def list_all_iff)

lemma link_ok_rest: "link_ok E json_error author c l \<Longrightarrow> list_all (list_all (authored author)) (tl (dl_schedule l))"
  by (cases "dl_schedule l") (simp_all add: link_ok_def)

lemma link_schedule_ends: "\<exists>xs. link_schedule c l = xs @ Register c # [] @ TimeOut c # []"
  by (simp add: link_schedule_def)

lemma daemon_peer_keeps_link: "peer_keeps (link_ok E json_error author c) (daemon_peer E json_error c)"
  unfolding peer_keeps_def
proof (intro allI impI)
  fix l line out l' assume ok: "link_ok E json_error author c l"
    and run: "daemon_peer E json_error c l line = Some (out, l')"
  from run obtain con where con: "conns (dl_system l) c = Some con"
    by (auto simp: daemon_peer_def split: option.splits)
  have reach: "daemon_reach E json_error author (dl_system l)" and idle: "cn_phase con = Idle"
    using ok con by (simp_all add: link_ok_def)
  show "link_ok E json_error author c l'"
  proof (cases "read_line_message (env_J E) decode_message line")
    case (Inl e)
    have "daemon_reach E json_error author (api_exec E json_error (Disconnect c) (dl_system l))"
      using reach by (rule api_exec_reach) simp
    with Inl run con idle ok show ?thesis by (auto simp: daemon_peer_def link_ok_def)
  next
    case (Inr r)
    then obtain msg where l': "l' = \<lparr>dl_system = daemon_turn E json_error c (link_schedule c l) msg (dl_system l),
        dl_schedule = tl (dl_schedule l)\<rparr>"
      using run con by (auto simp: daemon_peer_def Let_def split: prod.splits)
    obtain xs where "link_schedule c l = xs @ Register c # [] @ TimeOut c # []" using link_schedule_ends by blast
    with turn_idle [OF con, of xs "[]" "[]" E json_error msg] link_schedule_others [of c l]
    have "\<forall>con'. conns (dl_system l') c = Some con' \<longrightarrow> cn_phase con' = Idle" by (auto simp: l')
    with link_ok_rest [OF ok] turn_reach [OF reach link_schedule_authored [OF ok]] show ?thesis
      by (simp add: l' link_ok_def)
  qed
qed

lemma compact_read:
  assumes "compact_text J" and "read_line_message J decode (write_line_message J encode m @ rest) = Inr (x, rest')"
  shows "decode (encode m) = Some x \<and> rest' = rest"
proof -
  let ?t = "json_to_string J (encode m)"
  have laws: "ws_rev_len (rev ?t) = 0" "json_from_str J ?t \<in> {None, Some (encode m)}"
    using assms(1) by (auto simp: compact_text_def)
  have line: "write_line_message J encode m = as_bytes (?t @ [newline])"
    by (simp add: write_line_message_def as_bytes_line)
  note split = written_line [OF assms(1), of encode m rest, unfolded line]
  note read = assms(2) [unfolded line read_line_message_def split]
  from read have "utf8_valid (as_bytes (?t @ [newline]))"
    by (auto simp: from_utf8_def simp del: as_bytes_append split: if_splits)
  from from_utf8_as_bytes [OF this] read laws show ?thesis
    by (auto simp: trim_end_newline simp del: as_bytes_append split: if_splits option.splits)
qed

lemma daemon_own_response:
  assumes "compact_text (env_J E)" and "iter_order (env_order E)" and "link_ok E json_error author c l"
    and "own_response (env_J E) (daemon_peer E json_error c) l req = Inr resp"
    and "msg = message_of_request (wire_request req)"
  shows "\<exists>con r. conns (dl_system l) c = Some con \<and> resp = wire_response r \<and>
    turn_response E json_error c con msg (Message c msg # link_schedule c l) (dl_system l) r"
proof -
  let ?line = "write_line_message (env_J E) encode_request req"
  obtain out l' where peer: "daemon_peer E json_error c l ?line = Some (out, l')"
    and resp: "\<exists>rest. read_line_message (env_J E) decode_response out = Inr (resp, rest)"
    using assms(4) by (auto simp: own_response_def split: option.splits prod.splits sum.splits)
  from peer obtain con where con: "conns (dl_system l) c = Some con"
    by (auto simp: daemon_peer_def split: option.splits)
  have idle: "cn_phase con = Idle" using assms(3) con by (simp add: link_ok_def)
  show ?thesis
  proof (cases "read_line_message (env_J E) decode_message ?line")
    case (Inl e)
    with peer con have "out = []" by (simp add: daemon_peer_def)
    with resp show ?thesis by (auto simp: read_line_message_def split: option.splits if_splits)
  next
    case (Inr p)
    obtain msg' rest where p: "p = (msg', rest)" by fastforce
    have msg: "msg' = msg"
      using compact_read [OF assms(1), of decode_message encode_request req "[]"] Inr p
      by (simp add: decode_message_encode_request assms(5))
    have is_req: "is_request msg" by (simp add: is_request_def message_of_request_def assms(5))
    have reach: "daemon_reach E json_error author (dl_system l)" using assms(3) by (simp add: link_ok_def)
    obtain xs where "link_schedule c l = xs @ Register c # [] @ TimeOut c # []" using link_schedule_ends by blast
    from turn_answers [OF reach assms(2) link_schedule_authored [OF assms(3)] con idle is_req link_schedule_others this] obtain r where
      turn: "conns (daemon_turn E json_error c (link_schedule c l) msg (dl_system l)) c =
        Some (con\<lparr>cn_bound := fst (handle_message (cn_bound con) msg), cn_written := cn_written con @ [r]\<rparr>)"
      and r: "turn_response E json_error c con msg (Message c msg # link_schedule c l) (dl_system l) r" by blast
    have "out = write_line_message (env_J E) encode_response r"
      using peer con Inr p turn by (auto simp: daemon_peer_def written_since_def Let_def msg)
    with resp compact_read [OF assms(1), of decode_response encode_response r "[]" resp]
    have "resp = wire_response r" by (auto simp: decode_encode_response)
    with con r show ?thesis by blast
  qed
qed

section \<open>Answers of the relay\<close>

text \<open>
  Where a response that is no error comes from, in the turn that the daemon \<open>l\<close> makes with a
  request of its connection \<open>c\<close>: the connection, bound to a service, sent the request with this
  method and these parameters as an event; among the events of this turn is a relay event that
  arrived while the connection waited for that event and replies to it; and the response is what
  the daemon makes of its text.
\<close>

definition relayed ::
    "avatar_env \<Rightarrow> (string \<Rightarrow> string) \<Rightarrow> nat \<Rightarrow> daemon_link \<Rightarrow> string \<Rightarrow> json \<Rightarrow> json_rpc_response \<Rightarrow> bool" where
  "relayed E json_error c l meth params resp \<longleftrightarrow>
     (\<exists>con svc msg req eid t. conns (dl_system l) c = Some con \<and> cn_bound con = Some svc \<and>
        snd (handle_message (Some svc) msg) = Forward svc req \<and> req_method req = meth \<and> req_params req = params \<and>
        fst (forward_send E (cn_identity con) svc req (daemon (dl_system l))) = Inr eid \<and>
        wait_ended E json_error c (Message c msg # link_schedule c l) (dl_system l) eid (Delivered t) \<and>
        resp = wire_response (forward_answer (env_J E) json_error (request_id req) (Delivered t)))"

lemma wire_response_no_error [simp]: "resp_error (wire_response r) = None \<longleftrightarrow> resp_error r = None"
  by (simp add: wire_response_def)

text \<open>The daemon itself only answers a \<open>connect\<close> with a success; everything else it forwards.\<close>

lemma success_relayed:
  assumes "turn_response E json_error c con msg (Message c msg # link_schedule c l) (dl_system l) r" and "resp_error r = None"
    and "conns (dl_system l) c = Some con" and "msg_method msg = Some meth" and "meth \<noteq> ''connect''"
  shows "relayed E json_error c l meth (msg_params msg) (wire_response r)"
proof (cases "cn_bound con")
  case None
  with assms(1,2,4,5) show ?thesis
    by (auto simp: turn_response_def handle_message_def response_error_def)
next
  case (Some svc)
  let ?req = "\<lparr>req_jsonrpc = ''2.0'', req_method = meth, req_params = msg_params msg, req_id = Some (id_or JNull msg)\<rparr>"
  have fwd: "snd (handle_message (Some svc) msg) = Forward svc ?req"
    using assms(4,5) by (simp add: handle_message_def)
  obtain x st' where send: "forward_send E (cn_identity con) svc ?req (daemon (dl_system l)) = (x, st')" by fastforce
  show ?thesis
  proof (cases x)
    case (Inl r')
    with send fwd assms(1,2) Some show ?thesis
      by (auto simp: turn_response_def forward_send_def response_error_def Let_def split: option.splits prod.splits)
  next
    case (Inr eid)
    with assms(1) fwd send Some obtain outcome where
      o: "r = forward_answer (env_J E) json_error (request_id ?req) outcome"
      "wait_ended E json_error c (Message c msg # link_schedule c l) (dl_system l) eid outcome"
      by (auto simp: turn_response_def)
    with assms(2) obtain t where "outcome = Delivered t"
      by (cases outcome) (simp_all add: forward_answer_def response_error_def)
    with o Some send Inr assms(3) fwd show ?thesis
      unfolding relayed_def by (intro exI [of _ con] exI [of _ svc] exI [of _ msg] exI [of _ ?req]) auto
  qed
qed

lemma daemon_success:
  assumes "compact_text (env_J E)" and "iter_order (env_order E)" and "link_ok E json_error author c l"
    and "own_response (env_J E) (daemon_peer E json_error c) l req = Inr resp"
    and "resp_error resp = None" and "req_method req \<noteq> ''connect''"
  shows "relayed E json_error c l (req_method req) (norm_json (req_params req)) resp"
proof -
  let ?msg = "message_of_request (wire_request req)"
  from daemon_own_response [OF assms(1-4) refl] obtain con r where con: "conns (dl_system l) c = Some con"
    and resp: "resp = wire_response r"
    and r: "turn_response E json_error c con ?msg (Message c ?msg # link_schedule c l) (dl_system l) r"
    by blast
  from success_relayed [OF r _ con, of "req_method req"] assms(5,6) resp show ?thesis
    by (simp add: message_of_request_def wire_request_def)
qed

lemma wire_response_wf: "resp_result (wire_response r) = Some res \<Longrightarrow> json_wf res"
  by (auto simp: wire_response_def wire_opt_def split: option.splits if_splits)

lemma relayed_wf: "relayed E json_error c l meth params resp \<Longrightarrow> resp_result resp = Some res \<Longrightarrow> json_wf res"
  by (auto simp: relayed_def dest: wire_response_wf)

text \<open>The signature that a response carries.\<close>

definition signature_of :: "base64_lib \<Rightarrow> json_rpc_response \<Rightarrow> bytes option" where
  "signature_of B r =
     (if resp_error r \<noteq> None then None
      else Option.bind (Option.bind (resp_result r) (\<lambda>v. get_str v ''signature'')) (b64_decode B))"

lemma bridge_reply_signature:
  "fst (bridge_reply B (SignRequest k d flags) resp) = Signed (Some sig) kt \<Longrightarrow>
     \<exists>r. resp = Some r \<and> resp_error r = None \<and> signature_of B r = Some sig"
  by (auto simp: bridge_reply_def signature_of_def split: option.splits if_splits)

section \<open>A concrete daemon\<close>

text \<open>
  A text format that knows some documents by name, and a daemon to which a KeyMaster has
  attached and a service avatar connects as a user's: the KeyMaster gives every request of it
  the same answer.
\<close>

definition docs_text :: "(string \<times> json) list \<Rightarrow> json_text" where
  "docs_text ds = \<lparr>json_to_string = \<lambda>v. (case find (\<lambda>d. snd d = v) ds of None \<Rightarrow> ''?'' | Some d \<Rightarrow> fst d),
     json_from_str = map_of ds\<rparr>"

definition plain_docs :: "(string \<times> json) list \<Rightarrow> bool" where
  "plain_docs ds \<longleftrightarrow> distinct (map fst ds) \<and> ''?'' \<notin> fst ` set ds \<and>
     (\<forall>d \<in> set ds. fst d \<noteq> [] \<and> list_all graph (fst d) \<and> length (fst d) < 10)"

lemma graph_text:
  assumes "list_all graph t"
  shows "newline \<notin> set t" "ws_rev_len (rev t) = 0" "utf8_valid (as_bytes t)"
proof -
  have "\<not> graph newline" by (simp add: graph_def)
  with assms show "newline \<notin> set t" by (auto simp: list_all_iff)
  show "ws_rev_len (rev t) = 0" using assms by (cases t rule: rev_cases) simp_all
  show "utf8_valid (as_bytes t)"
    using assms by (intro utf8_valid_ascii) (auto simp: list_all_iff graph_def as_bytes_def word_less_nat_alt)
qed

lemma docs_text_known:
  assumes "plain_docs ds" and "v \<in> snd ` set ds"
  shows "\<exists>t. (t, v) \<in> set ds \<and> json_to_string (docs_text ds) v = t \<and> json_from_str (docs_text ds) t = Some v"
proof -
  have "find (\<lambda>d. snd d = v) ds \<noteq> None" using assms(2) by (auto simp: find_None_iff)
  then obtain d where d: "find (\<lambda>d. snd d = v) ds = Some d" by blast
  then have "d \<in> set ds" "snd d = v" by (auto simp: find_Some_iff)
  with d assms(1) show ?thesis by (intro exI [of _ "fst d"]) (auto simp: docs_text_def plain_docs_def)
qed

lemma docs_text_compact: "plain_docs ds \<Longrightarrow> compact_text (docs_text ds)"
  unfolding compact_text_def
proof (intro conjI allI)
  assume ds: "plain_docs ds"
  then show "json_from_str (docs_text ds) [] = None"
    by (force simp: docs_text_def plain_docs_def map_of_eq_None_iff)
  fix v
  show "newline \<notin> set (json_to_string (docs_text ds) v)"
    and "ws_rev_len (rev (json_to_string (docs_text ds) v)) = 0"
    and "json_from_str (docs_text ds) (json_to_string (docs_text ds) v) \<in> {None, Some v}"
  proof (atomize (full), cases "v \<in> snd ` set ds")
    case True
    from docs_text_known [OF ds this] obtain t where t: "(t, v) \<in> set ds"
      "json_to_string (docs_text ds) v = t" "json_from_str (docs_text ds) t = Some v" by blast
    with ds have "list_all graph t" by (auto simp: plain_docs_def)
    with t graph_text show "newline \<notin> set (json_to_string (docs_text ds) v) \<and>
        ws_rev_len (rev (json_to_string (docs_text ds) v)) = 0 \<and>
        json_from_str (docs_text ds) (json_to_string (docs_text ds) v) \<in> {None, Some v}" by auto
  next
    case False
    then have "find (\<lambda>d. snd d = v) ds = None" by (force simp: find_None_iff)
    moreover have "map_of ds ''?'' = None" using ds by (simp add: plain_docs_def map_of_eq_None_iff)
    ultimately show "newline \<notin> set (json_to_string (docs_text ds) v) \<and>
        ws_rev_len (rev (json_to_string (docs_text ds) v)) = 0 \<and>
        json_from_str (docs_text ds) (json_to_string (docs_text ds) v) \<in> {None, Some v}"
      by (simp add: docs_text_def ascii_ws_def)
  qed
qed

lemma docs_text_prints:
  assumes "plain_docs ds" and "v \<in> snd ` set ds"
  shows "prints_line (docs_text ds) v" "length (json_to_string (docs_text ds) v) < 10"
proof -
  from docs_text_known [OF assms] obtain t where t: "(t, v) \<in> set ds"
    "json_to_string (docs_text ds) v = t" "json_from_str (docs_text ds) t = Some v" by blast
  with assms(1) have "list_all graph t" "t \<noteq> []" "length t < 10" by (auto simp: plain_docs_def)
  with t graph_text show "prints_line (docs_text ds) v" "length (json_to_string (docs_text ds) v) < 10"
    by (auto simp: prints_line_def)
qed

lemma docs_text_sendable:
  "plain_docs ds \<Longrightarrow> encode m \<in> snd ` set ds \<Longrightarrow> sendable_line (docs_text ds) encode m"
  using docs_text_prints [of ds "encode m"] by (simp add: sendable_line_def MAX_LINE_SIZE_def)

lemma docs_text_framed:
  "plain_docs ds \<Longrightarrow> v \<in> snd ` set ds \<Longrightarrow> framed_printable (docs_text ds) v"
  using docs_text_prints [of ds v] by (simp add: framed_printable_def prints_line_def MAX_MESSAGE_SIZE_def)

lemma own_response_peer:
  assumes "compact_text J" and "sendable_line J encode_response r" and "wire_response r = r"
    and "peer l (write_line_message J encode_request req) = Some (write_line_message J encode_response r, l')"
    and "one_line_peer peer"
  shows "send_and_receive J peer (l, []) req = (Inr r, l', [])"
proof -
  have "own_response J peer l req = Inr r" by (rule own_response_line) (rule assms(4,2,3))+
  then show ?thesis using assms(4) by (simp add: send_and_receive_sync [OF assms(5)] peer_after_def)
qed

abbreviation link_attach :: event where "link_attach \<equiv> sample_event 7 1 ''attach'' []"

definition link_attached :: "json_text \<Rightarrow> avatar_state" where
  "link_attached J = event_loop_step (sample_env_with J) link_attach avatar_init"

definition knows_attach :: "json_text \<Rightarrow> bool" where
  "knows_attach J \<longleftrightarrow> json_from_str J ''attach'' = Some (encode_request (sample_request 5))"

lemma sample_with_J [simp]: "env_J (sample_env_with J) = J"
  by (simp add: sample_env_with_def)

lemma link_attached_establish:
  assumes "knows_attach J"
  shows "fst (establish (sample_env_with J) link_attach (PublicKey [7]) (sample_message 5)
      (parse_services (sample_params 5)) ''id'' (Some (Xpub (as_bytes ''xp''))) avatar_init) = Inr ()"
    and "link_attached J = snd (establish (sample_env_with J) link_attach (PublicKey [7]) (sample_message 5)
      (parse_services (sample_params 5)) ''id'' (Some (Xpub (as_bytes ''xp''))) avatar_init)"
proof -
  have "handle_event (sample_env_with J) link_attach avatar_init =
      handle_attach (sample_env_with J) link_attach (PublicKey [7]) (sample_message 5) avatar_init"
    using assms by (simp add: handle_event_def decrypt_event_def sample_env_with_def sample_event_def
        knows_attach_def decode_message_encode_request sample_message_def [symmetric])
  moreover have "ev_kind link_attach = PROTOCOL_KIND" by (simp add: sample_event_def)
  ultimately show "link_attached J = snd (establish (sample_env_with J) link_attach (PublicKey [7]) (sample_message 5)
      (parse_services (sample_params 5)) ''id'' (Some (Xpub (as_bytes ''xp''))) avatar_init)"
    by (simp add: link_attached_def event_loop_step_def sample_fresh_attach)
  show "fst (establish (sample_env_with J) link_attach (PublicKey [7]) (sample_message 5)
      (parse_services (sample_params 5)) ''id'' (Some (Xpub (as_bytes ''xp''))) avatar_init) = Inr ()"
    using sample_attach_ok [of 5 J link_attach] by (simp add: sample_fresh_attach)
qed

lemma link_channel:
  assumes "knows_attach J" and "svc \<in> {''ssh'', ''gpg'', ''nostr''}"
  shows "\<exists>ch. find_service_channel_for_identity (env_order (sample_env_with J)) (mgr (link_attached J)) svc ''id'' = Some ch"
proof -
  have au: "sample_author (ev_id link_attach) = PublicKey [7]" by (rule sample_attacher)
  from establish_channels [OF sample_inv sample_env_order au link_attached_establish(1) [OF assms(1)]]
    establish_get_new [OF sample_inv sample_env_order [where J = J] au, of "sample_message 5"
      "parse_services (sample_params 5)" "''id''" "Some (Xpub (as_bytes ''xp''))"]
  obtain s where s: "hm_get (sessions (mgr (link_attached J))) (ev_id link_attach) = Some s" "rs_identity s = ''id''"
    and chs: "\<forall>svc. case map_of (rev (parse_services (sample_params 5))) svc of
        Some seq \<Rightarrow> (\<exists>c. hm_get (rs_channels s) svc = Some c \<and>
          channel_for (sample_env_with J) (PublicKey [7]) (Some (Xpub (as_bytes ''xp''))) svc seq c)
      | None \<Rightarrow> hm_get (rs_channels s) svc = None"
    unfolding link_attached_establish(2) [OF assms(1), symmetric] by auto
  from spec [OF chs, of svc] assms(2) have c: "hm_get (rs_channels s) svc \<noteq> None"
    by (auto simp: sample_services)
  have "avatar_inv sample_author (link_attached J)"
    unfolding link_attached_def by (rule event_loop_inv [OF sample_inv sample_env_order]) simp
  then have "mgr_inv (mgr (link_attached J))" by (simp add: avatar_inv_def)
  from scoped_lookup [OF sample_env_order [of J] this, of "''id''" svc] s c show ?thesis
    by (auto split: option.splits)
qed

lemma link_attached_table: "pending (link_attached J) = []"
proof -
  have "reply_target (sample_env_with J) link_attach = None" by (simp add: reply_target_def sample_event_def)
  with event_loop_pending [of "sample_env_with J" link_attach avatar_init] show ?thesis
    by (simp add: link_attached_def avatar_init_def)
qed

definition link_answer :: event where
  "link_answer = sample_event 7 9 ''a'' [[''e'', [CHR 0x00], '''', ''reply'']]"

definition answer_events :: "api_event list" where
  "answer_events = [Register 0, RelayEvent link_answer, Receive 0 ''a'']"

text \<open>Connection 0, before \<open>connect\<close>; after it, with \<open>n\<close> more turns in which the answer arrives.\<close>

definition link_start :: "json_text \<Rightarrow> nat \<Rightarrow> daemon_link" where
  "link_start J n = \<lparr>dl_system =
       fold (api_exec (sample_env_with J) id) [RelayEvent link_attach, Connect 0 (Some ''id'')] api_init,
     dl_schedule = [] # replicate n answer_events\<rparr>"

definition link_ready :: "json_text \<Rightarrow> string \<Rightarrow> nat \<Rightarrow> daemon_link \<Rightarrow> bool" where
  "link_ready J svc n l \<longleftrightarrow>
     (\<exists>con. conns (dl_system l) 0 = Some con \<and> cn_identity con = Some ''id'' \<and> cn_bound con = Some svc \<and>
        cn_phase con = Idle) \<and>
     mgr (daemon (dl_system l)) = mgr (link_attached J) \<and> pending (daemon (dl_system l)) = [] \<and>
     dl_schedule l = replicate n answer_events"

lemma link_start_ok: "link_ok (sample_env_with J) id sample_author 0 (link_start J n)"
proof -
  have "daemon_reach (sample_env_with J) id sample_author (dl_system (link_start J n))"
    unfolding link_start_def daemon_link.simps
    by (rule fold_reach) (simp_all add: reach_init)
  moreover have "list_all (authored sample_author) answer_events"
    by (simp add: answer_events_def link_answer_def)
  then have "list_all (list_all (authored sample_author)) (replicate n answer_events)"
    by (simp add: list_all_iff)
  ultimately show ?thesis
    by (simp add: link_ok_def) (simp add: link_start_def api_init_def)
qed

lemma link_start_conn:
  "conns (dl_system (link_start J n)) 0 =
     Some \<lparr>cn_identity = Some ''id'', cn_bound = None, cn_phase = Idle, cn_written = []\<rparr>"
  "daemon (dl_system (link_start J n)) = link_attached J"
  "dl_schedule (link_start J n) = [] # replicate n answer_events"
  by (simp_all add: link_start_def api_init_def link_attached_def)

text \<open>The answer of the KeyMaster, when it arrives.\<close>

lemma link_answer_step:
  assumes "json_from_str J ''a'' = Some (encode_response r)" and "resp_result (wire_response r) \<noteq> None"
  shows "event_loop_step (sample_env_with J) link_answer st = snd (handle_response (sample_env_with J) link_answer ''a'' st)"
  using assms
  by (simp add: event_loop_step_def handle_event_def decrypt_event_def sample_env_with_def link_answer_def
      sample_event_def decode_message_encode_response is_response_def message_of_response_def)

lemma link_answer_target: "reply_target (sample_env_with J) link_answer = Some (EventId [0])"
  by (simp add: reply_target_def link_answer_def sample_event_def sample_env_with_def as_bytes_def)

lemma link_sends:
  assumes "knows_attach J" and "svc \<in> {''ssh'', ''gpg'', ''nostr''}" and "mgr st = mgr (link_attached J)"
  shows "\<exists>ev. forward_send (sample_env_with J) (Some ''id'') svc req st =
    (Inr (EventId [0]), st\<lparr>outbox := outbox st @ [ev]\<rparr>)"
proof -
  obtain ks a b where "find_service_channel_for_identity (env_order (sample_env_with J)) (mgr (link_attached J)) svc ''id'' =
      Some (ks, a, b)" using link_channel [OF assms(1,2)] by (metis prod_cases3)
  with assms(3) show ?thesis
    by (auto simp: forward_send_def send_service_request_def sample_env_with_def)
qed

text \<open>The turn of \<open>connect\<close>, and the turn of any other request.\<close>

lemma link_connect:
  assumes "compact_text J" and "sendable_line J encode_request req"
    and "req_method req = ''connect''" and "str_param (norm_json (req_params req)) ''type'' = svc" and "svc \<noteq> []"
    and "reply = response_success (id_or JNull (message_of_request (wire_request req)))
      (json_object [(''npub'', JString (str_param (norm_json (req_params req)) ''npub''))])"
  shows "\<exists>l'. daemon_peer (sample_env_with J) id 0 (link_start J n) (write_line_message J encode_request req) =
      Some (write_line_message J encode_response reply, l') \<and> link_ready J svc n l'"
proof -
  let ?msg = "message_of_request (wire_request req)"
  have read: "read_line_message J decode_message (write_line_message J encode_request req) = Inr (?msg, [])"
    using read_write_line [where rest = "[]" and decode = decode_message, OF assms(2)]
    by (simp add: decode_message_encode_request)
  have "handle_message None ?msg = (Some svc, Reply reply)"
    using assms(3-6) by (simp add: handle_message_def message_of_request_def wire_request_def)
  then have turn: "daemon_turn (sample_env_with J) id 0 [Register 0, TimeOut 0] ?msg (dl_system (link_start J n)) =
      set_conn 0 (Some \<lparr>cn_identity = Some ''id'', cn_bound = Some svc, cn_phase = Idle, cn_written = [reply]\<rparr>)
        (dl_system (link_start J n))"
    by (simp add: daemon_turn_def link_start_conn serve_message_def answer_with_def set_conn_def)
  then show ?thesis
    by (simp add: daemon_peer_def link_schedule_def link_start_conn read written_since_def link_ready_def link_attached_table)
qed

lemma link_turn:
  assumes "knows_attach J" and "svc \<in> {''ssh'', ''gpg'', ''nostr''}" and "json_from_str J ''a'' = Some (encode_response r)"
    and "resp_result (wire_response r) \<noteq> None" and "wire_response r = r"
    and "link_ready J svc (Suc n) l" and "msg_method msg = Some meth" and "meth \<noteq> ''connect''"
  shows "\<exists>con. conns (dl_system l) 0 = Some con \<and>
    conns (daemon_turn (sample_env_with J) id 0 (link_schedule 0 l) msg (dl_system l)) 0 =
      Some (con\<lparr>cn_written := cn_written con @ [r]\<rparr>) \<and>
    link_ready J svc n \<lparr>dl_system = daemon_turn (sample_env_with J) id 0 (link_schedule 0 l) msg (dl_system l),
      dl_schedule = replicate n answer_events\<rparr>"
proof -
  let ?s = "dl_system l"
  obtain con where con: "conns ?s 0 = Some con" "cn_identity con = Some ''id''" "cn_bound con = Some svc" "cn_phase con = Idle"
    and st: "mgr (daemon ?s) = mgr (link_attached J)" "pending (daemon ?s) = []"
    using assms(6) by (auto simp: link_ready_def)
  let ?req = "\<lparr>req_jsonrpc = ''2.0'', req_method = meth, req_params = msg_params msg, req_id = Some (id_or JNull msg)\<rparr>"
  have fwd: "handle_message (cn_bound con) msg = (Some svc, Forward svc ?req)"
    using con(3) assms(7,8) by (simp add: handle_message_def)
  obtain ev where send: "forward_send (sample_env_with J) (Some ''id'') svc ?req (daemon ?s) =
      (Inr (EventId [0]), daemon ?s\<lparr>outbox := outbox (daemon ?s) @ [ev]\<rparr>)"
    using link_sends [OF assms(1,2) st(1)] by blast
  have answer: "forward_answer J id i (Delivered ''a'') = r" for i
    using assms(3,5) by (simp add: forward_answer_def decode_encode_response)
  let ?E = "sample_env_with J" and ?tx = "next_waiter ?s" and ?i = "id_or JNull msg"
  let ?st1 = "daemon ?s\<lparr>outbox := outbox (daemon ?s) @ [ev]\<rparr>"
  let ?st2 = "?st1\<lparr>pending := [(EventId [0], ?tx)]\<rparr>"
  let ?st3 = "?st1\<lparr>pending := [], delivered := delivered (daemon ?s) @ [(?tx, ''a'')]\<rparr>"
  have bound: "con\<lparr>cn_bound := Some svc\<rparr> = con" using con(3) by (cases con) simp
  define s1 where "s1 = api_exec ?E id (Message 0 msg) ?s"
  define s2 where "s2 = api_exec ?E id (Register 0) s1"
  define s3 where "s3 = api_exec ?E id (RelayEvent link_answer) s2"
  define s4 where "s4 = api_exec ?E id (Receive 0 ''a'') s3"
  have 1: "conns s1 0 = Some (con\<lparr>cn_phase := Sent (EventId [0]) ?i\<rparr>)" "daemon s1 = ?st1" "next_waiter s1 = ?tx"
    using con(1,2,4) bound by (simp_all add: s1_def serve_message_def fwd send request_id_def set_conn_def)
  have 2: "conns s2 0 = Some (con\<lparr>cn_phase := Waiting (EventId [0]) ?tx ?i\<rparr>)" "daemon s2 = ?st2"
    using st(2) by (simp_all add: s2_def 1 forward_wait_def set_conn_def)
  have 3: "conns s3 0 = conns s2 0" "daemon s3 = ?st3"
    by (simp_all add: s3_def 2 link_answer_step [OF assms(3,4)] handle_response_def link_answer_target)
  have 4: "conns s4 0 = Some (con\<lparr>cn_written := cn_written con @ [r]\<rparr>)" "daemon s4 = ?st3"
    using con(4) by (simp_all add: s4_def 3 2 finish_def answer answer_with_def set_conn_def)
  have "daemon_turn ?E id 0 (link_schedule 0 l) msg ?s =
      api_exec ?E id (TimeOut 0) (api_exec ?E id (Register 0) s4)"
    using assms(6) by (simp add: link_ready_def link_schedule_def daemon_turn_def answer_events_def s1_def s2_def s3_def s4_def
        del: api_exec.simps)
  also have "\<dots> = s4" using con(4) by (simp add: 4)
  finally show ?thesis using con st 4 by (simp add: link_ready_def)
qed

lemma link_request:
  assumes "knows_attach J" and "svc \<in> {''ssh'', ''gpg'', ''nostr''}" and "json_from_str J ''a'' = Some (encode_response r)"
    and "resp_result (wire_response r) \<noteq> None" and "wire_response r = r"
    and "link_ready J svc (Suc n) l" and "sendable_line J encode_request req" and "req_method req \<noteq> ''connect''"
  shows "\<exists>l'. daemon_peer (sample_env_with J) id 0 l (write_line_message J encode_request req) =
      Some (write_line_message J encode_response r, l') \<and> link_ready J svc n l'"
proof -
  let ?msg = "message_of_request (wire_request req)"
  have read: "read_line_message J decode_message (write_line_message J encode_request req) = Inr (?msg, [])"
    using read_write_line [where rest = "[]" and decode = decode_message, OF assms(7)]
    by (simp add: decode_message_encode_request)
  have "msg_method ?msg = Some (req_method req)" by (simp add: message_of_request_def wire_request_def)
  note turn = link_turn [OF assms(1-6) this assms(8)]
  then obtain con where con: "conns (dl_system l) 0 = Some con"
    "conns (daemon_turn (sample_env_with J) id 0 (link_schedule 0 l) ?msg (dl_system l)) 0 =
      Some (con\<lparr>cn_written := cn_written con @ [r]\<rparr>)"
    "link_ready J svc n \<lparr>dl_system = daemon_turn (sample_env_with J) id 0 (link_schedule 0 l) ?msg (dl_system l),
      dl_schedule = replicate n answer_events\<rparr>" by blast
  have "dl_schedule l = answer_events # replicate n answer_events" using assms(6) by (simp add: link_ready_def)
  then have "daemon_peer (sample_env_with J) id 0 l (write_line_message J encode_request req) =
      Some (write_line_message J encode_response r,
        \<lparr>dl_system = daemon_turn (sample_env_with J) id 0 (link_schedule 0 l) ?msg (dl_system l), dl_schedule = replicate n answer_events\<rparr>)"
    by (simp add: daemon_peer_def written_since_def read con(1,2) del: replicate.simps)
  with con(3) show ?thesis by blast
qed

text \<open>A service avatar behind this daemon: its handshake and one request.\<close>

definition connect_reply :: "json_rpc_request \<Rightarrow> json_rpc_response" where
  "connect_reply req = response_success (id_or JNull (message_of_request (wire_request req)))
     (json_object [(''npub'', JString (str_param (norm_json (req_params req)) ''npub''))])"

lemma connect_reply_wire [simp]:
  "wire_response (connect_reply req) = connect_reply req" "resp_error (connect_reply req) = None"
proof -
  have "norm_json (id_or JNull (message_of_request (wire_request req))) = id_or JNull (message_of_request (wire_request req))"
    by (auto simp: id_or_def message_of_request_def wire_request_def wire_opt_def split: option.split)
  moreover have "norm_json (json_object [(''npub'', JString x)]) = json_object [(''npub'', JString x)]"
    "json_object [(''npub'', JString x)] \<noteq> JNull" for x
    by (intro norm_json_wf json_wf_object, simp) (simp add: json_object_def)
  ultimately show "wire_response (connect_reply req) = connect_reply req" "resp_error (connect_reply req) = None"
    by (simp_all add: connect_reply_def response_success_def wire_response_def wire_opt_def)
qed

definition link_docs ::
    "('req, 'rep) service \<Rightarrow> 'req \<Rightarrow> json_rpc_response \<Rightarrow> (string \<times> json) list \<Rightarrow> (string \<times> json) list" where
  "link_docs sv q r extra = [(''attach'', encode_request (sample_request 5)), (''c'', encode_request (sv_connect sv)),
     (''k'', encode_response (connect_reply (sv_connect sv))), (''q'', encode_request (sv_request sv 2 q)),
     (''a'', encode_response r)] @ extra"

text \<open>Further documents, numbered.\<close>

lemma link_docs_plain: "plain_docs (link_docs sv q r [])" "plain_docs (link_docs sv q r [(''1'', x), (''2'', y)])"
  by (simp_all add: plain_docs_def link_docs_def graph_def)

lemma link_bridge_run:
  fixes sv :: "('req, 'rep) service"
  assumes "wire_response r = r" and "resp_result r \<noteq> None" and "svc \<in> {''ssh'', ''gpg'', ''nostr''}"
    and "req_method (sv_connect sv) = ''connect''" and "str_param (norm_json (req_params (sv_connect sv))) ''type'' = svc"
    and "req_method (sv_request sv 2 q) \<noteq> ''connect''" and "snd (sv_reply sv q (Inr r))"
    and "plain_docs (link_docs sv q r extra)" and "J = docs_text (link_docs sv q r extra)"
  shows "\<exists>b. bridge_run J (daemon_peer (sample_env_with J) id 0) sv bridge_init [Accepted (link_start J 1), Requested q] = Some b \<and>
    br_replies b = [(q, fst (sv_reply sv q (Inr r)))]"
proof -
  let ?peer = "daemon_peer (sample_env_with J) id 0" and ?k = "connect_reply (sv_connect sv)"
  have compact: "compact_text J" using docs_text_compact [OF assms(8)] by (simp add: assms(9))
  then have one: "one_line_peer ?peer" by (intro daemon_peer_one_line) simp
  have send: "sendable_line J encode_request (sv_connect sv)" "sendable_line J encode_response ?k"
    "sendable_line J encode_request (sv_request sv 2 q)" "sendable_line J encode_response r"
    unfolding assms(9) by (rule docs_text_sendable [OF assms(8)], simp add: link_docs_def)+
  have knows: "knows_attach J" "json_from_str J ''a'' = Some (encode_response r)"
    by (simp_all add: knows_attach_def assms(9) docs_text_def link_docs_def)
  have svc: "svc \<noteq> []" and res: "resp_result (wire_response r) \<noteq> None" using assms(1-3) by auto
  obtain l1 where l1: "?peer (link_start J 1) (write_line_message J encode_request (sv_connect sv)) =
      Some (write_line_message J encode_response ?k, l1)" "link_ready J svc (Suc 0) l1"
    using link_connect [OF compact send(1) assms(4,5) svc connect_reply_def, of 1] by auto
  obtain l2 where l2: "?peer l1 (write_line_message J encode_request (sv_request sv 2 q)) =
      Some (write_line_message J encode_response r, l2)"
    using link_request [OF knows(1) assms(3) knows(2) res assms(1) l1(2) send(3) assms(6)] by blast
  note first = own_response_peer [OF compact send(2) connect_reply_wire(1) l1(1) one]
  note second = own_response_peer [OF compact send(4) assms(1) l2 one]
  obtain reply where reply: "sv_reply sv q (Inr r) = (reply, True)" using assms(7) by (metis prod.collapse)
  have "handshake_of (Inr ?k) = Established" by (simp add: handshake_of_def)
  with first second reply show ?thesis
    by (simp add: bridge_step_def bridge_init_def bridge_connected_def bridge_serve_def)
qed

section \<open>Properties\<close>

text \<open>
  C17. The daemon answers: in any reachable state, whatever the relay, the other connections and
  the timers do after a request on an idle connection, either the connection has written exactly
  one response and is idle again, or the request was forwarded as an event and the connection is
  on its way, with nothing written; and once it has been entered in the table and its timer has
  fired it is idle. The response is the one the code decides at once, or, when the request was
  forwarded as the event \<open>eid\<close>, what it makes of the end of its wait: the text of a relay event
  that arrived while this very wait was on and replies to \<open>eid\<close>, the timeout, or the loss of its
  reply channel, for which another connection must have waited for the same event.
\<close>

theorem daemon_answers_every_request:
  assumes "daemon_reach E json_error author s" and "iter_order (env_order E)"
    and "list_all (authored author) sched" and "list_all (\<lambda>e. \<not> of_client c e) sched"
    and "conns s c = Some con" and "cn_phase con = Idle" and "is_request msg"
    and "s' = daemon_turn E json_error c sched msg s" and "bound = fst (handle_message (cn_bound con) msg)"
  shows "daemon_reach E json_error author s' \<and>
    ((\<exists>r. conns s' c = Some (con\<lparr>cn_bound := bound, cn_written := cn_written con @ [r]\<rparr>) \<and>
        turn_response E json_error c con msg (Message c msg # sched) s r) \<or>
     (\<exists>con' eid i. turn_forwards E con msg s eid i \<and> conns s' c = Some con' \<and>
        cn_bound con' = bound \<and> cn_written con' = cn_written con \<and>
        (cn_phase con' = Sent eid i \<or> (\<exists>tx. cn_phase con' = Waiting eid tx i)))) \<and>
    (\<forall>xs ys zs. sched = xs @ Register c # ys @ TimeOut c # zs \<longrightarrow>
       (\<exists>con'. conns s' c = Some con' \<and> cn_phase con' = Idle))"
proof -
  have "\<exists>con'. conns s' c = Some con' \<and> cn_phase con' = Idle" if "sched = xs @ Register c # ys @ TimeOut c # zs" for xs ys zs
    using turn_idle [OF assms(5), of xs ys zs E json_error msg] assms(4) unfolding assms(8) that by blast
  moreover have "daemon_reach E json_error author s'"
    unfolding assms(8) by (rule turn_reach [OF assms(1,3)])
  moreover note turn_state [OF api_reach_inv [OF assms(2,1)] assms(2-7,9), of json_error, folded assms(8)]
  ultimately show ?thesis by blast
qed

text \<open>The KeyMaster answers a request of a bound connection while the connection waits.\<close>

definition pong :: json_rpc_response where
  "pong = response_success (json_of_nat 2) (JString ''ok'')"

definition pong_text :: json_text where
  "pong_text = docs_text [(''attach'', encode_request (sample_request 5)), (''a'', encode_response pong)]"

definition bind_message :: json_rpc_message where
  "bind_message = message_of_request (wire_request (request_new ''connect'' (json_object [(''type'', JString ''ssh'')]) (json_of_nat 1)))"

definition bound_link :: daemon_link where
  "bound_link = \<lparr>dl_system = api_exec (sample_env_with pong_text) id (Message 0 bind_message) (dl_system (link_start pong_text 0)),
     dl_schedule = [answer_events]\<rparr>"

lemma bound_link_ready:
  "link_ready pong_text ''ssh'' (Suc 0) bound_link" "link_ok (sample_env_with pong_text) id sample_author 0 bound_link"
proof -
  have "norm_json (json_object [(''type'', JString ''ssh'')]) = json_object [(''type'', JString ''ssh'')]"
    by (intro norm_json_wf json_wf_object) simp
  then have "\<exists>r. handle_message None bind_message = (Some ''ssh'', Reply r)"
    by (simp add: handle_message_def bind_message_def message_of_request_def wire_request_def request_new_def str_param_def
        get_str_def jget_json_object)
  then show ready: "link_ready pong_text ''ssh'' (Suc 0) bound_link"
    by (auto simp: link_ready_def bound_link_def link_start_conn serve_message_def answer_with_def link_attached_table)
  have "daemon_reach (sample_env_with pong_text) id sample_author (dl_system (link_start pong_text 0))"
    using link_start_ok by (simp add: link_ok_def)
  then have "daemon_reach (sample_env_with pong_text) id sample_author (dl_system bound_link)"
    unfolding bound_link_def daemon_link.simps by (rule api_exec_reach) simp
  with ready show "link_ok (sample_env_with pong_text) id sample_author 0 bound_link"
    by (auto simp: link_ok_def link_ready_def answer_events_def link_answer_def)
qed

theorem daemon_answers_every_request_witness:
  "\<exists>con. conns (daemon_turn (sample_env_with pong_text) id 0 (link_schedule 0 bound_link) (message_of_request ping)
       (dl_system bound_link)) 0 = Some con \<and> cn_phase con = Idle \<and> last (cn_written con) = pong \<and>
     relayed (sample_env_with pong_text) id 0 bound_link ''ping'' (req_params ping) pong"
proof -
  let ?E = "sample_env_with pong_text" and ?msg = "message_of_request ping" and ?s = "dl_system bound_link"
  let ?sched = "link_schedule 0 bound_link"
  have req: "is_request ?msg" "msg_method ?msg = Some ''ping''" "msg_params ?msg = req_params ping"
    by (simp_all add: is_request_def message_of_request_def ping_def request_new_def)
  have pong: "wire_response pong = pong" "resp_result pong \<noteq> None" "resp_error pong = None"
    by (simp_all add: pong_def response_success_def wire_response_def wire_opt_def json_of_nat_def)
  have knows: "knows_attach pong_text" "json_from_str pong_text ''a'' = Some (encode_response pong)"
    by (simp_all add: knows_attach_def pong_text_def docs_text_def)
  from link_turn [OF knows(1) _ knows(2) _ pong(1) bound_link_ready(1) req(2)] pong obtain con where
    con: "conns ?s 0 = Some con" "conns (daemon_turn ?E id 0 ?sched ?msg ?s) 0 = Some (con\<lparr>cn_written := cn_written con @ [pong]\<rparr>)"
    by auto
  have ok: "daemon_reach ?E id sample_author ?s" "cn_phase con = Idle" using bound_link_ready con(1) by (simp_all add: link_ok_def)
  note answers = daemon_answers_every_request [OF ok(1) sample_env_order link_schedule_authored [OF bound_link_ready(2)]
      link_schedule_others con(1) ok(2) req(1) refl refl]
  from answers obtain r where "conns (daemon_turn ?E id 0 ?sched ?msg ?s) 0 = Some (con\<lparr>cn_bound := fst (handle_message (cn_bound con) ?msg),
      cn_written := cn_written con @ [r]\<rparr>)" and r: "turn_response ?E id 0 con ?msg (Message 0 ?msg # ?sched) ?s r"
    using con(2) ok(2) by (elim conjE disjE exE) (blast, auto)
  with con(2) have "cn_written (con\<lparr>cn_written := cn_written con @ [pong]\<rparr>) =
      cn_written (con\<lparr>cn_bound := fst (handle_message (cn_bound con) ?msg), cn_written := cn_written con @ [r]\<rparr>)" by simp
  with r have "turn_response ?E id 0 con ?msg (Message 0 ?msg # ?sched) ?s pong" by simp
  from success_relayed [OF this pong(3) con(1) req(2)] show ?thesis
    using con(2) ok(2) req(3) pong(1) by simp
qed

text \<open>
  C18. The race between the response and the registration of its waiter: if the response to a
  request arrives after the request was sent and before the connection enters it in the table,
  the response is lost; once registered, the connection cannot receive any text for it. Whatever
  happens then, the connection goes on waiting until its wait is ended by a second response,
  which arrives after the registration, by its timeout, or by the loss of its reply channel to
  another connection that waits for the same event; and only then it writes a response.
\<close>

theorem early_response_lost:
  assumes "api_inv author s" and "iter_order (env_order E)"
    and "conns s c = Some con" and "cn_phase con = Sent eid i"
    and "hm_get (pending (daemon s)) eid = None"
    and "author (ev_id ev) = ev_pubkey ev" and "reply_target E ev = Some eid"
    and "s2 = fold (api_exec E json_error) [RelayEvent ev, Register c] s"
    and "list_all (authored author) es" and "list_all (\<lambda>e. \<not> of_client c e) es"
    and "s3 = fold (api_exec E json_error) es s2"
  shows "delivered (daemon s2) = delivered (daemon s) \<and> (\<exists>tx. waits s2 c eid tx) \<and>
    (\<forall>t. api_exec E json_error (Receive c t) s2 = s2) \<and>
    (\<exists>con'. conns s3 c = Some con' \<and>
       (cn_written con' = cn_written con \<and> (\<exists>tx. waits s3 c eid tx) \<or>
        (\<exists>outcome. cn_written con' = cn_written con @ [forward_answer (env_J E) json_error i outcome] \<and>
           cn_phase con' = Idle \<and> wait_ended E json_error c es s2 eid outcome)))"
proof -
  let ?s1 = "api_exec E json_error (RelayEvent ev) s" and ?tx = "next_waiter s"
  have inv1: "api_inv author ?s1" by (rule api_exec_inv [OF assms(1,2)]) (simp add: assms(6))
  have s2: "s2 = api_exec E json_error (Register c) ?s1" by (simp add: assms(8))
  have inv2: "api_inv author s2" unfolding s2 by (rule api_exec_inv [OF inv1 assms(2)]) simp
  have deliv: "delivered (daemon s2) = delivered (daemon s)"
    using event_loop_pending [of E ev "daemon s"] assms(3-5,7) by (auto simp: s2 forward_wait_def)
  have con2: "conns s2 c = Some (con\<lparr>cn_phase := Waiting eid ?tx i\<rparr>)" "hm_get (pending (daemon s2)) eid = Some ?tx"
    using assms(3,4) by (simp_all add: s2 forward_wait_def hm_get_insert)
  have fresh: "(?tx, t) \<notin> set (delivered (daemon s2))" for t
    using assms(1) table_ok_delivered [of s ?tx t] unfolding deliv api_inv_def by blast
  have fwd: "forwarded E json_error c con eid i [] s2"
    using con2 fresh by (simp add: forwarded_def forward_stage_def)
  have past: "past_send c s3"
    unfolding assms(11) by (rule past_send_fold [OF _ assms(10)]) (simp add: past_send_def con2)
  from forwarded_fold [OF inv2 assms(2) fwd _ assms(9,10)] obtain con' where con': "conns s3 c = Some con'"
    and stage: "forward_stage E json_error c con eid i es s2 con' (daemon s3)"
    by (auto simp: forwarded_def assms(11))
  have "cn_written con' = cn_written con \<and> (\<exists>tx. waits s3 c eid tx) \<or>
      (\<exists>outcome. cn_written con' = cn_written con @ [forward_answer (env_J E) json_error i outcome] \<and>
         cn_phase con' = Idle \<and> wait_ended E json_error c es s2 eid outcome)"
    using stage past con' by (cases "cn_phase con'") (auto simp: forward_stage_def past_send_def waits_def)
  moreover have "api_exec E json_error (Receive c t) s2 = s2" for t using con2(1) fresh by simp
  ultimately show ?thesis using deliv con' con2(1) by (auto simp: waits_def)
qed

text \<open>The KeyMaster answers too early, and then once more.\<close>

theorem early_response_lost_witness:
  "let s2 = fold (api_exec sample_env id) [RelayEvent answer_event, Register 0] sent_system;
       s3 = fold (api_exec sample_env id) [RelayEvent answer_event, Receive 0 ''answer''] s2
   in (\<forall>t. api_exec sample_env id (Receive 0 t) s2 = s2) \<and>
     (\<exists>outcome. wait_ended sample_env id 0 [RelayEvent answer_event, Receive 0 ''answer''] s2 (EventId (as_bytes ''q'')) outcome)"
proof -
  let ?es = "[RelayEvent answer_event, Receive 0 ''answer'']"
  have au: "sample_author (ev_id answer_event) = ev_pubkey answer_event" by (simp add: answer_event_def)
  have con: "conns sent_system 0 = Some \<lparr>cn_identity = None, cn_bound = Some ''ssh'',
     cn_phase = Sent (EventId (as_bytes ''q'')) (JString ''7''), cn_written = []\<rparr>"
    by (simp add: sent_system_def)
  have target: "reply_target sample_env answer_event = Some (EventId (as_bytes ''q''))"
    by (simp add: reply_target_def answer_event_def sample_event_def sample_env_with_def sample_text_def)
  have "hm_get (pending (daemon sent_system)) (EventId (as_bytes ''q'')) = None"
    by (simp add: sent_system_def api_init_def avatar_init_def)
  moreover have "list_all (authored sample_author) ?es" "others 0 ?es" using au by simp_all
  moreover have "\<not> waits (fold (api_exec sample_env id) (RelayEvent answer_event # Register 0 # ?es) sent_system) 0 e tx" for e tx
    by (simp add: waits_def con answer_decoded handle_response_def target forward_wait_def finish_def answer_with_def Let_def)
      (simp add: sent_system_def api_init_def avatar_init_def)
  ultimately show ?thesis
    using early_response_lost [OF sent_system_inv sample_env_order con _ _ au target refl _ _ refl, where es = ?es and json_error = id]
    by (fastforce simp: Let_def simp del: api_exec.simps)
qed

end
