(* ===== verification/Gpg_Sa.thy ===== *)
theory Gpg_Sa
  imports Service_Link Startup
begin

text \<open>
  The GPG service avatar (crates/km-gpg-sa/src/main.rs): it prepares a GnuPG home whose
  gpg-agent starts the scdaemon shim, then forwards the JSON-RPC requests of the shim's
  connections over its one connection to the avatar.
\<close>

section \<open>The scdaemon program\<close>

definition resolve_scdaemon_program ::
    "string option \<Rightarrow> string option \<Rightarrow> string option \<Rightarrow> (string \<Rightarrow> bool) \<Rightarrow> string" where
  "resolve_scdaemon_program cli_value config_value exe_dir exists =
     (case cli_value of
        Some v \<Rightarrow> v
      | None \<Rightarrow>
          (case config_value of
             Some v \<Rightarrow> v
           | None \<Rightarrow>
               (case exe_dir of
                  Some dir \<Rightarrow>
                    if exists (join_file dir ''scd-shim'') then join_file dir ''scd-shim''
                    else ''/usr/local/bin/scd-shim''
                | None \<Rightarrow> ''/usr/local/bin/scd-shim'')))"

section \<open>The GnuPG home\<close>

text \<open>Modes in decimal: 448 is 0o700, 493 is 0o755, 384 is 0o600.\<close>

definition line_break :: string where "line_break = [newline]"

definition agent_conf :: "string \<Rightarrow> string \<Rightarrow> string" where
  "agent_conf scdaemon_program gnupg_home =
     ''scdaemon-program '' @ scdaemon_program @ line_break @
     ''allow-loopback-pinentry'' @ line_break @
     ''pinentry-program '' @ gnupg_home @ ''/pinentry-iz.sh'' @ line_break @
     ''log-file '' @ gnupg_home @ ''/gpg-agent.log'' @ line_break @
     ''verbose'' @ line_break"

definition double_quoted :: "string \<Rightarrow> string" where
  "double_quoted s = [CHR 0x22] @ s @ [CHR 0x22]"

definition pinentry_script :: string where
  "pinentry_script = concat (map (\<lambda>l. l @ line_break)
     [''#!/bin/bash'',
      ''echo '' @ double_quoted ''OK Pleased to meet you'',
      ''while IFS= read -r cmd; do'',
      ''case '' @ double_quoted ''${cmd%% *}'' @ '' in'',
      ''GETPIN) echo '' @ double_quoted ''D'' @ ''; echo '' @ double_quoted ''OK'' @ '';;'',
      ''BYE) echo '' @ double_quoted ''OK'' @ ''; exit 0;;'',
      ''*) echo '' @ double_quoted ''OK'' @ '';;'',
      ''esac'',
      ''done''])"

definition gnupg_home_effects :: "string \<Rightarrow> string \<Rightarrow> string \<Rightarrow> string \<Rightarrow> effect list" where
  "gnupg_home_effects gnupg_home cert_armor scdaemon_program gpg_socket =
     [CreateDirAll gnupg_home, SetMode gnupg_home 448,
      WriteText (join_file gnupg_home ''keymaster-public.asc'') cert_armor,
      WriteText (join_file gnupg_home ''gpg-agent.conf'') (agent_conf scdaemon_program gnupg_home),
      WriteText (join_file gnupg_home ''pinentry-iz.sh'') pinentry_script,
      SetMode (join_file gnupg_home ''pinentry-iz.sh'') 493,
      WriteText (join_file gnupg_home ''km-gpg-sa.socket'') gpg_socket]"

definition setup_gnupg_home ::
    "(effect \<Rightarrow> bool) \<Rightarrow> string \<Rightarrow> string \<Rightarrow> string \<Rightarrow> string \<Rightarrow> effect list \<times> bool" where
  "setup_gnupg_home fails gnupg_home cert_armor scdaemon_program gpg_socket =
     run_steps fails (map Must (gnupg_home_effects gnupg_home cert_armor scdaemon_program gpg_socket))"

text \<open>The key stubs, from the \<open>grp:\<close> lines of \<open>gpg --list-keys\<close>, those that exist left out.\<close>

definition split_colon :: "string \<Rightarrow> string list" where
  "split_colon s = foldr (\<lambda>c ws. if c = CHR '':'' then [] # ws else (c # hd ws) # tl ws) s [[]]"

definition keygrip_of_line :: "string \<Rightarrow> string option" where
  "keygrip_of_line line =
     (if starts_with line ''grp:'' then
        let fields = split_colon line in
        if length fields > 9 \<and> length (fields ! 9) = 40 then Some (fields ! 9) else None
      else None)"

fun stub_effects :: "string \<Rightarrow> string set \<Rightarrow> string list \<Rightarrow> effect list" where
  "stub_effects privkeys_dir existing [] = []"
| "stub_effects privkeys_dir existing (line # ls) =
     (case keygrip_of_line line of
        None \<Rightarrow> stub_effects privkeys_dir existing ls
      | Some keygrip \<Rightarrow>
          let stub_path = join_file privkeys_dir (keygrip @ ''.key'') in
          if stub_path \<in> existing then stub_effects privkeys_dir existing ls
          else [WriteText stub_path (''(shadowed-private-key)'' @ line_break), SetMode stub_path 384] @
                 stub_effects privkeys_dir (insert stub_path existing) ls)"

section \<open>Settings\<close>

record gpg_settings =
  gs_log_level :: string
  gs_avatar_socket :: string
  gs_gpg_socket :: string
  gs_gnupg_home :: string

record gpg_config =
  gc_log_level :: "string option"
  gc_avatar_socket :: "string option"
  gc_gpg_socket :: "string option"
  gc_gnupg_home :: "string option"

definition resolve_gpg_settings :: "gpg_settings \<Rightarrow> gpg_config \<Rightarrow> gpg_settings" where
  "resolve_gpg_settings cli config =
     \<lparr>gs_log_level = setting ''info'' (gs_log_level cli) (gs_log_level cli) (gc_log_level config),
      gs_avatar_socket = setting ''/tmp/keymaster-avatar.sock'' (gs_avatar_socket cli) (gs_avatar_socket cli)
        (gc_avatar_socket config),
      gs_gpg_socket = setting ''/tmp/keymaster-avatar-gpg.sock'' (gs_gpg_socket cli) (gs_gpg_socket cli)
        (gc_gpg_socket config),
      gs_gnupg_home = setting ''/tmp/gnupg-home'' (gs_gnupg_home cli) (gs_gnupg_home cli)
        (gc_gnupg_home config)\<rparr>"

section \<open>The start-up sequence\<close>

definition kill_gpg_agent :: "string \<Rightarrow> effect" where
  "kill_gpg_agent home = RunCommand ''gpgconf'' [''--homedir'', home, ''--kill'', ''gpg-agent'']"

definition scd_learn :: "string \<Rightarrow> effect" where
  "scd_learn home =
     RunCommand ''gpg-connect-agent'' [''--homedir'', home, ''LEARN --sendinfo --force'', ''/bye'']"

definition import_cert :: "string \<Rightarrow> effect" where
  "import_cert home = RunCommand ''gpg''
     [''--homedir'', home, ''--batch'', ''--import'', join_file home ''keymaster-public.asc'']"

definition set_ownertrust :: "string \<Rightarrow> effect" where
  "set_ownertrust home = RunCommand ''bash'' [''-c'',
     ''gpg --homedir '' @ home @ '' --batch --with-colons --list-keys 2>/dev/null | awk -F: '' @
     [CHR 0x27] @ ''/^fpr:/{print $10 '' @ double_quoted '':6:'' @ ''}'' @ [CHR 0x27] @
     '' | gpg --homedir '' @ home @ '' --batch --import-ownertrust'']"

definition list_keys :: "string \<Rightarrow> effect" where
  "list_keys home = RunCommand ''gpg''
     [''--homedir'', home, ''--batch'', ''--with-colons'', ''--with-keygrip'', ''--list-keys'']"

text \<open>
  What the sequence depends on besides the settings: which steps fail, the lines that
  \<open>gpg --list-keys\<close> prints when it succeeds, and the stubs that exist then. A command that runs
  and reports failure is only logged, so it is done. The proxy task is started once the socket
  is bound, and the last two steps wait for its end.
\<close>

record gpg_run =
  gr_fails :: "effect \<Rightarrow> bool"
  gr_list :: "string list option"
  gr_existing :: "string set"

definition prepare_steps :: "gpg_settings \<Rightarrow> string \<Rightarrow> string \<Rightarrow> step list" where
  "prepare_steps S scdaemon cert_armor =
     map Must (gnupg_home_effects (gs_gnupg_home S) cert_armor scdaemon (gs_gpg_socket S)) @
     [Ignoring (RemoveFile (gs_gpg_socket S)), Must (BindSocket (gs_gpg_socket S)),
      Ignoring (kill_gpg_agent (gs_gnupg_home S))]"

definition learn_steps :: "gpg_run \<Rightarrow> gpg_settings \<Rightarrow> step list" where
  "learn_steps R S =
     (let home = gs_gnupg_home S; privkeys_dir = join_file home ''private-keys-v1.d'' in
      [Must (scd_learn home), Must (import_cert home), Must (set_ownertrust home),
       Must (CreateDirAll privkeys_dir), Must (list_keys home)] @
      map Must (case gr_list R of None \<Rightarrow> [] | Some ls \<Rightarrow> stub_effects privkeys_dir (gr_existing R) ls) @
      [Ignoring (kill_gpg_agent home), Must (scd_learn home),
       Ignoring (kill_gpg_agent home), Ignoring (RemoveFile (gs_gpg_socket S))])"

definition gpg_connect_request :: json_rpc_request where
  "gpg_connect_request = request_new ''connect'' (json_object [(''type'', JString ''gpg'')]) (json_of_nat 1)"

definition gpg_cert_request :: json_rpc_request where
  "gpg_cert_request = request_new ''gpg.get_public_cert'' (json_object []) (json_of_nat 2)"

text \<open>The certificate that the avatar gives, if it does, and the connection afterwards.\<close>

definition fetch_cert :: "json_text \<Rightarrow> 's peer \<Rightarrow> 's \<times> bytes \<Rightarrow> string option \<times> 's \<times> bytes" where
  "fetch_cert J peer conn =
     (case send_and_receive J peer conn gpg_connect_request of
        (Inl _, conn) \<Rightarrow> (None, conn)
      | (Inr connect_resp, conn) \<Rightarrow>
          if resp_error connect_resp \<noteq> None then (None, conn)
          else
            (case send_and_receive J peer conn gpg_cert_request of
               (Inl _, conn) \<Rightarrow> (None, conn)
             | (Inr cert_resp, conn) \<Rightarrow>
                 (Option.bind (resp_result cert_resp) (\<lambda>r. get_str r ''public_cert_armor''), conn)))"

definition gpg_main ::
    "json_text \<Rightarrow> 's peer \<Rightarrow> 's \<times> bytes \<Rightarrow> gpg_run \<Rightarrow> gpg_settings \<Rightarrow> string \<Rightarrow> (effect list \<times> bool) \<times> 's \<times> bytes" where
  "gpg_main J peer conn R S scdaemon =
     (case fetch_cert J peer conn of
        (None, conn) \<Rightarrow> (([], False), conn)
      | (Some cert_armor, conn) \<Rightarrow>
          (run_steps (gr_fails R) (prepare_steps S scdaemon cert_armor @ learn_steps R S), conn))"

section \<open>The proxy\<close>

text \<open>
  One request of a shim connection, under the mutexes of the avatar connection; \<open>disp\<close> is the
  text of an error.
\<close>

definition request_id_or_null :: "json_rpc_request \<Rightarrow> json" where
  "request_id_or_null request = (case req_id request of None \<Rightarrow> JNull | Some i \<Rightarrow> i)"

definition proxy_response ::
    "(exchange_error \<Rightarrow> string) \<Rightarrow> json_rpc_request \<Rightarrow> exchange_error + json_rpc_response \<Rightarrow> json_rpc_response" where
  "proxy_response disp request r =
     (case r of
        Inr resp \<Rightarrow> resp
      | Inl e \<Rightarrow> response_error (request_id_or_null request) JSONRPC_INTERNAL_ERROR (''proxy error: '' @ disp e))"

definition forward_to_avatar ::
    "(exchange_error \<Rightarrow> string) \<Rightarrow> json_text \<Rightarrow> 's peer \<Rightarrow> 's \<times> bytes \<Rightarrow> json_rpc_request \<Rightarrow>
      json_rpc_response \<times> 's \<times> bytes" where
  "forward_to_avatar disp J peer conn request =
     (case send_and_receive J peer conn request of (r, conn') \<Rightarrow> (proxy_response disp request r, conn'))"

text \<open>
  The connections of the shims share the avatar connection: each has the bytes that will
  arrive on it and the bytes written to it, and is closed after a message that cannot be read.
  A turn of connection \<open>k\<close> is one round of its loop.
\<close>

record shim_connection =
  shim_input :: bytes
  shim_output :: bytes
  shim_open :: bool

definition handle_shim_connection ::
    "(exchange_error \<Rightarrow> string) \<Rightarrow> json_text \<Rightarrow> 's peer \<Rightarrow> 's \<times> bytes \<Rightarrow> shim_connection \<Rightarrow>
      shim_connection \<times> 's \<times> bytes" where
  "handle_shim_connection disp J peer conn c =
     (if \<not> shim_open c then (c, conn)
      else
        (case read_line_message J decode_request (shim_input c) of
           Inl _ \<Rightarrow> (c\<lparr>shim_open := False\<rparr>, conn)
         | Inr (request, rest) \<Rightarrow>
             (case forward_to_avatar disp J peer conn request of
                (resp, conn') \<Rightarrow>
                  (c\<lparr>shim_input := rest,
                     shim_output := shim_output c @ write_line_message J encode_response resp\<rparr>, conn'))))"

fun proxy_run ::
    "(exchange_error \<Rightarrow> string) \<Rightarrow> json_text \<Rightarrow> 's peer \<Rightarrow> 's \<times> bytes \<Rightarrow> (nat \<Rightarrow> shim_connection) \<Rightarrow> nat list \<Rightarrow>
      (nat \<Rightarrow> shim_connection) \<times> 's \<times> bytes" where
  "proxy_run disp J peer conn cs [] = (cs, conn)"
| "proxy_run disp J peer conn cs (k # ks) =
     (case handle_shim_connection disp J peer conn (cs k) of
        (c, conn') \<Rightarrow> proxy_run disp J peer conn' (cs(k := c)) ks)"

section \<open>Lemmas\<close>

lemma forward_in_sync:
  "one_line_peer peer \<Longrightarrow> forward_to_avatar disp J peer (st, []) request =
     (proxy_response disp request (own_response J peer st request), peer_after J peer st request, [])"
  by (simp add: forward_to_avatar_def send_and_receive_sync)

text \<open>
  A log of answered requests: what it says of the bytes read from and written to a connection.
\<close>

definition read_requests :: "json_text \<Rightarrow> nat \<Rightarrow> bytes \<Rightarrow> (json_rpc_request list \<times> bytes) option" where
  "read_requests J n s = decode_many (\<lambda>s. ok_of (read_line_message J decode_request s)) n s"

definition shim_log ::
    "json_text \<Rightarrow> shim_connection \<Rightarrow> shim_connection \<Rightarrow> (json_rpc_request \<times> json_rpc_response) list \<Rightarrow> bool" where
  "shim_log J c0 c log \<longleftrightarrow>
     read_requests J (length log) (shim_input c0) = Some (map fst log, shim_input c) \<and>
     shim_output c = shim_output c0 @ concat (map (write_line_message J encode_response \<circ> snd) log)"

text \<open>
  Turns keep what every forwarded request keeps: \<open>P\<close> of the avatar connection, \<open>Q\<close> of each
  answered request.
\<close>

lemma shim_turn_log:
  assumes "\<And>req resp conn'. forward_to_avatar disp J peer conn req = (resp, conn') \<Longrightarrow> P conn' \<and> Q req resp"
    and "P conn" and "shim_log J c0 c log" and "\<forall>(req, resp) \<in> set log. Q req resp"
    and "handle_shim_connection disp J peer conn c = (c', conn')"
  shows "P conn' \<and> (\<exists>log. shim_log J c0 c' log \<and> (\<forall>(req, resp) \<in> set log. Q req resp))"
proof (cases "shim_open c \<and> (\<exists>p. read_line_message J decode_request (shim_input c) = Inr p)")
  case True
  then obtain req rest where r: "read_line_message J decode_request (shim_input c) = Inr (req, rest)" by auto
  obtain resp conn1 where f: "forward_to_avatar disp J peer conn req = (resp, conn1)" by (metis surj_pair)
  from r assms(3) have "read_requests J (Suc (length log)) (shim_input c0) = Some (map fst log @ [req], rest)"
    unfolding read_requests_def shim_log_def by (intro decode_many_snoc) auto
  with True r f assms(3,5) have "shim_log J c0 c' (log @ [(req, resp)])" "conn' = conn1"
    by (auto simp: shim_log_def handle_shim_connection_def)
  with assms(1) [OF f] assms(4) show ?thesis by (intro conjI exI [of _ "log @ [(req, resp)]"]) auto
next
  case False
  with assms(3,5) have "shim_log J c0 c' log" "conn' = conn"
    by (auto simp: shim_log_def handle_shim_connection_def split: sum.splits if_splits)
  with assms(2,4) show ?thesis by blast
qed

lemma proxy_run_log:
  assumes keep: "\<And>conn req resp conn'. P conn \<Longrightarrow> forward_to_avatar disp J peer conn req = (resp, conn') \<Longrightarrow>
      P conn' \<and> Q req resp"
  shows "proxy_run disp J peer conn cs ks = (cs', conn') \<Longrightarrow> P conn \<Longrightarrow>
    \<forall>k. \<exists>log. shim_log J (cs0 k) (cs k) log \<and> (\<forall>(req, resp) \<in> set log. Q req resp) \<Longrightarrow>
    P conn' \<and> (\<forall>k. \<exists>log. shim_log J (cs0 k) (cs' k) log \<and> (\<forall>(req, resp) \<in> set log. Q req resp))"
proof (induction ks arbitrary: conn cs)
  case (Cons k ks)
  obtain c conn1 where t: "handle_shim_connection disp J peer conn (cs k) = (c, conn1)" by (metis surj_pair)
  obtain log where log: "shim_log J (cs0 k) (cs k) log" "\<forall>(req, resp) \<in> set log. Q req resp"
    using Cons.prems(3) by blast
  have "P conn1 \<and> (\<exists>log. shim_log J (cs0 k) c log \<and> (\<forall>(req, resp) \<in> set log. Q req resp))"
    by (rule shim_turn_log [where P = P and Q = Q and disp = disp and J = J and peer = peer and conn = conn
        and c = "cs k" and log = log]) (use keep [OF Cons.prems(2)] Cons.prems(2) log t in blast)+
  moreover from this Cons.prems(3) have "\<forall>i. \<exists>log. shim_log J (cs0 i) ((cs(k := c)) i) log \<and>
      (\<forall>(req, resp) \<in> set log. Q req resp)" by simp
  moreover have "proxy_run disp J peer conn1 (cs(k := c)) ks = (cs', conn')" using Cons.prems(1) t by simp
  ultimately show ?case using Cons.IH [of conn1 "cs(k := c)"] by iprover
qed simp

lemma shim_log_refl: "shim_log J c c []"
  by (simp add: shim_log_def read_requests_def)

text \<open>
  The proxy never mixes up connections: when the avatar writes at most one line for each
  request, then after any interleaving of the turns of any shim connections, what a connection
  got is one response for each request read from it, in order, and each is the avatar's own
  answer to that request (or the proxy error with its id); nothing is left over in between.
\<close>

lemma proxy_answers_in_sync:
  assumes "one_line_peer peer" and "proxy_run disp J peer (st, []) cs ks = (cs', st', buf')"
  shows "buf' = [] \<and> (\<forall>k. \<exists>log. shim_log J (cs k) (cs' k) log \<and>
    (\<forall>(req, resp) \<in> set log. \<exists>st. resp = proxy_response disp req (own_response J peer st req)))"
proof -
  let ?Q = "\<lambda>req resp. \<exists>st. resp = proxy_response disp req (own_response J peer st req)"
  have "snd (st', buf') = [] \<and> (\<forall>k. \<exists>log. shim_log J (cs k) (cs' k) log \<and> (\<forall>(req, resp) \<in> set log. ?Q req resp))"
  proof (rule proxy_run_log [where P = "\<lambda>conn. snd conn = []" and Q = ?Q, OF _ assms(2)])
    show "snd conn = [] \<Longrightarrow> forward_to_avatar disp J peer conn req = (resp, conn') \<Longrightarrow>
        snd conn' = [] \<and> ?Q req resp" for conn req resp conn'
      by (cases conn) (auto simp: forward_in_sync [OF assms(1)])
    show "\<forall>k. \<exists>log. shim_log J (cs k) (cs k) log \<and> (\<forall>(req, resp) \<in> set log. ?Q req resp)"
      by (intro allI exI [of _ "[]"]) (simp add: shim_log_refl)
  qed simp
  then show ?thesis by simp
qed

text \<open>What the stubs are.\<close>

lemma stub_effects_written:
  "WriteText p c \<in> set (stub_effects dir ex ls) \<Longrightarrow> p \<notin> ex \<and> SetMode p 384 \<in> set (stub_effects dir ex ls)"
  by (induction dir ex ls rule: stub_effects.induct) (auto simp: Let_def split: option.splits if_splits)

lemma stub_effects_complete:
  "line \<in> set ls \<Longrightarrow> keygrip_of_line line = Some g \<Longrightarrow>
     join_file dir (g @ ''.key'') \<in> ex \<or>
     WriteText (join_file dir (g @ ''.key'')) (''(shadowed-private-key)'' @ line_break) \<in> set (stub_effects dir ex ls)"
  by (induction dir ex ls rule: stub_effects.induct) (auto simp: Let_def split: option.splits if_splits)

section \<open>Properties\<close>

definition shim_ping :: "json_text \<Rightarrow> shim_connection" where
  "shim_ping J = \<lparr>shim_input = write_line_message J encode_request ping, shim_output = [], shim_open = True\<rparr>"

text \<open>
  C37. The proxy never reconnects: once the avatar no longer accepts bytes on the connection,
  every request of every shim connection, for ever, is answered by the proxy error with the
  request's id.
\<close>

theorem proxy_never_reconnects:
  assumes "\<forall>line. peer st line = None" and "proxy_run disp J peer (st, buf) cs ks = (cs', conn')"
  shows "conn' = (st, buf) \<and> (\<forall>k. \<exists>log. shim_log J (cs k) (cs' k) log \<and>
    (\<forall>(req, resp) \<in> set log. resp =
       response_error (request_id_or_null req) JSONRPC_INTERNAL_ERROR (''proxy error: '' @ disp NotSent)))"
proof -
  let ?Q = "\<lambda>req resp. resp =
    response_error (request_id_or_null req) JSONRPC_INTERNAL_ERROR (''proxy error: '' @ disp NotSent)"
  show ?thesis
  proof (rule proxy_run_log [where P = "\<lambda>conn. conn = (st, buf)" and Q = ?Q, OF _ assms(2)])
    show "conn = (st, buf) \<Longrightarrow> forward_to_avatar disp J peer conn req = (resp, conn') \<Longrightarrow>
        conn' = (st, buf) \<and> ?Q req resp" for conn req resp conn'
      using assms(1) by (auto simp: forward_to_avatar_def send_and_receive_def proxy_response_def)
    show "\<forall>k. \<exists>log. shim_log J (cs k) (cs k) log \<and> (\<forall>(req, resp) \<in> set log. ?Q req resp)"
      by (intro allI exI [of _ "[]"]) (simp add: shim_log_refl)
  qed simp
qed

theorem proxy_never_reconnects_witness:
  "snd (proxy_run (\<lambda>_. ''bad'') (toy_text (encode_request ping)) (\<lambda>_ _. None) ((), [1])
     (\<lambda>_. shim_ping (toy_text (encode_request ping))) [3, 3]) = ((), [1])"
proof -
  let ?J = "toy_text (encode_request ping)"
  obtain cs' conn' where run: "proxy_run (\<lambda>_. ''bad'') ?J (\<lambda>_ _. None) ((), [1]) (\<lambda>_. shim_ping ?J) [3, 3] =
      (cs', conn')" by (metis surj_pair)
  from proxy_never_reconnects [OF _ run] run show ?thesis by simp
qed

text \<open>
  C38. The order of the start-up: whichever steps fail, gpg-agent is only told to learn the card
  when the avatar gave a certificate, every file of the GnuPG home was written with it, the
  modes were set, and the socket that the shim connects back to was bound before.
\<close>

theorem learn_only_when_prepared:
  assumes "gpg_main J peer conn R S scdaemon = ((effects, ok), conn')"
    and "scd_learn (gs_gnupg_home S) \<in> set effects"
  shows "\<exists>cert_armor pre post. fst (fetch_cert J peer conn) = Some cert_armor \<and> effects = pre @ post \<and>
    scd_learn (gs_gnupg_home S) \<notin> set pre \<and> BindSocket (gs_gpg_socket S) \<in> set pre \<and>
    set (gnupg_home_effects (gs_gnupg_home S) cert_armor scdaemon (gs_gpg_socket S)) \<subseteq> set pre"
proof -
  obtain cert_armor where cert: "fst (fetch_cert J peer conn) = Some cert_armor"
    and run: "run_steps (gr_fails R) (prepare_steps S scdaemon cert_armor @ learn_steps R S) = (effects, ok)"
    using assms by (auto simp: gpg_main_def split: prod.splits option.splits)
  have no_learn: "scd_learn (gs_gnupg_home S) \<notin> step_effect ` set (prepare_steps S scdaemon cert_armor)"
    by (auto simp: prepare_steps_def gnupg_home_effects_def scd_learn_def kill_gpg_agent_def)
  from run_steps_order [OF run assms(2) no_learn] obtain pre post where split: "effects = pre @ post"
    and pre: "run_steps (gr_fails R) (prepare_steps S scdaemon cert_armor) = (pre, True)" by blast
  have "scd_learn (gs_gnupg_home S) \<notin> set pre" using run_steps_done [OF pre] no_learn by blast
  moreover have "BindSocket (gs_gpg_socket S) \<in> set pre"
    by (rule run_steps_musts [OF pre]) (simp add: prepare_steps_def)
  moreover have "set (gnupg_home_effects (gs_gnupg_home S) cert_armor scdaemon (gs_gpg_socket S)) \<subseteq> set pre"
    by (intro subsetI run_steps_musts [OF pre]) (simp add: prepare_steps_def)
  ultimately show ?thesis using cert split by blast
qed

definition cert_response :: json_rpc_response where
  "cert_response = response_success (json_of_nat 2) (JObject [(''public_cert_armor'', JString ''CERT'')])"

definition sample_gpg_settings :: gpg_settings where
  "sample_gpg_settings = \<lparr>gs_log_level = ''info'', gs_avatar_socket = ''/a'', gs_gpg_socket = ''/g'', gs_gnupg_home = ''/h''\<rparr>"

lemma fetch_cert_sample:
  "fetch_cert (toy_text (encode_response cert_response)) (\<lambda>_ _. Some (as_bytes ''x'' @ [0x0A], ())) ((), []) =
     (Some ''CERT'', (), [])"
proof -
  have "read_line_message (toy_text (encode_response cert_response)) decode_response (as_bytes ''x'' @ [0x0A]) =
      Inr (cert_response, [])"
    by (rule toy_response_line)
      (simp add: wire_response_def cert_response_def response_success_def json_of_nat_def wire_opt_def
        map_of_entries_def)
  then show ?thesis
    by (simp add: fetch_cert_def send_and_receive_def cert_response_def response_success_def get_str_def)
qed

theorem learn_only_when_prepared_witness:
  "\<exists>effects pre post. fst (fst (gpg_main (toy_text (encode_response cert_response))
      (\<lambda>_ _. Some (as_bytes ''x'' @ [0x0A], ())) ((), [])
      \<lparr>gr_fails = \<lambda>_. False, gr_list = None, gr_existing = {}\<rparr> sample_gpg_settings ''/usr/bin/scd-shim'')) = effects \<and>
    scd_learn ''/h'' \<in> set effects \<and> effects = pre @ post \<and> scd_learn ''/h'' \<notin> set pre \<and>
    BindSocket ''/g'' \<in> set pre"
proof -
  let ?run = "gpg_main (toy_text (encode_response cert_response)) (\<lambda>_ _. Some (as_bytes ''x'' @ [0x0A], ())) ((), [])
      \<lparr>gr_fails = \<lambda>_. False, gr_list = None, gr_existing = {}\<rparr> sample_gpg_settings ''/usr/bin/scd-shim''"
  obtain effects ok conn' where run: "?run = ((effects, ok), conn')" by (metis surj_pair)
  then have "effects = map step_effect (prepare_steps sample_gpg_settings ''/usr/bin/scd-shim'' ''CERT'' @
      learn_steps \<lparr>gr_fails = \<lambda>_. False, gr_list = None, gr_existing = {}\<rparr> sample_gpg_settings)"
    unfolding gpg_main_def fetch_cert_sample by (simp add: run_steps_all)
  then have learn: "scd_learn (gs_gnupg_home sample_gpg_settings) \<in> set effects"
    by (simp add: learn_steps_def Let_def)
  from learn_only_when_prepared [OF run learn] learn run show ?thesis
    by (auto simp: sample_gpg_settings_def)
qed

end
