(* ===== verification/Local_Client.thy ===== *)
theory Local_Client
  imports Framing "HOL-Library.Monad_Syntax"
begin

text \<open>
  The blocking client of the PKCS#11 module (crates/pkcs11-gpg/src/local_client.rs). A
  connection is the bytes the peer will ever send, the bytes written so far, and whether writes
  still succeed: whatever the peer does, and whenever it stops answering (the 30 s read timeout
  ends the stream), one run sees some such connection. Base64 is the crate \<open>base64\<close>, a parameter.
\<close>

record gpg_identity =
  id_key_type :: string
  id_public_key :: string
  id_label :: string

record local_client =
  lc_recv :: bytes
  lc_sent :: bytes
  lc_writable :: bool
  lc_next_id :: u64

datatype local_error =
    ConnectError
  | WriteError
  | ReadLenError
  | InvalidResponseLength nat
  | ReadResponseError
  | ParseResponseError
  | RequestIdMismatch
  | AvatarError string
  | MissingField string
  | ParseIdentitiesError
  | DecodeSignatureError

text \<open>What a connection attempt finds at the socket path: nothing, or a peer.\<close>

definition lc_connect :: "(bytes \<times> bool) option \<Rightarrow> local_error + local_client" where
  "lc_connect peer =
     (case peer of
        None \<Rightarrow> Inl ConnectError
      | Some (recv, writable) \<Rightarrow>
          Inr \<lparr>lc_recv = recv, lc_sent = [], lc_writable = writable, lc_next_id = 1\<rparr>)"

definition MAX_RESPONSE :: nat where "MAX_RESPONSE = 1024 * 1024"

definition local_request :: "u64 \<Rightarrow> string \<Rightarrow> json \<Rightarrow> json" where
  "local_request rid operation payload = json_object
     [(''service'', JString ''gpg''), (''request_id'', JNumber (PosInt rid)),
      (''operation'', JString operation), (''payload'', payload)]"

text \<open>The checks of a response: its request id, its status, its payload.\<close>

definition check_response :: "u64 \<Rightarrow> json \<Rightarrow> local_error + json" where
  "check_response rid resp =
     (if Option.bind (jget resp ''request_id'') as_u64 \<noteq> Some rid then Inl RequestIdMismatch
      else
        let status = (case get_str resp ''status'' of None \<Rightarrow> ''error'' | Some s \<Rightarrow> s) in
        if status \<noteq> ''ok'' then
          Inl (AvatarError (case get_str resp ''error'' of None \<Rightarrow> ''unknown error'' | Some m \<Rightarrow> m))
        else Inr (case jget resp ''payload'' of None \<Rightarrow> JNull | Some p \<Rightarrow> p))"

definition frame_local_error :: "frame_error \<Rightarrow> local_error" where
  "frame_local_error e =
     (case e of
        StreamEnded \<Rightarrow> ReadLenError
      | InvalidLength n \<Rightarrow> InvalidResponseLength n
      | PayloadEnded \<Rightarrow> ReadResponseError)"

definition lc_request ::
    "json_text \<Rightarrow> string \<Rightarrow> json \<Rightarrow> local_client \<Rightarrow> (local_error + json) \<times> local_client" where
  "lc_request J operation payload c =
     (let rid = lc_next_id c;
          c = c\<lparr>lc_next_id := rid + 1\<rparr>;
          data = as_bytes (json_to_string J (local_request rid operation payload))
      in
        if \<not> lc_writable c then (Inl WriteError, c)
        else
          let c = c\<lparr>lc_sent := lc_sent c @ write_frame data\<rparr> in
          (case read_frame MAX_RESPONSE (lc_recv c) of
             Inl e \<Rightarrow> (Inl (frame_local_error e), c)
           | Inr (buf, rest) \<Rightarrow>
               let c = c\<lparr>lc_recv := rest\<rparr> in
               (case json_from_slice J buf of
                  None \<Rightarrow> (Inl ParseResponseError, c)
                | Some resp \<Rightarrow> (check_response rid resp, c))))"

section \<open>Typed operations\<close>

definition de_identity_fields :: "field \<Rightarrow> field \<Rightarrow> field \<Rightarrow> gpg_identity option" where
  "de_identity_fields t p l = do {
     key_type \<leftarrow> de_string t;
     public_key \<leftarrow> de_string p;
     label \<leftarrow> de_string l;
     Some \<lparr>id_key_type = key_type, id_public_key = public_key, id_label = label\<rparr> }"

definition decode_identity :: "json \<Rightarrow> gpg_identity option" where
  "decode_identity v =
     (case v of
        JObject m \<Rightarrow> de_identity_fields (field_of ''key_type'' m) (field_of ''public_key'' m) (field_of ''label'' m)
      | JArray [t, p, l] \<Rightarrow> de_identity_fields (Present t) (Present p) (Present l)
      | _ \<Rightarrow> None)"

definition decode_identities :: "json \<Rightarrow> gpg_identity list option" where
  "decode_identities v = Option.bind (as_array v) (\<lambda>xs. those (map decode_identity xs))"

definition lc_request_identities ::
    "json_text \<Rightarrow> local_client \<Rightarrow> (local_error + gpg_identity list) \<times> local_client" where
  "lc_request_identities J c =
     (case lc_request J ''request_identities'' (json_object []) c of
        (Inl e, c) \<Rightarrow> (Inl e, c)
      | (Inr payload, c) \<Rightarrow>
          (case jget payload ''identities'' of
             None \<Rightarrow> (Inl (MissingField ''identities''), c)
           | Some v \<Rightarrow>
               (case decode_identities v of
                  None \<Rightarrow> (Inl ParseIdentitiesError, c)
                | Some ids \<Rightarrow> (Inr ids, c))))"

definition lc_get_public_cert ::
    "json_text \<Rightarrow> local_client \<Rightarrow> (local_error + string) \<times> local_client" where
  "lc_get_public_cert J c =
     (case lc_request J ''get_public_cert'' (json_object []) c of
        (Inl e, c) \<Rightarrow> (Inl e, c)
      | (Inr payload, c) \<Rightarrow>
          (case get_str payload ''public_cert_armor'' of
             None \<Rightarrow> (Inl (MissingField ''public_cert_armor''), c)
           | Some armor \<Rightarrow> (Inr armor, c)))"

definition sign_payload :: "base64_lib \<Rightarrow> nat \<Rightarrow> bytes \<Rightarrow> bytes \<Rightarrow> json" where
  "sign_payload B key_index public_key data = json_object
     [(''key_index'', json_of_nat key_index), (''public_key'', JString (b64_encode B public_key)),
      (''data'', JString (b64_encode B data)), (''mechanism'', JString ''eddsa'')]"

definition lc_sign ::
    "json_text \<Rightarrow> base64_lib \<Rightarrow> nat \<Rightarrow> bytes \<Rightarrow> bytes \<Rightarrow> local_client \<Rightarrow>
      (local_error + bytes) \<times> local_client" where
  "lc_sign J B key_index public_key data c =
     (case lc_request J ''sign_request'' (sign_payload B key_index public_key data) c of
        (Inl e, c) \<Rightarrow> (Inl e, c)
      | (Inr payload, c) \<Rightarrow>
          (case get_str payload ''signature'' of
             None \<Rightarrow> (Inl (MissingField ''signature''), c)
           | Some s \<Rightarrow>
               (case b64_decode B s of
                  None \<Rightarrow> (Inl DecodeSignatureError, c)
                | Some sig \<Rightarrow> (Inr sig, c))))"

section \<open>Lemmas\<close>

lemma lc_request_next_id [simp]:
  "lc_next_id (snd (lc_request J op p c)) = lc_next_id c + 1"
  by (auto simp: lc_request_def Let_def split: sum.split option.split prod.splits)

lemma lc_request_sent:
  "lc_sent (snd (lc_request J op p c)) = lc_sent c @
     (if lc_writable c then
        write_frame (as_bytes (json_to_string J (local_request (lc_next_id c) op p)))
      else [])"
  by (auto simp: lc_request_def Let_def split: sum.split option.split prod.splits)

lemma check_response_OkD:
  "check_response rid resp = Inr p \<Longrightarrow>
     Option.bind (jget resp ''request_id'') as_u64 = Some rid \<and> get_str resp ''status'' = Some ''ok''"
  by (auto simp: check_response_def Let_def split: if_splits option.splits)

text \<open>A success comes from a frame that answers this very request.\<close>

lemma lc_request_OkD:
  assumes "lc_request J op p c = (Inr payload, c')"
  shows "\<exists>buf resp. lc_writable c \<and> read_frame MAX_RESPONSE (lc_recv c) = Inr (buf, lc_recv c') \<and>
    json_from_slice J buf = Some resp \<and>
    Option.bind (jget resp ''request_id'') as_u64 = Some (lc_next_id c) \<and>
    get_str resp ''status'' = Some ''ok'' \<and>
    payload = (case jget resp ''payload'' of None \<Rightarrow> JNull | Some x \<Rightarrow> x)"
  using assms
  by (auto simp: lc_request_def Let_def check_response_def split: sum.splits option.splits prod.splits if_splits)

lemma jget_local_request:
  "jget (local_request rid op p) ''request_id'' = Some (JNumber (PosInt rid))"
  "jget (local_request rid op p) ''operation'' = Some (JString op)"
  "jget (local_request rid op p) ''payload'' = Some p"
  by (simp_all add: local_request_def jget_json_object)

text \<open>Read timeouts and early ends are errors: no frame, no answer.\<close>

lemma lc_request_no_frame:
  "read_frame MAX_RESPONSE (lc_recv c) = Inl e \<Longrightarrow> lc_writable c \<Longrightarrow>
     fst (lc_request J op p c) = Inl (frame_local_error e)"
  by (simp add: lc_request_def Let_def)

section \<open>The other end of the socket\<close>

text \<open>
  The length prefix of a frame below 16 MiB starts with a zero byte, so the first line the
  avatar reads from this client starts with one.
\<close>

lemma write_frame_first_zero:
  assumes "length data < 2 ^ 24"
  shows "\<exists>r. write_frame data = 0 # r"
proof -
  have "unat (of_nat (length data) :: u32) < 2 ^ 24"
    using assms by (simp add: unat_of_nat)
  then have "drop_bit 24 (of_nat (length data) :: u32) = 0"
    by (simp add: drop_bit_eq_div word_unat_eq_iff unat_div)
  then show ?thesis by (simp add: write_frame_def u32_to_be_bytes_def)
qed

lemma split_line_first: "\<exists>l. fst (split_line (b # s)) = b # l"
  by (auto split: prod.splits)

text \<open>A zero byte is no white space, so trimming the end of a line keeps one at its start.\<close>

lemma ws_rev_len_nul: "ws_rev_len (u @ [CHR 0x00]) \<le> length u"
proof (cases "u @ [CHR 0x00]" rule: ws_rev_len.cases)
  case (1 c b a s)
  then have "length u + 1 = length s + 3" by (metis length_Cons length_append_singleton Suc_eq_plus1 add_Suc_right eval_nat_numeral(3) numeral_2_eq_2 add.right_neutral add_Suc_shift)
  with 1 show ?thesis by (cases s) (auto simp: ws3_def)
qed (auto simp: ascii_ws_def ws2_def)

lemma trim_rev_nul: "\<exists>v. trim_rev (u @ [CHR 0x00]) = v @ [CHR 0x00]"
proof (induction "length u" arbitrary: u rule: less_induct)
  case less
  show ?case
  proof (cases "ws_rev_len (u @ [CHR 0x00]) = 0")
    case True
    then show ?thesis by (simp add: trim_rev.simps [of "u @ [CHR 0x00]"])
  next
    case False
    let ?n = "ws_rev_len (u @ [CHR 0x00])"
    have "?n \<le> length u" by (rule ws_rev_len_nul)
    then have "drop ?n (u @ [CHR 0x00]) = drop ?n u @ [CHR 0x00]" "length (drop ?n u) < length u"
      using False by simp_all
    with less [of "drop ?n u"] False show ?thesis
      by (simp add: trim_rev.simps [of "u @ [CHR 0x00]"])
  qed
qed

lemma trim_end_nul: "\<exists>t'. trim_end (CHR 0x00 # t) = CHR 0x00 # t'"
proof -
  obtain v where "trim_rev (rev t @ [CHR 0x00]) = v @ [CHR 0x00]" using trim_rev_nul by blast
  then have "trim_end (CHR 0x00 # t) = CHR 0x00 # rev v" by (simp add: trim_end_def)
  then show ?thesis by blast
qed

section \<open>Properties\<close>

text \<open>
  C39. The client of the PKCS#11 module does not speak the protocol of the avatar's socket: no
  request that it can send (any operation and payload, below 16 MiB of JSON) is ever read by
  the avatar as a message, whatever follows it, given that no JSON text starts with a zero byte.
\<close>

theorem pkcs11_request_never_read:
  assumes "\<forall>t. json_from_str J (CHR 0x00 # t) = None"
    and "length (json_to_string J (local_request (lc_next_id c) op p)) < 2 ^ 24" and "lc_sent c = []"
    and "lc_writable c"
  shows "\<exists>e. read_line_message J decode (lc_sent (snd (lc_request J op p c)) @ suf) = Inl e"
proof -
  have "\<exists>r. lc_sent (snd (lc_request J op p c)) = 0 # r"
    using write_frame_first_zero [of "as_bytes (json_to_string J (local_request (lc_next_id c) op p))"] assms
    by (simp add: lc_request_sent)
  then obtain r where r: "lc_sent (snd (lc_request J op p c)) @ suf = 0 # r" by auto
  obtain l rest where sp: "split_line (0 # r) = (0 # l, rest)"
    using split_line_first [of 0 r] by (metis prod.collapse)
  have nul: "char_of (0 :: nat) = CHR 0x00" by (simp add: char_of_def)
  have "from_utf8 (0 # l) = Some t \<Longrightarrow> \<exists>t'. t = CHR 0x00 # t'" for t
    by (auto simp: from_utf8_def string_of_bytes_def nul split: if_splits)
  then have "from_utf8 (0 # l) = Some t \<Longrightarrow> json_from_str J (trim_end t) = None" for t
    using assms(1) trim_end_nul by metis
  then show ?thesis using sp
    unfolding r by (cases "from_utf8 (0 # l)") (auto simp: read_line_message_def Let_def)
qed

definition no_json :: json_text where
  "no_json = \<lparr>json_to_string = \<lambda>_. ''{}'', json_from_str = \<lambda>t. if t = ''{}'' then Some (JObject []) else None\<rparr>"

theorem pkcs11_request_never_read_witness:
  "\<exists>e. read_line_message no_json decode_message
     (lc_sent (snd (lc_request no_json ''get_public_cert'' (json_object [])
        \<lparr>lc_recv = [], lc_sent = [], lc_writable = True, lc_next_id = 1\<rparr>)) @ [0x0A]) = Inl e"
  by (rule pkcs11_request_never_read) (simp_all add: no_json_def)

end
