(* ===== verification/Scd_Shim.thy ===== *)
theory Scd_Shim
  imports Local_Client
begin

text \<open>
  The scdaemon replacement that gpg-agent starts (crates/scd-shim/src/main.rs): Assuan commands
  on its standard input, JSON-RPC to the GPG service avatar. SHA-1, base64, the text of JSON and
  the wording of library errors are parameters. A panic is \<open>None\<close>; the log is left out.
\<close>

section \<open>The client of the proxy\<close>

record scd_lib =
  sl_text :: json_text
  sl_base64 :: base64_lib
  sl_sha1 :: "bytes \<Rightarrow> bytes"
  sl_error :: "string \<Rightarrow> string" \<comment> \<open>the text of the library error met at a step\<close>

text \<open>
  What a read finds: bytes that arrive before the 30 s timeout, or the bytes after which the
  peer closes. A read with neither a line break nor a close times out, and what it had taken
  from the buffer is lost with the local \<open>line\<close>.
\<close>

datatype arrival = Arrives bytes | Closes bytes

record gpg_sa_client =
  gsc_buffer :: bytes
  gsc_arrivals :: "arrival list"
  gsc_sent :: bytes
  gsc_next_id :: u64

definition gsc_connect :: "arrival list option \<Rightarrow> gpg_sa_client option" where
  "gsc_connect peer =
     map_option (\<lambda>arrivals. \<lparr>gsc_buffer = [], gsc_arrivals = arrivals, gsc_sent = [], gsc_next_id = 1\<rparr>) peer"

text \<open>\<open>read_line\<close> with the timeout, on the buffered reader: \<open>None\<close> is an error.\<close>

definition gsc_read_line :: "gpg_sa_client \<Rightarrow> string option \<times> gpg_sa_client" where
  "gsc_read_line c =
     (if 0x0A \<in> set (gsc_buffer c) then
        (case split_line (gsc_buffer c) of (l, r) \<Rightarrow> (from_utf8 l, c\<lparr>gsc_buffer := r\<rparr>))
      else
        (case gsc_arrivals c of
           [] \<Rightarrow> (None, c\<lparr>gsc_buffer := []\<rparr>)
         | Arrives bs # rest \<Rightarrow>
             if 0x0A \<in> set bs then
               (case split_line (gsc_buffer c @ bs) of
                  (l, r) \<Rightarrow> (from_utf8 l, c\<lparr>gsc_buffer := r, gsc_arrivals := rest\<rparr>))
             else (None, c\<lparr>gsc_buffer := [], gsc_arrivals := rest\<rparr>)
         | Closes bs # rest \<Rightarrow>
             (case split_line (gsc_buffer c @ bs) of
                (l, r) \<Rightarrow> (from_utf8 l, c\<lparr>gsc_buffer := r, gsc_arrivals := [Closes []]\<rparr>))))"

definition gsc_request_json :: "string \<Rightarrow> json \<Rightarrow> u64 \<Rightarrow> json" where
  "gsc_request_json meth params i = json_object
     [(''jsonrpc'', JString ''2.0''), (''method'', JString meth), (''params'', params),
      (''id'', JNumber (PosInt i))]"

definition gsc_request ::
    "scd_lib \<Rightarrow> string \<Rightarrow> json \<Rightarrow> gpg_sa_client \<Rightarrow> (string + json) \<times> gpg_sa_client" where
  "gsc_request L meth params c =
     (let data = as_bytes (json_to_string (sl_text L) (gsc_request_json meth params (gsc_next_id c))) @ [0x0A];
          c = c\<lparr>gsc_next_id := gsc_next_id c + 1, gsc_sent := gsc_sent c @ data\<rparr>
      in
        (case gsc_read_line c of
           (None, c) \<Rightarrow> (Inl (''read response: '' @ sl_error L ''read''), c)
         | (Some line, c) \<Rightarrow>
             (case from_str_value (sl_text L) (trim_end line) of
                None \<Rightarrow> (Inl (''parse response: '' @ sl_error L ''parse''), c)
              | Some resp \<Rightarrow>
                  (case jget resp ''error'' of
                     Some err \<Rightarrow> (Inl (''proxy error: '' @
                        (case get_str err ''message'' of None \<Rightarrow> ''unknown error'' | Some m \<Rightarrow> m)), c)
                   | None \<Rightarrow> (Inr (case jget resp ''result'' of None \<Rightarrow> JNull | Some r \<Rightarrow> r), c)))))"

definition gsc_request_identities ::
    "scd_lib \<Rightarrow> gpg_sa_client \<Rightarrow> (string + gpg_identity list) \<times> gpg_sa_client" where
  "gsc_request_identities L c =
     (case gsc_request L ''gpg.request_identities'' (json_object []) c of
        (Inl e, c) \<Rightarrow> (Inl e, c)
      | (Inr payload, c) \<Rightarrow>
          (case jget payload ''identities'' of
             None \<Rightarrow> (Inl ''missing 'identities' in response'', c)
           | Some v \<Rightarrow>
               (case decode_identities v of
                  None \<Rightarrow> (Inl (''parse identities: '' @ sl_error L ''identities''), c)
                | Some ids \<Rightarrow> (Inr ids, c))))"

definition gsc_sign ::
    "scd_lib \<Rightarrow> nat \<Rightarrow> bytes \<Rightarrow> bytes \<Rightarrow> gpg_sa_client \<Rightarrow> (string + bytes) \<times> gpg_sa_client" where
  "gsc_sign L key_index public_key data c =
     (case gsc_request L ''gpg.sign_request'' (sign_payload (sl_base64 L) key_index public_key data) c of
        (Inl e, c) \<Rightarrow> (Inl e, c)
      | (Inr payload, c) \<Rightarrow>
          (case get_str payload ''signature'' of
             None \<Rightarrow> (Inl ''missing 'signature' in response'', c)
           | Some s \<Rightarrow>
               (case b64_decode (sl_base64 L) s of
                  None \<Rightarrow> (Inl (''decode signature: '' @ sl_error L ''signature''), c)
                | Some sig \<Rightarrow> (Inr sig, c))))"

text \<open>The socket of the proxy: the environment, then the file in the GnuPG home, then the default.\<close>

definition SCD_DEFAULT_SOCKET :: string where "SCD_DEFAULT_SOCKET = ''/tmp/keymaster-avatar-gpg.sock''"
definition SERIAL :: string where "SERIAL = ''D2760001240103000000000000000100''"

definition find_socket_path :: "string option \<Rightarrow> string option \<Rightarrow> (string \<Rightarrow> string option) \<Rightarrow> string" where
  "find_socket_path km_gpg_sa_socket gnupghome socket_file_of =
     (case km_gpg_sa_socket of
        Some path \<Rightarrow> path
      | None \<Rightarrow>
          (case Option.bind gnupghome socket_file_of of
             Some contents \<Rightarrow> if trim contents \<noteq> [] then trim contents else SCD_DEFAULT_SOCKET
           | None \<Rightarrow> SCD_DEFAULT_SOCKET))"

section \<open>Keys\<close>

record scd_identity =
  si_public_key :: bytes
  si_index :: nat
  si_keygrip :: string
  si_keyref :: string

definition public_key_sexp :: "bytes \<Rightarrow> bytes" where
  "public_key_sexp public_key =
     as_bytes ''(10:public-key(3:ecc(5:curve7:Ed25519)(5:flags5:eddsa)(1:q33:'' @ [0x40] @ public_key @
     as_bytes '')))''"

definition curve_p :: bytes where "curve_p = [0x7F] @ replicate 30 0xFF @ [0xED]"
definition curve_a :: bytes where "curve_a = [0x01]"
definition curve_b :: bytes where
  "curve_b =
     [0x2D, 0xFC, 0x93, 0x11, 0xD4, 0x90, 0x01, 0x8C, 0x73, 0x38, 0xBF, 0x86, 0x88, 0x86, 0x17, 0x67,
      0xFF, 0x8F, 0xF5, 0xB2, 0xBE, 0xBE, 0x27, 0x54, 0x8A, 0x14, 0xB2, 0x35, 0xEC, 0xA6, 0x87, 0x4A]"
definition curve_g :: bytes where
  "curve_g =
     [0x04,
      0x21, 0x69, 0x36, 0xD3, 0xCD, 0x6E, 0x53, 0xFE, 0xC0, 0xA4, 0xE2, 0x31, 0xFD, 0xD6, 0xDC, 0x5C,
      0x69, 0x2C, 0xC7, 0x60, 0x95, 0x25, 0xA7, 0xB2, 0xC9, 0x56, 0x2D, 0x60, 0x8F, 0x25, 0xD5, 0x1A] @
     replicate 31 0x66 @ [0x58]"
definition curve_n :: bytes where
  "curve_n = [0x10] @ replicate 15 0x00 @
     [0x14, 0xDE, 0xF9, 0xDE, 0xA2, 0xF7, 0x9C, 0xD6, 0x58, 0x12, 0x63, 0x1A, 0x5C, 0xF5, 0xD3, 0xED]"

definition grip_element :: "string \<times> bytes \<Rightarrow> bytes" where
  "grip_element = (\<lambda>(name, v).
     as_bytes (''(1:'' @ name @ nat_to_dec (length v)) @ as_bytes '':'' @ v @ as_bytes '')'')"

definition keygrip_input :: "bytes \<Rightarrow> bytes" where
  "keygrip_input public_key = concat (map grip_element
     [(''p'', curve_p), (''a'', curve_a), (''b'', curve_b), (''g'', curve_g), (''n'', curve_n),
      (''q'', public_key)])"

definition compute_keygrip :: "scd_lib \<Rightarrow> bytes \<Rightarrow> string" where
  "compute_keygrip L public_key = concat (map hex_byte_upper (sl_sha1 L (keygrip_input public_key)))"

section \<open>Hexadecimal text\<close>

text \<open>
  Two bytes at a time: the slice panics when it would cut a character, and
  \<open>from_str_radix\<close> takes a plus sign as the first of the two.
\<close>

fun hex_decode_from :: "string \<Rightarrow> nat \<Rightarrow> string \<Rightarrow> (string + bytes) option" where
  "hex_decode_from whole i (a # b # cs) =
     (if \<not> is_char_boundary whole i \<or> \<not> is_char_boundary whole (i + 2) then None
      else
        (case u8_from_str_radix16 [a, b] of
           Inl e \<Rightarrow> Some (Inl (''hex decode at '' @ nat_to_dec i @ '': '' @ int_error_text e))
         | Inr byte \<Rightarrow>
             map_option (map_sum id ((#) byte)) (hex_decode_from whole (i + 2) cs)))"
| "hex_decode_from whole i _ = Some (Inr [])"

definition hex_decode :: "string \<Rightarrow> (string + bytes) option" where
  "hex_decode s =
     (let s = trim s in
      if length s mod 2 \<noteq> 0 then Some (Inl ''odd-length hex string'') else hex_decode_from s 0 s)"

section \<open>Output\<close>

definition send_ok :: "string \<Rightarrow> bytes" where
  "send_ok msg = as_bytes (if msg = [] then ''OK'' else ''OK '' @ msg) @ [0x0A]"

definition send_err :: "nat \<Rightarrow> string \<Rightarrow> bytes" where
  "send_err code msg = as_bytes (''ERR '' @ nat_to_dec code @ '' '' @ msg) @ [0x0A]"

definition send_status :: "string \<Rightarrow> string \<Rightarrow> bytes" where
  "send_status keyword v = as_bytes (''S '' @ keyword @ '' '' @ v) @ [0x0A]"

definition escape_byte :: "byte \<Rightarrow> bytes" where
  "escape_byte b =
     (if b = 0x25 then as_bytes ''%25'' else if b = 0x0D then as_bytes ''%0D''
      else if b = 0x0A then as_bytes ''%0A'' else [b])"

definition send_data :: "bytes \<Rightarrow> bytes" where
  "send_data data = as_bytes ''D '' @ concat (map escape_byte data) @ [0x0A]"

section \<open>Commands\<close>

record scd_state =
  scd_identities :: "scd_identity list"
  scd_stored_data :: bytes
  scd_client :: gpg_sa_client

definition parse_command :: "string \<Rightarrow> string \<times> string" where
  "parse_command line =
     (case find_ws line of
        Some i \<Rightarrow> (take i line, trim_start (drop i line))
      | None \<Rightarrow> (line, []))"

lemma trim_start_length: "length (trim_start s) \<le> length s"
proof (induction s rule: trim_start.induct)
  case (1 s)
  then show ?case by (subst trim_start.simps) (auto intro: le_trans)
qed

lemma find_ws_option: "starts_with s ''--'' \<Longrightarrow> find_ws s = Some i \<Longrightarrow> 0 < i \<and> s \<noteq> []"
  by (cases s) (auto simp: starts_with_def graph_def split: if_splits)

function skip_options :: "string \<Rightarrow> string" where
  "skip_options line =
     (let rest = trim_start line in
      if starts_with rest ''--'' then
        (case find_ws rest of Some i \<Rightarrow> skip_options (drop i rest) | None \<Rightarrow> [])
      else rest)"
  by pat_completeness auto
termination
proof (relation "measure length")
  fix line rest i
  assume rest: "rest = trim_start line" "starts_with rest ''--''" "find_ws rest = Some i"
  then have "0 < i" "rest \<noteq> []" using find_ws_option by blast+
  then have "length (drop i rest) < length rest" by simp
  also have "\<dots> \<le> length line" using trim_start_length [of line] rest(1) by simp
  finally show "(drop i rest, line) \<in> measure length" by simp
qed simp

declare skip_options.simps [simp del]

text \<open>\<open>args.find("--demand=")\<close>: the text after the first occurrence.\<close>

fun after_first :: "string \<Rightarrow> string \<Rightarrow> string option" where
  "after_first pat [] = (if pat = [] then Some [] else None)"
| "after_first pat (c # cs) =
     (if starts_with (c # cs) pat then Some (drop (length pat) (c # cs)) else after_first pat cs)"

definition trim_end_zeros :: "string \<Rightarrow> string" where
  "trim_end_zeros s = rev (dropWhile (\<lambda>c. c = CHR ''0'') (rev s))"

definition handle_serialno :: "string \<Rightarrow> bytes" where
  "handle_serialno args =
     (case after_first ''--demand='' args of
        Some demand \<Rightarrow>
          let demand_serial = takeWhile is_ascii_hexdigit demand;
              our = trim_end_zeros SERIAL;
              theirs = trim_end_zeros demand_serial
          in if our = theirs then send_status ''SERIALNO'' SERIAL @ send_ok []
             else send_err 67 ''Card not present''
      | None \<Rightarrow> send_status ''SERIALNO'' SERIAL @ send_ok [])"

definition handle_learn :: "scd_state \<Rightarrow> bytes" where
  "handle_learn st =
     send_status ''SERIALNO'' SERIAL @ send_status ''APPTYPE'' ''OPENPGP'' @
     concat (map (\<lambda>i. send_status ''KEYPAIRINFO'' (si_keygrip i @ '' '' @ si_keyref i)) (scd_identities st)) @
     send_ok []"

definition handle_readkey :: "scd_state \<Rightarrow> string \<Rightarrow> bytes" where
  "handle_readkey st args =
     (let keyref = trim (skip_options args) in
      case find (\<lambda>i. si_keyref i = keyref \<or> si_keygrip i = keyref) (scd_identities st) of
        Some i \<Rightarrow> send_data (public_key_sexp (si_public_key i)) @ send_ok []
      | None \<Rightarrow> send_err 69 ''No such key'')"

definition handle_setdata :: "scd_state \<Rightarrow> string \<Rightarrow> (bytes \<times> scd_state) option" where
  "handle_setdata st args =
     map_option (\<lambda>r. case r of
         Inr data \<Rightarrow> (send_ok [], st\<lparr>scd_stored_data := data\<rparr>)
       | Inl e \<Rightarrow> (send_err 62 (''Invalid hex data: '' @ e), st))
       (hex_decode (remove_ws args))"

definition SHA256_PREFIX :: bytes where
  "SHA256_PREFIX =
     [0x30, 0x31, 0x30, 0x0D, 0x06, 0x09, 0x60, 0x86, 0x48, 0x01,
      0x65, 0x03, 0x04, 0x02, 0x01, 0x05, 0x00, 0x04, 0x20]"
definition SHA512_PREFIX :: bytes where
  "SHA512_PREFIX =
     [0x30, 0x51, 0x30, 0x0D, 0x06, 0x09, 0x60, 0x86, 0x48, 0x01,
      0x65, 0x03, 0x04, 0x02, 0x03, 0x05, 0x00, 0x04, 0x40]"

definition strip_digest_info :: "bytes \<Rightarrow> bytes" where
  "strip_digest_info data =
     (if length data = 51 \<and> take (length SHA256_PREFIX) data = SHA256_PREFIX then drop (length SHA256_PREFIX) data
      else if length data = 83 \<and> take (length SHA512_PREFIX) data = SHA512_PREFIX then
        drop (length SHA512_PREFIX) data
      else data)"

definition pksign_identity :: "scd_state \<Rightarrow> string \<Rightarrow> scd_identity option" where
  "pksign_identity st keyid =
     (case find (\<lambda>i. si_keygrip i = keyid \<or> si_keyref i = keyid) (scd_identities st) of
        Some i \<Rightarrow> Some i
      | None \<Rightarrow> find (\<lambda>i. si_keyref i = ''OPENPGP.3'') (scd_identities st))"

definition handle_pksign :: "scd_lib \<Rightarrow> scd_state \<Rightarrow> string \<Rightarrow> bytes \<times> scd_state" where
  "handle_pksign L st args =
     (let keyid = trim (skip_options args) in
      case pksign_identity st keyid of
        None \<Rightarrow> (send_err 69 ''No matching key found'', st)
      | Some identity \<Rightarrow>
          if scd_stored_data st = [] then (send_err 76 ''No data to sign (call SETDATA first)'', st)
          else
            let sign_data = strip_digest_info (scd_stored_data st) in
            (case gsc_sign L (si_index identity) (si_public_key identity) sign_data (scd_client st) of
               (Inr sig, client) \<Rightarrow>
                 let st = st\<lparr>scd_client := client\<rparr> in
                 if length sig \<noteq> 64 then (send_err 2 ''Invalid signature length'', st)
                 else (send_data sig @ send_ok [], st\<lparr>scd_stored_data := []\<rparr>)
             | (Inl e, client) \<Rightarrow>
                 (send_err 2 (''Sign error: '' @ e), st\<lparr>scd_client := client, scd_stored_data := []\<rparr>)))"

definition handle_keyinfo :: "scd_state \<Rightarrow> bytes" where
  "handle_keyinfo st =
     concat (map (\<lambda>i. send_status ''KEYINFO''
       (si_keygrip i @ '' T '' @ SERIAL @ '' '' @ si_keyref i @ '' - - - -'')) (scd_identities st)) @ send_ok []"

definition handle_getattr :: "scd_state \<Rightarrow> string \<Rightarrow> bytes" where
  "handle_getattr st args =
     (let attr = trim args in
      if attr = ''SERIALNO'' then send_status ''SERIALNO'' SERIAL @ send_ok []
      else if attr = ''APPTYPE'' then send_status ''APPTYPE'' ''OPENPGP'' @ send_ok []
      else if attr = ''KEY-ATTR'' then
        concat (map (\<lambda>i. send_status ''KEY-ATTR'' (si_keyref i @ '' 22 1.3.101.112'')) (scd_identities st)) @
        send_ok []
      else if attr = ''$AUTHKEYID'' then
        (case find (\<lambda>i. si_keyref i = ''OPENPGP.3'') (scd_identities st) of
           Some i \<Rightarrow> send_status ''AUTHKEYID'' (si_keyref i) | None \<Rightarrow> []) @ send_ok []
      else if attr = ''CHV-STATUS'' then send_status ''CHV-STATUS'' ''1 -1 -1 -1 3 3 3'' @ send_ok []
      else if attr = ''DISP-NAME'' then send_status ''DISP-NAME'' ''KeyMaster'' @ send_ok []
      else send_ok [])"

definition handle_getinfo :: "nat \<Rightarrow> string \<Rightarrow> bytes" where
  "handle_getinfo pid args =
     (let what = trim args in
      if what = ''socket_name'' then send_err 69 ''Not a socket-based daemon''
      else if what = ''version'' then send_data (as_bytes ''0.1.0'') @ send_ok []
      else if what = ''pid'' then as_bytes (''D '' @ nat_to_dec pid) @ [0x0A] @ send_ok []
      else send_ok [])"

section \<open>The command loop\<close>

definition upper_ascii :: "char \<Rightarrow> char" where
  "upper_ascii c = (if 97 \<le> cn c \<and> cn c \<le> 122 then char_of (cn c - 32) else c)"

text \<open>
  \<open>to_uppercase\<close>, as far as a comparison with ASCII keywords can tell: the characters beyond
  ASCII whose upper case is ASCII text are the dotless i, the long s, the sharp s and the Latin
  ligatures; any other one keeps bytes that no keyword has.
\<close>

fun to_uppercase :: "string \<Rightarrow> string" where
  "to_uppercase (a # b # c # cs) =
     (if cn a = 0xC4 \<and> cn b = 0xB1 then ''I'' @ to_uppercase (c # cs)
      else if cn a = 0xC5 \<and> cn b = 0xBF then ''S'' @ to_uppercase (c # cs)
      else if cn a = 0xC3 \<and> cn b = 0x9F then ''SS'' @ to_uppercase (c # cs)
      else if cn a = 0xEF \<and> cn b = 0xAC \<and> 0x80 \<le> cn c \<and> cn c \<le> 0x86 then
        [''FF'', ''FI'', ''FL'', ''FFI'', ''FFL'', ''ST'', ''ST''] ! (cn c - 0x80) @ to_uppercase cs
      else upper_ascii a # to_uppercase (b # c # cs))"
| "to_uppercase [a, b] =
     (if cn a = 0xC4 \<and> cn b = 0xB1 then ''I'' else if cn a = 0xC5 \<and> cn b = 0xBF then ''S''
      else if cn a = 0xC3 \<and> cn b = 0x9F then ''SS'' else [upper_ascii a, upper_ascii b])"
| "to_uppercase [a] = [upper_ascii a]"
| "to_uppercase [] = []"

text \<open>One command: its output, the state, and whether the loop goes on.\<close>

definition scd_command :: "scd_lib \<Rightarrow> nat \<Rightarrow> scd_state \<Rightarrow> string \<Rightarrow> (bytes \<times> scd_state \<times> bool) option" where
  "scd_command L pid st line =
     (let trimmed = trim line in
      if trimmed = [] then Some ([], st, True)
      else
        let (cmd, args) = parse_command trimmed; kw = to_uppercase cmd in
        if kw = ''SERIALNO'' then Some (handle_serialno args, st, True)
        else if kw = ''LEARN'' then Some (handle_learn st, st, True)
        else if kw = ''READKEY'' then Some (handle_readkey st args, st, True)
        else if kw = ''SETDATA'' then map_option (\<lambda>(out, st). (out, st, True)) (handle_setdata st args)
        else if kw = ''PKSIGN'' then (case handle_pksign L st args of (out, st) \<Rightarrow> Some (out, st, True))
        else if kw = ''KEYINFO'' then Some (handle_keyinfo st, st, True)
        else if kw = ''GETATTR'' then Some (handle_getattr st args, st, True)
        else if kw = ''GETINFO'' then Some (handle_getinfo pid args, st, True)
        else if kw = ''READCERT'' then Some (send_err 69 ''Not supported'', st, True)
        else if kw = ''RESTART'' \<or> kw = ''RESET'' then Some (send_ok [], st\<lparr>scd_stored_data := []\<rparr>, True)
        else if kw = ''BYE'' then Some (send_ok ''closing connection'', st, False)
        else Some (send_ok [], st, True))"

text \<open>\<open>stdin.lines()\<close>: \<open>None\<close> is a line that is not UTF-8, which ends the loop.\<close>

fun scd_loop :: "scd_lib \<Rightarrow> nat \<Rightarrow> scd_state \<Rightarrow> string option list \<Rightarrow> (bytes \<times> scd_state) option" where
  "scd_loop L pid st [] = Some ([], st)"
| "scd_loop L pid st (None # _) = Some ([], st)"
| "scd_loop L pid st (Some line # rest) =
     (case scd_command L pid st line of
        None \<Rightarrow> None
      | Some (out, st, go_on) \<Rightarrow>
          if go_on then map_option (\<lambda>(out', st). (out @ out', st)) (scd_loop L pid st rest)
          else Some (out, st))"

definition decode_identity_key :: "scd_lib \<Rightarrow> nat \<times> gpg_identity \<Rightarrow> (bytes \<times> string \<times> nat) option" where
  "decode_identity_key L = (\<lambda>(i, raw).
     if id_key_type raw \<noteq> ''ed25519'' then None
     else (case b64_decode (sl_base64 L) (id_public_key raw) of
             Some pk \<Rightarrow> if length pk = 32 then Some (pk, id_label raw, i) else None
           | None \<Rightarrow> None))"

definition scd_keyref :: "nat \<Rightarrow> string" where
  "scd_keyref i = (if i = 0 then ''OPENPGP.1'' else if i = 1 then ''OPENPGP.3'' else ''OPENPGP.1'')"

definition scd_identities_of :: "scd_lib \<Rightarrow> gpg_identity list \<Rightarrow> scd_identity list" where
  "scd_identities_of L raw =
     map (\<lambda>(i, pk, label, index).
         \<lparr>si_public_key = pk, si_index = index, si_keygrip = compute_keygrip L pk, si_keyref = scd_keyref i\<rparr>)
       (enumerate 0 (List.map_filter (decode_identity_key L) (enumerate 0 raw)))"

text \<open>The program: what it writes to its standard output before it ends, and its final state.\<close>

definition scd_main ::
    "scd_lib \<Rightarrow> nat \<Rightarrow> arrival list option \<Rightarrow> string option list \<Rightarrow> (bytes \<times> scd_state option) option" where
  "scd_main L pid peer stdin =
     (case gsc_connect peer of
        None \<Rightarrow> Some (as_bytes (''ERR 2 Cannot connect to km-gpg-sa: '' @ sl_error L ''connect'') @ [0x0A], None)
      | Some client \<Rightarrow>
          (case gsc_request_identities L client of
             (Inl e, _) \<Rightarrow> Some (as_bytes (''ERR 2 Cannot fetch identities: '' @ e) @ [0x0A], None)
           | (Inr raw, client) \<Rightarrow>
               map_option (\<lambda>(out, st). (as_bytes ''OK scd-shim ready'' @ [0x0A] @ out, Some st))
                 (scd_loop L pid \<lparr>scd_identities = scd_identities_of L raw, scd_stored_data = [],
                    scd_client = client\<rparr> stdin)))"

section \<open>Lemmas\<close>

text \<open>What gpg-agent does with a data line: percent sequences are bytes.\<close>

fun assuan_unescape :: "bytes \<Rightarrow> bytes" where
  "assuan_unescape (b # s) =
     (if b \<noteq> 0x25 then b # assuan_unescape s
      else (case s of
              x # y # r \<Rightarrow>
                (case hex_pairs (string_of_bytes [x, y]) of
                   Some [v] \<Rightarrow> v # assuan_unescape r
                 | _ \<Rightarrow> b # assuan_unescape s)
            | _ \<Rightarrow> b # assuan_unescape s))"
| "assuan_unescape [] = []"

lemma assuan_unescape_escape: "assuan_unescape (concat (map escape_byte d)) = d"
proof (induction d)
  case (Cons b d)
  consider "b = 0x25" | "b = 0x0D" | "b = 0x0A" | "b \<noteq> 0x25" "b \<noteq> 0x0D" "b \<noteq> 0x0A" by blast
  then show ?case using Cons
    by cases (simp_all add: escape_byte_def as_bytes_def string_of_bytes_def hex_digit_val_def)
qed simp

lemma escape_no_break: "0x0A \<notin> set (concat (map escape_byte d))" "0x0D \<notin> set (concat (map escape_byte d))"
  by (auto simp: escape_byte_def as_bytes_def split: if_splits)

lemma hex_byte_upper_graph: "list_all graph (hex_byte_upper b)"
proof -
  have "graph (hex_digit_upper n)" if "n < 16" for n
    using that by (auto simp: graph_def hex_digit_upper_def)
  then show ?thesis using unat_byte_less [of b]
    by (simp add: hex_byte_upper_def less_mult_imp_div_less)
qed

lemma hex_text_graph: "list_all graph (concat (map hex_byte_upper d))"
  by (induction d) (simp_all add: hex_byte_upper_graph)

lemma graph_boundary: "list_all graph s \<Longrightarrow> i \<le> length s \<Longrightarrow> is_char_boundary s i"
  by (auto simp: is_char_boundary_def list_all_length graph_def le_less)

lemma length_hex_text: "length (concat (map hex_byte_upper d)) = 2 * length d"
  by (induction d) (simp_all add: hex_byte_upper_def)

lemma hex_decode_from_text:
  "list_all graph whole \<Longrightarrow> i + 2 * length d = length whole \<Longrightarrow>
     hex_decode_from whole i (concat (map hex_byte_upper d)) = Some (Inr d)"
proof (induction d arbitrary: i)
  case (Cons b d)
  have "is_char_boundary whole i" "is_char_boundary whole (i + 2)"
    using Cons.prems by (simp_all add: graph_boundary)
  moreover have "u8_from_str_radix16 [hex_digit_upper (unat b div 16), hex_digit_upper (unat b mod 16)] = Inr b"
    using u8_from_hex_byte_upper [of b] by (simp add: hex_byte_upper_def)
  ultimately show ?case
    using Cons.IH [of "i + 2"] Cons.prems by (simp add: hex_byte_upper_def)
qed simp

lemma hex_decode_text [codec_simps]: "hex_decode (concat (map hex_byte_upper d)) = Some (Inr d)"
  using hex_decode_from_text [of "concat (map hex_byte_upper d)" 0 d] hex_text_graph [of d]
  by (simp add: hex_decode_def trim_graph length_hex_text)

text \<open>A command line of two words.\<close>

lemma find_ws_word: "list_all graph w \<Longrightarrow> find_ws (w @ CHR '' '' # a) = Some (length w)"
proof (induction w)
  case Nil
  have "0 < ws_len (CHR '' '' # a)" by (cases "CHR '' '' # a" rule: ws_len.cases) (auto simp: ascii_ws_def)
  then show ?case by simp
qed simp

lemma trim_start_blank: "list_all graph a \<Longrightarrow> trim_start (CHR '' '' # a) = a"
proof -
  assume g: "list_all graph a"
  have "ws_len (CHR '' '' # a) = 1" by (cases "CHR '' '' # a" rule: ws_len.cases) (auto simp: ascii_ws_def)
  moreover have "ws_len a = 0" using g by (cases a) simp_all
  ultimately show ?thesis by (simp add: trim_start.simps [of "CHR '' '' # a"] trim_start_fix)
qed

lemma parse_two_words:
  assumes "list_all graph w" and "w \<noteq> []" and "list_all graph a" and "a \<noteq> []"
  shows "trim (w @ CHR '' '' # a) = w @ CHR '' '' # a"
    and "parse_command (w @ CHR '' '' # a) = (w, a)"
proof -
  have "ws_len (w @ CHR '' '' # a) = 0" using assms(1,2) by (cases w) simp_all
  moreover have "ws_rev_len (rev (w @ CHR '' '' # a)) = 0"
    using assms(3,4) by (cases a rule: rev_cases) simp_all
  ultimately show "trim (w @ CHR '' '' # a) = w @ CHR '' '' # a"
    by (simp add: trim_def trim_start_fix trim_end_fix)
  show "parse_command (w @ CHR '' '' # a) = (w, a)"
    using assms by (simp add: parse_command_def find_ws_word trim_start_blank)
qed

lemma skip_options_word:
  assumes "list_all graph a" and "\<not> starts_with a ''--''"
  shows "skip_options a = a"
proof -
  have "ws_len a = 0" using assms(1) by (cases a) simp_all
  with assms(2) show ?thesis by (simp add: skip_options.simps [of a] trim_start_fix)
qed

lemma keywords_upper:
  "to_uppercase ''SETDATA'' = ''SETDATA''" "to_uppercase ''PKSIGN'' = ''PKSIGN''"
  by (simp_all add: upper_ascii_def)

lemma gsc_request_sent:
  "gsc_sent (snd (gsc_request L m p c)) = gsc_sent c @
     as_bytes (json_to_string (sl_text L) (gsc_request_json m p (gsc_next_id c))) @ [0x0A]"
  by (auto simp: gsc_request_def gsc_read_line_def Let_def split: prod.splits option.splits list.splits arrival.splits)

lemma gsc_sign_sent:
  "gsc_sent (snd (gsc_sign L i pk d c)) =
     gsc_sent (snd (gsc_request L ''gpg.sign_request'' (sign_payload (sl_base64 L) i pk d) c))"
  by (auto simp: gsc_sign_def split: prod.splits sum.splits option.splits)

lemma setdata_command:
  assumes "d \<noteq> []"
  shows "scd_command L pid st (''SETDATA'' @ CHR '' '' # concat (map hex_byte_upper d)) =
    Some (send_ok [], st\<lparr>scd_stored_data := d\<rparr>, True)"
proof -
  let ?h = "concat (map hex_byte_upper d)"
  have h: "list_all graph ?h" "?h \<noteq> []"
    using assms by (simp_all add: hex_text_graph) (cases d, auto simp: hex_byte_upper_def)
  have w: "list_all graph ''SETDATA''" by (simp add: graph_def)
  note two = parse_two_words [OF w _ h]
  have "handle_setdata st ?h = Some (send_ok [], st\<lparr>scd_stored_data := d\<rparr>)"
    using remove_ws_solid [OF solid_graph [OF h(1)]] by (simp add: handle_setdata_def hex_decode_text)
  then show ?thesis
    unfolding scd_command_def Let_def two(1) [OF list.distinct(2)] two(2) [OF list.distinct(2)] prod.case keywords_upper
    by simp
qed

lemma pksign_command:
  assumes "list_all graph k" and "k \<noteq> []" and "\<not> starts_with k ''--''"
  shows "scd_command L pid st (''PKSIGN'' @ CHR '' '' # k) =
    (case handle_pksign L st k of (out, st') \<Rightarrow> Some (out, st', True))"
proof -
  have w: "list_all graph ''PKSIGN''" by (simp add: graph_def)
  note two = parse_two_words [OF w _ assms(1,2)]
  show ?thesis
    unfolding scd_command_def Let_def two(1) [OF list.distinct(2)] two(2) [OF list.distinct(2)] prod.case keywords_upper
    by simp
qed

lemma handle_pksign_signs:
  assumes "list_all graph k" and "\<not> starts_with k ''--''" and "pksign_identity st k = Some ident"
    and "scd_stored_data st \<noteq> []"
    and "gsc_sign L (si_index ident) (si_public_key ident) (strip_digest_info (scd_stored_data st)) (scd_client st) = (r, c)"
  shows "handle_pksign L st k =
    (case r of
       Inr sig \<Rightarrow> if length sig \<noteq> 64 then (send_err 2 ''Invalid signature length'', st\<lparr>scd_client := c\<rparr>)
                 else (send_data sig @ send_ok [], st\<lparr>scd_client := c, scd_stored_data := []\<rparr>)
     | Inl e \<Rightarrow> (send_err 2 (''Sign error: '' @ e), st\<lparr>scd_client := c, scd_stored_data := []\<rparr>))"
proof -
  have "trim (skip_options k) = k" using assms(1,2) by (simp add: skip_options_word trim_graph)
  then show ?thesis using assms(3-5) unfolding handle_pksign_def by (simp split: sum.split)
qed

section \<open>Properties\<close>

text \<open>
  The identity that a key name stands for on a card: the first that has it as its keygrip or
  key reference; the first \<open>OPENPGP.3\<close> when no identity has it.
\<close>

definition selects :: "scd_identity list \<Rightarrow> string \<Rightarrow> scd_identity \<Rightarrow> bool" where
  "selects ids k ident \<longleftrightarrow> (\<exists>before after. ids = before @ ident # after \<and>
     (k \<in> {si_keygrip ident, si_keyref ident} \<and> (\<forall>i \<in> set before. k \<notin> {si_keygrip i, si_keyref i}) \<or>
      (\<forall>i \<in> set ids. k \<notin> {si_keygrip i, si_keyref i}) \<and>
      si_keyref ident = ''OPENPGP.3'' \<and> (\<forall>i \<in> set before. si_keyref i \<noteq> ''OPENPGP.3'')))"

text \<open>
  The DER encoding of a DigestInfo with the algorithm 2.16.840.1.101.3.4.2.\<open>alg\<close> (1 is SHA-256,
  3 is SHA-512), and the bytes that have to be signed for the data of \<open>SETDATA\<close>: the digest in a
  DigestInfo of one of the two, and everything else as it is.
\<close>

definition digest_info :: "byte \<Rightarrow> bytes \<Rightarrow> bytes" where
  "digest_info alg digest =
     [0x30, 17 + of_nat (length digest),
        0x30, 13, 0x06, 9, 0x60, 0x86, 0x48, 0x01, 0x65, 0x03, 0x04, 0x02, alg, 0x05, 0,
        0x04, of_nat (length digest)] @ digest"

definition digest_inside :: "bytes \<Rightarrow> bytes \<Rightarrow> bool" where
  "digest_inside d m \<longleftrightarrow> length m = 32 \<and> d = digest_info 1 m \<or> length m = 64 \<and> d = digest_info 3 m"

definition to_sign :: "bytes \<Rightarrow> bytes \<Rightarrow> bool" where
  "to_sign d m \<longleftrightarrow> digest_inside d m \<or> m = d \<and> (\<nexists>m'. digest_inside d m')"

lemma find_split:
  "find P xs = Some x \<longleftrightarrow> (\<exists>before after. xs = before @ x # after \<and> P x \<and> (\<forall>y \<in> set before. \<not> P y))"
proof (induction xs)
  case (Cons z zs)
  show ?case
  proof (cases "P z")
    case True
    then show ?thesis by (auto simp: Cons_eq_append_conv)
  next
    case False
    then have "(\<exists>before after. z # zs = before @ x # after \<and> P x \<and> (\<forall>y \<in> set before. \<not> P y)) \<longleftrightarrow>
        (\<exists>before after. zs = before @ x # after \<and> P x \<and> (\<forall>y \<in> set before. \<not> P y))"
      by (auto simp: Cons_eq_append_conv) (metis append_Cons set_ConsD)
    with False Cons.IH show ?thesis by simp
  qed
qed simp

lemma selects_find:
  "selects ids k ident \<longleftrightarrow> find (\<lambda>i. si_keygrip i = k \<or> si_keyref i = k) ids = Some ident \<or>
     find (\<lambda>i. si_keygrip i = k \<or> si_keyref i = k) ids = None \<and> find (\<lambda>i. si_keyref i = ''OPENPGP.3'') ids = Some ident"
proof -
  have named: "k \<in> {x, y} \<longleftrightarrow> x = k \<or> y = k" for x y by auto
  show ?thesis unfolding selects_def find_split find_None_iff named by blast
qed

lemma pksign_identity_selects: "pksign_identity st k = Some ident \<longleftrightarrow> selects (scd_identities st) k ident"
  by (auto simp: pksign_identity_def selects_find split: option.split)

lemma cut_prefix:
  "length x = a \<Longrightarrow> length m = n \<and> d = x @ m \<longleftrightarrow> length d = a + n \<and> take a d = x \<and> m = drop a d"
  by (metis append_eq_conv_conj append_take_drop_id add_diff_cancel_left' length_append length_drop)

lemma digest_inside_strip:
  "digest_inside d m \<longleftrightarrow> m = strip_digest_info d \<and> strip_digest_info d \<noteq> d"
proof -
  have len: "length SHA256_PREFIX = 19" "length SHA512_PREFIX = 19"
    by (simp_all add: SHA256_PREFIX_def SHA512_PREFIX_def)
  have "length m = 32 \<and> d = digest_info 1 m \<longleftrightarrow> length m = 32 \<and> d = SHA256_PREFIX @ m"
    "length m = 64 \<and> d = digest_info 3 m \<longleftrightarrow> length m = 64 \<and> d = SHA512_PREFIX @ m"
    by (auto simp: SHA256_PREFIX_def SHA512_PREFIX_def digest_info_def)
  then have "digest_inside d m \<longleftrightarrow> length d = 51 \<and> take 19 d = SHA256_PREFIX \<and> m = drop 19 d \<or>
      length d = 83 \<and> take 19 d = SHA512_PREFIX \<and> m = drop 19 d"
    unfolding digest_inside_def cut_prefix [OF len(1)] cut_prefix [OF len(2)] by simp
  moreover have "drop 19 d \<noteq> d" if "19 \<le> length d" using that by (metis append_take_drop_id
      append_self_conv2 length_take min_absorb2 list.size(3) zero_neq_numeral)
  ultimately show ?thesis by (auto simp: strip_digest_info_def len)
qed

lemma to_sign_strip: "to_sign d m \<longleftrightarrow> m = strip_digest_info d"
  by (auto simp: to_sign_def digest_inside_strip)

text \<open>
  What PKSIGN sends to the proxy for an identity and the bytes to sign, and what gpg-agent must
  get for the outcome of the exchange: the bytes of a 64-byte signature on one data line.
\<close>

definition pksign_request :: "scd_lib \<Rightarrow> scd_state \<Rightarrow> scd_identity \<Rightarrow> bytes \<Rightarrow> bytes" where
  "pksign_request L st ident m = as_bytes (json_to_string (sl_text L)
     (gsc_request_json ''gpg.sign_request''
       (sign_payload (sl_base64 L) (si_index ident) (si_public_key ident) m)
       (gsc_next_id (scd_client st)))) @ [0x0A]"

definition pksign_answer :: "string + bytes \<Rightarrow> bytes \<Rightarrow> bool" where
  "pksign_answer r out \<longleftrightarrow>
     (case r of
        Inr sig \<Rightarrow> (if length sig = 64 then \<exists>body. out = as_bytes ''D '' @ body @ [0x0A] @ send_ok [] \<and>
                     assuan_unescape body = sig \<and> 0x0A \<notin> set body \<and> 0x0D \<notin> set body
                   else out = send_err 2 ''Invalid signature length'')
      | Inl e \<Rightarrow> out = send_err 2 (''Sign error: '' @ e))"


definition scd_sample_lib :: "json \<Rightarrow> scd_lib" where
  "scd_sample_lib v = \<lparr>sl_text = toy_text v, sl_base64 = toy_base64, sl_sha1 = \<lambda>_. [0xAB], sl_error = \<lambda>e. e\<rparr>"

definition scd_sample_state :: "arrival list \<Rightarrow> scd_state" where
  "scd_sample_state arrivals = \<lparr>scd_identities = [\<lparr>si_public_key = replicate 32 1, si_index = 0,
     si_keygrip = ''AB'', si_keyref = ''OPENPGP.1''\<rparr>], scd_stored_data = [],
     scd_client = \<lparr>gsc_buffer = [], gsc_arrivals = arrivals, gsc_sent = [], gsc_next_id = 1\<rparr>\<rparr>"

text \<open>
  A card with two identities. The name of the second is signed for with the second, and the
  DigestInfo of a SHA-256 digest is taken off.
\<close>

definition two_keys_state :: scd_state where
  "two_keys_state = (scd_sample_state [])\<lparr>scd_identities :=
     scd_identities (scd_sample_state []) @ [\<lparr>si_public_key = replicate 32 2, si_index = 1,
       si_keygrip = ''CD'', si_keyref = ''OPENPGP.3''\<rparr>]\<rparr>"


text \<open>
  C26. The client does not match responses to requests: when one signing request times out and
  its answer arrives later, the next signing request, for any other data and key, returns that
  late signature as its own. The response's id plays no part.
\<close>

theorem late_answer_taken_for_next_request:
  assumes "gsc_buffer c = []" and "gsc_arrivals c =
      Arrives [] # Arrives (as_bytes (json_to_string (sl_text L) resp) @ [0x0A] @ suf) # rest"
    and "prints_line (sl_text L) resp" and "json_wf resp" and "jget resp ''error'' = None"
    and "jget resp ''result'' = Some result" and "get_str result ''signature'' = Some s"
    and "b64_decode (sl_base64 L) s = Some sig"
  shows "(\<exists>e. fst (gsc_sign L i1 pk1 d1 c) = Inl e) \<and>
    fst (gsc_sign L i2 pk2 d2 (snd (gsc_sign L i1 pk1 d1 c))) = Inr sig"
proof -
  let ?line = "as_bytes (json_to_string (sl_text L) resp) @ [0x0A]"
  have sp: "split_line (?line @ suf) = (?line, suf)"
    using assms(3) split_line_append [of "as_bytes (json_to_string (sl_text L) resp)" suf]
    by (simp add: prints_line_def as_bytes_newline)
  have utf: "from_utf8 ?line = Some (json_to_string (sl_text L) resp @ [newline])"
  proof -
    have "utf8_valid ?line"
      using assms(3) by (simp add: prints_line_def utf8_valid_append utf8_valid_ascii)
    then show ?thesis unfolding as_bytes_line by (rule from_utf8_as_bytes)
  qed
  have parse: "from_str_value (sl_text L) (trim_end (json_to_string (sl_text L) resp @ [newline])) = Some resp"
    using assms(3,4) by (simp add: prints_line_def trim_end_newline from_str_value_def)
  have first: "\<exists>e c'. gsc_sign L i1 pk1 d1 c = (Inl e, c') \<and> gsc_buffer c' = [] \<and>
      gsc_arrivals c' = Arrives (?line @ suf) # rest"
    using assms(1,2) by (simp add: gsc_sign_def gsc_request_def gsc_read_line_def Let_def)
  then obtain e c' where c': "gsc_sign L i1 pk1 d1 c = (Inl e, c')" "gsc_buffer c' = []"
    "gsc_arrivals c' = Arrives (?line @ suf) # rest" by blast
  have "0x0A \<in> set (?line @ suf)" by simp
  with c' sp utf parse assms(5-8) show ?thesis
    by (simp add: gsc_sign_def gsc_request_def gsc_read_line_def Let_def)
qed

definition late_doc :: json where
  "late_doc = JObject [(''result'', JObject [(''signature'', JString ''07'')])]"

theorem late_answer_taken_for_next_request_witness:
  "fst (gsc_sign (scd_sample_lib late_doc) 1 [2] [3]
     (snd (gsc_sign (scd_sample_lib late_doc) 0 [1] [9]
        \<lparr>gsc_buffer = [], gsc_arrivals = [Arrives [], Arrives (as_bytes ''x'' @ [0x0A])], gsc_sent = [],
         gsc_next_id = 5\<rparr>))) = Inr [7]"
  by (rule late_answer_taken_for_next_request [where resp = late_doc and suf = "[]" and rest = "[]"
        and result = "JObject [(''signature'', JString ''07'')]" and s = "''07''", THEN conjunct2])
    (simp_all add: scd_sample_lib_def toy_text_def late_doc_def prints_line_def map_sorted_def get_str_def
      toy_base64_def hex_digit_val_def utf8_valid_ascii as_bytes_def ascii_ws_def)

end
