(* ===== verification/Gpg_Link.thy ===== *)
theory Gpg_Link
  imports Daemon_Link Gpg_Sa Scd_Shim
begin

text \<open>
  The GPG chain as one system: the scdaemon shims that gpg-agent starts
  (crates/scd-shim/src/main.rs), the proxy of km-gpg-sa (crates/km-gpg-sa/src/main.rs) and the
  daemon (crates/avatar/src) behind it, with the commands of the shims in any interleaving.
\<close>

section \<open>The programs together\<close>

record gpg_programs =
  gp_shims :: "nat \<Rightarrow> scd_state option"
  gp_served :: "nat \<Rightarrow> shim_connection"
  gp_avatar :: "daemon_link \<times> bytes"

text \<open>
  A request of a shim, served by the proxy under its lock: what then arrives at the shim. The
  answer is taken to arrive before the read of the shim times out; what happens otherwise is
  \<open>late_answer_taken_for_next_request\<close>.
\<close>

definition shim_exchange ::
    "avatar_env \<Rightarrow> (string \<Rightarrow> string) \<Rightarrow> nat \<Rightarrow> (exchange_error \<Rightarrow> string) \<Rightarrow> daemon_link \<times> bytes \<Rightarrow>
      shim_connection \<Rightarrow> bytes \<Rightarrow> arrival \<times> shim_connection \<times> daemon_link \<times> bytes" where
  "shim_exchange E json_error c disp av sc sent =
     (case handle_shim_connection disp (env_J E) (daemon_peer E json_error c) av
         (sc\<lparr>shim_input := shim_input sc @ sent\<rparr>) of
        (sc', av') \<Rightarrow>
          let out = drop (length (shim_output sc)) (shim_output sc')
          in (if shim_open sc' then Arrives out else Closes out, sc', av'))"

definition fresh_connection :: shim_connection where
  "fresh_connection = \<lparr>shim_input = [], shim_output = [], shim_open = True\<rparr>"

definition answering :: "arrival \<Rightarrow> scd_state \<Rightarrow> scd_state" where
  "answering a st = st\<lparr>scd_client := (scd_client st)\<lparr>gsc_arrivals := [a]\<rparr>\<rparr>"

datatype gpg_event = Starts nat | Runs nat string bytes | Panics nat string

inductive gpg_step ::
    "avatar_env \<Rightarrow> (string \<Rightarrow> string) \<Rightarrow> nat \<Rightarrow> scd_lib \<Rightarrow> nat \<Rightarrow> (exchange_error \<Rightarrow> string) \<Rightarrow>
      gpg_programs \<Rightarrow> gpg_event \<Rightarrow> gpg_programs \<Rightarrow> bool"
  for E json_error c L pid disp where
  starts:
    "gp_shims s k = None \<Longrightarrow> gsc_connect (Some [a]) = Some client \<Longrightarrow>
     gsc_request_identities L client = (r, client') \<Longrightarrow>
     shim_exchange E json_error c disp (gp_avatar s) fresh_connection (gsc_sent client') = (a, sc, av) \<Longrightarrow>
     gpg_step E json_error c L pid disp s (Starts k)
       (s\<lparr>gp_shims := (gp_shims s)(k := (case r of Inl _ \<Rightarrow> None | Inr raw \<Rightarrow>
            Some \<lparr>scd_identities = scd_identities_of L raw, scd_stored_data = [], scd_client = client'\<rparr>)),
          gp_served := (gp_served s)(k := sc), gp_avatar := av\<rparr>)"
| runs_alone:
    "gp_shims s k = Some st \<Longrightarrow> scd_command L pid st line = Some (out, st', go_on) \<Longrightarrow>
     scd_client st' = scd_client st \<Longrightarrow>
     gpg_step E json_error c L pid disp s (Runs k line out)
       (s\<lparr>gp_shims := (gp_shims s)(k := (if go_on then Some st' else None))\<rparr>)"
| runs_request:
    "gp_shims s k = Some st \<Longrightarrow> scd_command L pid (answering a st) line = Some (out, st', go_on) \<Longrightarrow>
     gsc_sent (scd_client st') = gsc_sent (scd_client st) @ sent \<Longrightarrow> sent \<noteq> [] \<Longrightarrow>
     shim_exchange E json_error c disp (gp_avatar s) (gp_served s k) sent = (a, sc, av) \<Longrightarrow>
     gpg_step E json_error c L pid disp s (Runs k line out)
       (s\<lparr>gp_shims := (gp_shims s)(k := (if go_on then Some st' else None)),
          gp_served := (gp_served s)(k := sc), gp_avatar := av\<rparr>)"
| panics:
    "gp_shims s k = Some st \<Longrightarrow> scd_command L pid st line = None \<Longrightarrow>
     gpg_step E json_error c L pid disp s (Panics k line) (s\<lparr>gp_shims := (gp_shims s)(k := None)\<rparr>)"

text \<open>At the start km-gpg-sa has connected to the daemon and got its certificate.\<close>

definition gpg_started ::
    "avatar_env \<Rightarrow> (string \<Rightarrow> string) \<Rightarrow> (event_id \<Rightarrow> public_key) \<Rightarrow> nat \<Rightarrow> gpg_programs \<Rightarrow> bool" where
  "gpg_started E json_error author c s \<longleftrightarrow> gp_shims s = (\<lambda>_. None) \<and>
     (\<exists>l cert. link_ok E json_error author c l \<and>
        fetch_cert (env_J E) (daemon_peer E json_error c) (l, []) = (Some cert, gp_avatar s))"

section \<open>One exchange\<close>

text \<open>A line that the shim sends, and the request that the proxy reads from it.\<close>

lemma decode_gsc_request:
  "decode_request (gsc_request_json meth params i) =
     Some \<lparr>req_jsonrpc = ''2.0'', req_method = meth, req_params = norm_json params, req_id = Some (JNumber (PosInt i))\<rparr>"
proof -
  have "gsc_request_json meth params i = JObject [(''id'', JNumber (PosInt i)), (''jsonrpc'', JString ''2.0''),
      (''method'', JString meth), (''params'', params)]"
    by (simp add: gsc_request_json_def json_object_def map_of_entries_def)
  then show ?thesis by (simp add: decode_request_def de_request_fields_def codec_simps)
qed

text \<open>What a request of the proxy may get: its own answer, on one line, or a closed connection.\<close>

definition own_arrival ::
    "avatar_env \<Rightarrow> (string \<Rightarrow> string) \<Rightarrow> nat \<Rightarrow> (exchange_error \<Rightarrow> string) \<Rightarrow> daemon_link \<Rightarrow> json_rpc_request \<Rightarrow>
      arrival \<Rightarrow> bool" where
  "own_arrival E json_error c disp l req a \<longleftrightarrow> a = Closes [] \<or>
     a = Arrives (write_line_message (env_J E) encode_response
       (proxy_response disp req (own_response (env_J E) (daemon_peer E json_error c) l req)))"

lemma shim_exchange_own:
  assumes "compact_text (env_J E)" and "link_ok E json_error author c l"
    and "shim_open sc \<Longrightarrow> shim_input sc = []"
    and "sent = as_bytes (json_to_string (env_J E) v) @ [0x0A]" and "decode_request v = Some req"
    and "shim_exchange E json_error c disp (l, []) sc sent = (a, sc', av')"
  shows "own_arrival E json_error c disp l req a \<and> (shim_open sc' \<longrightarrow> shim_input sc' = []) \<and>
    (\<exists>l'. av' = (l', []) \<and> link_ok E json_error author c l')"
proof -
  let ?peer = "daemon_peer E json_error c"
  have sent: "sent = write_line_message (env_J E) id v" by (simp add: assms(4) write_line_message_def)
  show ?thesis
  proof (cases "shim_open sc")
    case True
    show ?thesis
    proof (cases "read_line_message (env_J E) decode_request sent")
      case (Inl e)
      with True assms(2,3,6) show ?thesis
        by (auto simp: shim_exchange_def handle_shim_connection_def own_arrival_def)
    next
      case (Inr p)
      obtain req' rest where p: "p = (req', rest)" by fastforce
      have "req' = req" "rest = []"
        using compact_read [OF assms(1), of decode_request id v "[]" req' rest] Inr p assms(5) by (simp_all add: sent)
      with Inr p True assms(3,6) peer_after_keeps [where J = "env_J E" and req = req, OF daemon_peer_keeps_link assms(2)]
      show ?thesis
        by (auto simp: shim_exchange_def handle_shim_connection_def own_arrival_def
            forward_in_sync [OF daemon_peer_one_line [OF assms(1)]])
    qed
  qed (use assms(2,6) in \<open>auto simp: shim_exchange_def handle_shim_connection_def own_arrival_def\<close>)
qed

text \<open>A success that the shim reads is what the relay answered to the request.\<close>

lemma gsc_request_answered:
  assumes "compact_text (env_J E)" and "sl_text L = env_J E" and "gsc_buffer cl = []" and "gsc_arrivals cl = [a]"
    and "own_arrival E json_error c disp l req a" and "gsc_request L meth params cl = (r, cl')"
  shows "gsc_buffer cl' = [] \<and> (\<forall>v. r = Inr v \<longrightarrow> (\<exists>resp.
    own_response (env_J E) (daemon_peer E json_error c) l req = Inr resp \<and> resp_error resp = None \<and>
    v = (case resp_result resp of None \<Rightarrow> JNull | Some res \<Rightarrow> norm_json res)))"
proof (cases "a = Closes []")
  case True
  have "from_str_value (sl_text L) (trim_end []) = None"
    using assms(1,2) by (simp add: from_str_value_def compact_text_def trim_end_def trim_rev.simps [of "[]"])
  then show ?thesis
    using True assms(3,4,6) by (auto simp: gsc_request_def gsc_read_line_def from_utf8_def string_of_bytes_def Let_def)
next
  case False
  let ?own = "own_response (env_J E) (daemon_peer E json_error c) l req"
  let ?t = "json_to_string (env_J E) (encode_response (proxy_response disp req ?own))"
  have a: "a = Arrives (as_bytes (?t @ [newline]))"
    using assms(5) False by (simp add: own_arrival_def write_line_message_def as_bytes_line)
  have laws: "newline \<notin> set ?t" "ws_rev_len (rev ?t) = 0"
    "json_from_str (env_J E) ?t \<in> {None, Some (encode_response (proxy_response disp req ?own))}"
    using assms(1) by (auto simp: compact_text_def)
  have split: "split_line (as_bytes (?t @ [newline])) = (as_bytes (?t @ [newline]), [])"
    unfolding as_bytes_line [symmetric] using split_line_append [of "as_bytes ?t" "[]"] laws(1)
    by (simp add: as_bytes_newline)
  have nl: "0x0A \<in> set (as_bytes (?t @ [newline]))" unfolding as_bytes_line [symmetric] by simp
  have utf: "from_utf8 (as_bytes (?t @ [newline])) \<in> {None, Some (?t @ [newline])}"
    by (auto simp: from_utf8_def simp del: as_bytes_append)
  have parse: "from_str_value (env_J E) (trim_end (?t @ [newline])) \<in>
      {None, Some (norm_json (encode_response (proxy_response disp req ?own)))}"
    using laws(2,3) by (auto simp: trim_end_newline from_str_value_def)
  show ?thesis
  proof (cases ?own)
    case (Inl e)
    then have "resp_error (proxy_response disp req ?own) \<noteq> None"
      by (simp add: proxy_response_def response_error_def)
    with assms(2,3,4,6) a split nl utf parse show ?thesis
      by (auto simp: gsc_request_def gsc_read_line_def jget_norm_response Let_def simp del: as_bytes_append
          split: option.splits)
  next
    case (Inr resp)
    then have "proxy_response disp req ?own = resp" by (simp add: proxy_response_def)
    with Inr assms(2,3,4,6) a split nl utf parse show ?thesis
      by (auto simp: gsc_request_def gsc_read_line_def jget_norm_response Let_def simp del: as_bytes_append
          split: option.splits)
  qed
qed

lemma gsc_sign_answered:
  assumes "compact_text (env_J E)" and "sl_text L = env_J E" and "gsc_buffer cl = []" and "gsc_arrivals cl = [a]"
    and "own_arrival E json_error c disp l req a" and "gsc_sign L i pk d cl = (r, cl')"
  shows "gsc_buffer cl' = [] \<and> (\<forall>sig. r = Inr sig \<longrightarrow> (\<exists>resp res s.
    own_response (env_J E) (daemon_peer E json_error c) l req = Inr resp \<and> resp_error resp = None \<and>
    resp_result resp = Some res \<and> get_str (norm_json res) ''signature'' = Some s \<and>
    b64_decode (sl_base64 L) s = Some sig))"
proof -
  obtain r1 cl1 where r1: "gsc_request L ''gpg.sign_request'' (sign_payload (sl_base64 L) i pk d) cl = (r1, cl1)"
    by fastforce
  from gsc_request_answered [OF assms(1-5) r1] r1 assms(6) show ?thesis
    by (cases r1) (fastforce simp: gsc_sign_def get_str_def split: option.splits)+
qed

section \<open>The commands that ask\<close>

text \<open>The line of a request, as the client numbers it.\<close>

definition request_line :: "scd_lib \<Rightarrow> string \<Rightarrow> json \<Rightarrow> u64 \<Rightarrow> bytes" where
  "request_line L meth params i = as_bytes (json_to_string (sl_text L) (gsc_request_json meth params i)) @ [0x0A]"

lemma send_data_inj [simp]: "send_data d = send_data d' \<longleftrightarrow> d = d'"
proof
  assume "send_data d = send_data d'"
  then have "concat (map escape_byte d) = concat (map escape_byte d')" by (simp add: send_data_def)
  then show "d = d'" by (metis assuan_unescape_escape)
qed simp

lemma send_err_not_data: "send_err code msg \<noteq> send_data d @ send_ok []"
  by (simp add: send_err_def send_data_def as_bytes_def)

lemma gsc_sign_grows: "gsc_sign L i pk d cl = (r, cl') \<Longrightarrow> cl' \<noteq> cl"
  using gsc_sign_sent [of L i pk d cl] by (auto simp: gsc_request_sent)

lemma handle_pksign_asks:
  assumes "handle_pksign L st args = (out, st')"
  shows "scd_client st' = scd_client st \<and> (\<forall>sig. out \<noteq> send_data sig @ send_ok []) \<or>
    (\<exists>ident r. pksign_identity st (trim (skip_options args)) = Some ident \<and>
       gsc_sign L (si_index ident) (si_public_key ident) (strip_digest_info (scd_stored_data st)) (scd_client st) =
         (r, scd_client st') \<and>
       (\<forall>sig. out = send_data sig @ send_ok [] \<longrightarrow> r = Inr sig \<and> length sig = 64))"
proof (cases "pksign_identity st (trim (skip_options args))")
  case None
  with assms show ?thesis by (auto simp: handle_pksign_def Let_def send_err_not_data)
next
  case (Some ident)
  obtain r cl where r: "gsc_sign L (si_index ident) (si_public_key ident) (strip_digest_info (scd_stored_data st))
      (scd_client st) = (r, cl)" by fastforce
  show ?thesis
  proof (cases "scd_stored_data st = []")
    case True
    with Some assms show ?thesis by (auto simp: handle_pksign_def Let_def send_err_not_data)
  next
    case False
    with Some assms r show ?thesis
      by (intro disjI2 exI [of _ ident] exI [of _ r])
        (auto simp: handle_pksign_def Let_def send_err_not_data split: sum.splits if_splits)
  qed
qed

lemma handle_setdata_client: "handle_setdata st args = Some (out, st') \<Longrightarrow> scd_client st' = scd_client st"
  by (auto simp: handle_setdata_def split: sum.splits) (case_tac z; auto)

lemma scd_command_asks:
  assumes "scd_command L pid st line = Some (out, st', go_on)" and "scd_client st' \<noteq> scd_client st"
  shows "to_uppercase (fst (parse_command (trim line))) = ''PKSIGN'' \<and>
    handle_pksign L st (snd (parse_command (trim line))) = (out, st')"
  using assms
  by (auto simp: scd_command_def Let_def dest: handle_setdata_client split: prod.splits if_splits)

section \<open>The invariant\<close>

text \<open>Between two events nothing is buffered anywhere.\<close>

definition gpg_inv ::
    "avatar_env \<Rightarrow> (string \<Rightarrow> string) \<Rightarrow> (event_id \<Rightarrow> public_key) \<Rightarrow> nat \<Rightarrow> gpg_programs \<Rightarrow> bool" where
  "gpg_inv E json_error author c s \<longleftrightarrow>
     (\<exists>l. gp_avatar s = (l, []) \<and> link_ok E json_error author c l) \<and>
     (\<forall>k st. gp_shims s k = Some st \<longrightarrow> gsc_buffer (scd_client st) = [] \<and>
        (shim_open (gp_served s k) \<longrightarrow> shim_input (gp_served s k) = []))"

text \<open>What PKSIGN asks the daemon, as the proxy forwards it.\<close>

definition forwarded_sign :: "scd_lib \<Rightarrow> scd_identity \<Rightarrow> bytes \<Rightarrow> u64 \<Rightarrow> json_rpc_request" where
  "forwarded_sign L ident d i = \<lparr>req_jsonrpc = ''2.0'', req_method = ''gpg.sign_request'',
     req_params = sign_payload (sl_base64 L) (si_index ident) (si_public_key ident) (strip_digest_info d),
     req_id = Some (JNumber (PosInt i))\<rparr>"

lemma sign_payload_wf [simp]: "json_wf (sign_payload B i pk d)"
  unfolding sign_payload_def by (rule json_wf_object) (simp add: json_of_nat_def)

text \<open>A request of a shim: PKSIGN, and the answer it works on is its own.\<close>

lemma request_own:
  assumes "compact_text (env_J E)" and "sl_text L = env_J E" and "gpg_inv E json_error author c s"
    and "gp_shims s k = Some st" and "scd_command L pid (answering a st) line = Some (out, st', go_on)"
    and "gsc_sent (scd_client st') = gsc_sent (scd_client st) @ sent" and "sent \<noteq> []"
    and "shim_exchange E json_error c disp (gp_avatar s) (gp_served s k) sent = (a, sc, av)"
  shows "\<exists>l ident r. gp_avatar s = (l, []) \<and> link_ok E json_error author c l \<and>
    to_uppercase (fst (parse_command (trim line))) = ''PKSIGN'' \<and>
    pksign_identity st (trim (skip_options (snd (parse_command (trim line))))) = Some ident \<and>
    own_arrival E json_error c disp l (forwarded_sign L ident (scd_stored_data st) (gsc_next_id (scd_client st))) a \<and>
    gsc_sign L (si_index ident) (si_public_key ident) (strip_digest_info (scd_stored_data st))
      (scd_client (answering a st)) = (r, scd_client st') \<and>
    (\<forall>sig. out = send_data sig @ send_ok [] \<longrightarrow> r = Inr sig \<and> length sig = 64) \<and>
    (shim_open sc \<longrightarrow> shim_input sc = []) \<and> (\<exists>l'. av = (l', []) \<and> link_ok E json_error author c l')"
proof -
  let ?st = "answering a st" and ?args = "snd (parse_command (trim line))"
  obtain l where l: "gp_avatar s = (l, [])" "link_ok E json_error author c l"
    and empty: "shim_open (gp_served s k) \<Longrightarrow> shim_input (gp_served s k) = []"
    using assms(3,4) by (auto simp: gpg_inv_def)
  have same: "gsc_sent (scd_client ?st) = gsc_sent (scd_client st)" "gsc_next_id (scd_client ?st) = gsc_next_id (scd_client st)"
    "scd_stored_data ?st = scd_stored_data st" "pksign_identity ?st key = pksign_identity st key" for key
    by (simp_all add: answering_def pksign_identity_def cong: option.case_cong)
  have changed: "scd_client st' \<noteq> scd_client ?st" using assms(6,7) same(1) by auto
  from scd_command_asks [OF assms(5) this] have kw: "to_uppercase (fst (parse_command (trim line))) = ''PKSIGN''"
    and pk: "handle_pksign L ?st ?args = (out, st')" by blast+
  from handle_pksign_asks [OF pk] changed obtain ident r where
    ident: "pksign_identity st (trim (skip_options ?args)) = Some ident" and
    sign: "gsc_sign L (si_index ident) (si_public_key ident) (strip_digest_info (scd_stored_data st)) (scd_client ?st) =
      (r, scd_client st')" and out: "\<forall>sig. out = send_data sig @ send_ok [] \<longrightarrow> r = Inr sig \<and> length sig = 64"
    unfolding same by blast
  let ?d = "strip_digest_info (scd_stored_data st)"
  let ?doc = "gsc_request_json ''gpg.sign_request'' (sign_payload (sl_base64 L) (si_index ident) (si_public_key ident) ?d)
    (gsc_next_id (scd_client st))"
  have "gsc_sent (scd_client st') = gsc_sent (scd_client st) @ as_bytes (json_to_string (env_J E) ?doc) @ [0x0A]"
    using gsc_sign_sent [of L "si_index ident" "si_public_key ident" ?d "scd_client ?st"] sign
    by (simp add: gsc_request_sent same assms(2))
  then have line: "sent = as_bytes (json_to_string (env_J E) ?doc) @ [0x0A]" using assms(6) by simp
  have "decode_request ?doc = Some (forwarded_sign L ident (scd_stored_data st) (gsc_next_id (scd_client st)))"
    by (simp add: decode_gsc_request forwarded_sign_def)
  from shim_exchange_own [OF assms(1) l(2) empty line this assms(8) [unfolded l(1)]] l kw ident sign out
  show ?thesis by blast
qed

lemma gpg_inv_started:
  assumes "compact_text (env_J E)" and "gpg_started E json_error author c s"
  shows "gpg_inv E json_error author c s"
proof -
  have one: "one_line_peer (daemon_peer E json_error c)" by (rule daemon_peer_one_line [OF assms(1)])
  have keep: "link_ok E json_error author c l \<Longrightarrow>
      link_ok E json_error author c (peer_after (env_J E) (daemon_peer E json_error c) l req)" for l req
    by (rule peer_after_keeps [OF daemon_peer_keeps_link])
  from assms(2) obtain l cert where l: "link_ok E json_error author c l"
    and fetch: "fetch_cert (env_J E) (daemon_peer E json_error c) (l, []) = (Some cert, gp_avatar s)"
    and none: "gp_shims s = (\<lambda>_. None)" by (auto simp: gpg_started_def)
  let ?l1 = "peer_after (env_J E) (daemon_peer E json_error c) l gpg_connect_request"
  have "gp_avatar s = (peer_after (env_J E) (daemon_peer E json_error c) ?l1 gpg_cert_request, [])"
    using fetch by (simp add: fetch_cert_def send_and_receive_sync [OF one] split: sum.splits if_splits)
  with keep [OF keep [OF l]] none show ?thesis by (simp add: gpg_inv_def)
qed

lemma gpg_inv_step:
  assumes "compact_text (env_J E)" and "sl_text L = env_J E" and "gpg_inv E json_error author c s"
    and "gpg_step E json_error c L pid disp s e s'"
  shows "gpg_inv E json_error author c s'"
  using assms(4)
proof cases
  case (starts k a client r client' sc av)
  obtain l where l: "gp_avatar s = (l, [])" "link_ok E json_error author c l"
    using assms(3) by (auto simp: gpg_inv_def)
  have client: "client = \<lparr>gsc_buffer = [], gsc_arrivals = [a], gsc_sent = [], gsc_next_id = 1\<rparr>"
    using starts(4) by (simp add: gsc_connect_def)
  obtain r1 cl1 where r1: "gsc_request L ''gpg.request_identities'' (json_object []) client = (r1, cl1)" by fastforce
  then have cl1: "client' = cl1" using starts(5) by (auto simp: gsc_request_identities_def split: sum.splits option.splits)
  have "gsc_sent client' = as_bytes (json_to_string (env_J E)
      (gsc_request_json ''gpg.request_identities'' (json_object []) 1)) @ [0x0A]"
    using gsc_request_sent [of L "''gpg.request_identities''" "json_object []" client] r1 cl1
    by (simp add: client assms(2))
  from shim_exchange_own [OF assms(1) l(2) _ this decode_gsc_request starts(6) [unfolded l(1)]]
  have x: "own_arrival E json_error c disp l \<lparr>req_jsonrpc = ''2.0'', req_method = ''gpg.request_identities'',
      req_params = norm_json (json_object []), req_id = Some (JNumber (PosInt 1))\<rparr> a"
    "shim_open sc \<longrightarrow> shim_input sc = []" "\<exists>l'. av = (l', []) \<and> link_ok E json_error author c l'"
    by (simp_all add: fresh_connection_def)
  have "gsc_buffer client' = []"
    using gsc_request_answered [OF assms(1,2) _ _ x(1) r1] by (simp add: client cl1)
  with starts(2) x(2,3) assms(3) show ?thesis by (auto simp: gpg_inv_def split: sum.splits)
next
  case (runs_alone k st line out st' go_on)
  with assms(3) show ?thesis by (auto simp: gpg_inv_def)
next
  case (runs_request k st a line out st' go_on sent sc av)
  from request_own [OF assms(1-3) runs_request(3-7)] obtain l ident r where
    x: "own_arrival E json_error c disp l (forwarded_sign L ident (scd_stored_data st) (gsc_next_id (scd_client st))) a"
    "gsc_sign L (si_index ident) (si_public_key ident) (strip_digest_info (scd_stored_data st))
      (scd_client (answering a st)) = (r, scd_client st')"
    "shim_open sc \<longrightarrow> shim_input sc = []" "\<exists>l'. av = (l', []) \<and> link_ok E json_error author c l'" by blast
  have "gsc_buffer (scd_client (answering a st)) = []" "gsc_arrivals (scd_client (answering a st)) = [a]"
    using assms(3) runs_request(3) by (auto simp: gpg_inv_def answering_def)
  from gsc_sign_answered [OF assms(1,2) this x(1,2)] x(3,4) assms(3) runs_request(2) show ?thesis
    by (auto simp: gpg_inv_def split: if_splits)
next
  case (panics k st line)
  with assms(3) show ?thesis by (auto simp: gpg_inv_def)
qed

lemma gpg_reach_inv:
  assumes "compact_text (env_J E)" and "sl_text L = env_J E"
    and "reach (gpg_started E json_error author c) (gpg_step E json_error c L pid disp) s"
  shows "gpg_inv E json_error author c s"
  using assms(3)
  by (induction rule: reach.induct) (auto intro: gpg_inv_started [OF assms(1)] gpg_inv_step [OF assms(1,2)])

section \<open>A concrete run\<close>

text \<open>A KeyMaster that gives every request of the GPG service this answer.\<close>

definition gpg_answer :: json_rpc_response where
  "gpg_answer = response_success (json_of_nat 9) (JObject
     [(''identities'', JArray [JObject [(''key_type'', JString ''ed25519''), (''label'', JString ''l''),
        (''public_key'', JString (b64_encode toy_base64 (replicate 32 1)))]]),
      (''public_cert_armor'', JString ''CERT''),
      (''signature'', JString (b64_encode toy_base64 (replicate 64 7)))])"

definition sample_identity :: scd_identity where
  "sample_identity = \<lparr>si_public_key = replicate 32 1, si_index = 0, si_keygrip = ''AB'', si_keyref = ''OPENPGP.1''\<rparr>"

definition sample_scd_lib :: "json_text \<Rightarrow> scd_lib" where
  "sample_scd_lib J = \<lparr>sl_text = J, sl_base64 = toy_base64, sl_sha1 = \<lambda>_. [0xAB], sl_error = \<lambda>e. e\<rparr>"

definition identities_forwarded :: json_rpc_request where
  "identities_forwarded = \<lparr>req_jsonrpc = ''2.0'', req_method = ''gpg.request_identities'',
     req_params = json_object [], req_id = Some (JNumber (PosInt 1))\<rparr>"

definition sign_forwarded :: json_rpc_request where
  "sign_forwarded = forwarded_sign (sample_scd_lib (toy_text JNull)) sample_identity [1, 2] 2"

definition gpg_text :: json_text where
  "gpg_text = docs_text
     [(''attach'', encode_request (sample_request 5)), (''c'', encode_request gpg_connect_request),
      (''k'', encode_response (connect_reply gpg_connect_request)), (''g'', encode_request gpg_cert_request),
      (''i'', gsc_request_json ''gpg.request_identities'' (json_object []) 1),
      (''j'', encode_request identities_forwarded),
      (''s'', gsc_request_json ''gpg.sign_request'' (req_params sign_forwarded) 2),
      (''t'', encode_request sign_forwarded), (''a'', encode_response gpg_answer)]"

abbreviation gpg_env :: avatar_env where "gpg_env \<equiv> sample_env_with gpg_text"

lemma gpg_text_plain:
  "plain_docs
     [(''attach'', encode_request (sample_request 5)), (''c'', encode_request gpg_connect_request),
      (''k'', encode_response (connect_reply gpg_connect_request)), (''g'', encode_request gpg_cert_request),
      (''i'', gsc_request_json ''gpg.request_identities'' (json_object []) 1),
      (''j'', encode_request identities_forwarded),
      (''s'', gsc_request_json ''gpg.sign_request'' (req_params sign_forwarded) 2),
      (''t'', encode_request sign_forwarded), (''a'', encode_response gpg_answer)]"
  by (simp add: plain_docs_def graph_def)

lemma gpg_text_compact: "compact_text gpg_text"
  unfolding gpg_text_def by (rule docs_text_compact [OF gpg_text_plain])

lemma gpg_text_known: "knows_attach gpg_text" "json_from_str gpg_text ''a'' = Some (encode_response gpg_answer)"
  by (simp_all add: knows_attach_def gpg_text_def docs_text_def)

lemma gpg_text_sendable:
  "sendable_line gpg_text encode_request gpg_connect_request"
  "sendable_line gpg_text encode_request gpg_cert_request"
  "sendable_line gpg_text encode_request identities_forwarded"
  "sendable_line gpg_text encode_request sign_forwarded"
  "sendable_line gpg_text encode_response (connect_reply gpg_connect_request)"
  "sendable_line gpg_text encode_response gpg_answer"
  "sendable_line gpg_text id (gsc_request_json ''gpg.request_identities'' (json_object []) 1)"
  "sendable_line gpg_text id (gsc_request_json ''gpg.sign_request'' (req_params sign_forwarded) 2)"
  unfolding gpg_text_def by (rule docs_text_sendable [OF gpg_text_plain], simp)+

lemma gpg_answer_wire: "wire_response gpg_answer = gpg_answer" "resp_result (wire_response gpg_answer) \<noteq> None"
  by (simp_all add: gpg_answer_def response_success_def wire_response_def wire_opt_def json_of_nat_def map_of_entries_def)

lemma gpg_sample_link:
  "\<exists>l. gpg_started gpg_env id sample_author 0
      \<lparr>gp_shims = \<lambda>_. None, gp_served = \<lambda>_. fresh_connection, gp_avatar = (l, [])\<rparr> \<and> link_ready gpg_text ''gpg'' 2 l"
proof -
  let ?peer = "daemon_peer gpg_env id 0" and ?k = "connect_reply gpg_connect_request"
  have one: "one_line_peer ?peer" by (rule daemon_peer_one_line) (simp add: gpg_text_compact)
  have conn: "req_method gpg_connect_request = ''connect''"
    "str_param (norm_json (req_params gpg_connect_request)) ''type'' = ''gpg''" "req_method gpg_cert_request \<noteq> ''connect''"
    by (simp_all add: gpg_connect_request_def gpg_cert_request_def request_new_def json_wf_object str_param_def get_str_def
        jget_json_object)
  obtain l1 where l1: "?peer (link_start gpg_text 3) (write_line_message gpg_text encode_request gpg_connect_request) =
      Some (write_line_message gpg_text encode_response ?k, l1)" "link_ready gpg_text ''gpg'' 3 l1"
    using link_connect [OF gpg_text_compact gpg_text_sendable(1) conn(1,2) _ connect_reply_def, of 3] by auto
  obtain l2 where l2: "?peer l1 (write_line_message gpg_text encode_request gpg_cert_request) =
      Some (write_line_message gpg_text encode_response gpg_answer, l2)" "link_ready gpg_text ''gpg'' 2 l2"
    using link_request [OF gpg_text_known(1) _ gpg_text_known(2) gpg_answer_wire(2,1), of "''gpg''" 2 l1] l1(2)
      gpg_text_sendable(2) conn(3) by (auto simp: numeral_3_eq_3 numeral_2_eq_2)
  note first = own_response_peer [OF gpg_text_compact gpg_text_sendable(5) connect_reply_wire(1) l1(1) one]
  note second = own_response_peer [OF gpg_text_compact gpg_text_sendable(6) gpg_answer_wire(1) l2(1) one]
  have "fetch_cert gpg_text ?peer (link_start gpg_text 3, []) = (Some ''CERT'', l2, [])"
    by (simp add: fetch_cert_def first second) (simp add: gpg_answer_def response_success_def get_str_def)
  with l2(2) show ?thesis by (intro exI [of _ l2]) (auto simp: gpg_started_def intro: link_start_ok)
qed

text \<open>One exchange of a shim.\<close>

lemma gpg_sample_exchange:
  assumes "link_ready gpg_text ''gpg'' (Suc n) l" and "shim_open sc" and "shim_input sc = []"
    and "sendable_line gpg_text id v" and "decode_request v = Some req" and "sendable_line gpg_text encode_request req"
    and "req_method req \<noteq> ''connect''" and "sent = as_bytes (json_to_string gpg_text v) @ [0x0A]"
  shows "\<exists>sc' l'. shim_exchange gpg_env id 0 (\<lambda>_. ''bad'') (l, []) sc sent =
      (Arrives (write_line_message gpg_text encode_response gpg_answer), sc', (l', [])) \<and>
    shim_open sc' \<and> shim_input sc' = [] \<and> link_ready gpg_text ''gpg'' n l'"
proof -
  let ?peer = "daemon_peer gpg_env id 0"
  have one: "one_line_peer ?peer" by (rule daemon_peer_one_line) (simp add: gpg_text_compact)
  obtain l' where l': "?peer l (write_line_message gpg_text encode_request req) =
      Some (write_line_message gpg_text encode_response gpg_answer, l')" "link_ready gpg_text ''gpg'' n l'"
    using link_request [OF gpg_text_known(1) _ gpg_text_known(2) gpg_answer_wire(2,1) assms(1,6,7)] by auto
  note own = own_response_peer [OF gpg_text_compact gpg_text_sendable(6) gpg_answer_wire(1) l'(1) one]
  have read: "read_line_message gpg_text decode_request sent = Inr (req, [])"
    using read_write_line [where rest = "[]" and decode = decode_request, OF assms(4)] assms(5)
    by (simp add: assms(8) write_line_message_def)
  from l'(2) assms(2,3) show ?thesis
    by (simp add: shim_exchange_def handle_shim_connection_def forward_to_avatar_def own read proxy_response_def)
qed

lemma gpg_sample_request:
  assumes "gsc_buffer cl = []" and "gsc_arrivals cl = [Arrives (write_line_message gpg_text encode_response gpg_answer)]"
    and "sl_text L = gpg_text"
  shows "gsc_request L meth params cl = (Inr (the (resp_result gpg_answer)),
    cl\<lparr>gsc_next_id := gsc_next_id cl + 1, gsc_arrivals := [], gsc_sent := gsc_sent cl @
      as_bytes (json_to_string gpg_text (gsc_request_json meth params (gsc_next_id cl))) @ [0x0A]\<rparr>)"
proof -
  let ?t = "json_to_string gpg_text (encode_response gpg_answer)"
  have laws: "newline \<notin> set ?t" "ws_rev_len (rev ?t) = 0" "utf8_valid (as_bytes ?t)"
    "json_from_str gpg_text ?t = Some (encode_response gpg_answer)"
    using gpg_text_sendable(6) by (simp_all add: sendable_line_def prints_line_def)
  have line: "write_line_message gpg_text encode_response gpg_answer = as_bytes ?t @ [0x0A]"
    by (simp add: write_line_message_def)
  have split: "split_line (as_bytes ?t @ [0x0A]) = (as_bytes ?t @ [0x0A], [])"
    using split_line_append [of "as_bytes ?t" "[]"] laws(1) by (simp add: as_bytes_newline)
  have "utf8_valid (as_bytes (?t @ [newline]))"
    unfolding as_bytes_line [symmetric] using laws(3) by (simp add: utf8_valid_append utf8_valid_ascii)
  then have utf: "from_utf8 (as_bytes ?t @ [0x0A]) = Some (?t @ [newline])"
    unfolding as_bytes_line by (rule from_utf8_as_bytes)
  have parse: "from_str_value gpg_text (trim_end (?t @ [newline])) = Some (norm_json (encode_response gpg_answer))"
    using laws(2,4) by (simp add: trim_end_newline from_str_value_def)
  have "resp_error gpg_answer = None" "map_option norm_json (resp_result gpg_answer) = resp_result gpg_answer"
    "resp_result gpg_answer \<noteq> None"
    by (simp_all add: gpg_answer_def response_success_def map_of_entries_def)
  with assms split utf parse show ?thesis
    by (auto simp: gsc_request_def gsc_read_line_def line jget_norm_response Let_def)
qed

lemma gpg_sample_identities:
  assumes "gsc_buffer cl = []" and "gsc_arrivals cl = [Arrives (write_line_message gpg_text encode_response gpg_answer)]"
  shows "\<exists>raw. gsc_request_identities (sample_scd_lib gpg_text) cl = (Inr raw,
      cl\<lparr>gsc_next_id := gsc_next_id cl + 1, gsc_arrivals := [], gsc_sent := gsc_sent cl @ as_bytes (json_to_string gpg_text
        (gsc_request_json ''gpg.request_identities'' (json_object []) (gsc_next_id cl))) @ [0x0A]\<rparr>) \<and>
    scd_identities_of (sample_scd_lib gpg_text) raw = [sample_identity]"
proof -
  let ?raw = "[\<lparr>id_key_type = ''ed25519'', id_public_key = b64_encode toy_base64 (replicate 32 1), id_label = ''l''\<rparr>]"
  have "compute_keygrip (sample_scd_lib gpg_text) pk = ''AB''" for pk
    by (simp add: compute_keygrip_def sample_scd_lib_def hex_byte_upper_def hex_digit_upper_def char_of_def bit_0)
  then have "scd_identities_of (sample_scd_lib gpg_text) ?raw = [sample_identity]"
    using toy_base64_laws
    by (simp add: scd_identities_of_def List.map_filter_def decode_identity_key_def sample_scd_lib_def base64_laws_def
        scd_keyref_def sample_identity_def)
  moreover have "sl_text (sample_scd_lib gpg_text) = gpg_text" by (simp add: sample_scd_lib_def)
  note gpg_sample_request [OF assms this]
  ultimately show ?thesis
    by (intro exI [of _ ?raw]) (simp add: gsc_request_identities_def gpg_answer_def response_success_def
        decode_identities_def decode_identity_def de_identity_fields_def codec_simps)
qed

lemma gpg_sample_sign:
  assumes "gsc_buffer cl = []" and "gsc_arrivals cl = [Arrives (write_line_message gpg_text encode_response gpg_answer)]"
  shows "gsc_sign (sample_scd_lib gpg_text) i pk d cl = (Inr (replicate 64 7),
    cl\<lparr>gsc_next_id := gsc_next_id cl + 1, gsc_arrivals := [], gsc_sent := gsc_sent cl @ as_bytes (json_to_string gpg_text
      (gsc_request_json ''gpg.sign_request'' (sign_payload toy_base64 i pk d) (gsc_next_id cl))) @ [0x0A]\<rparr>)"
proof -
  have lib: "sl_text (sample_scd_lib gpg_text) = gpg_text" "sl_base64 (sample_scd_lib gpg_text) = toy_base64"
    by (simp_all add: sample_scd_lib_def)
  have "get_str (the (resp_result gpg_answer)) ''signature'' = Some (b64_encode toy_base64 (replicate 64 7))"
    by (simp add: gpg_answer_def response_success_def get_str_def)
  moreover have "b64_decode toy_base64 (b64_encode toy_base64 (replicate 64 7)) = Some (replicate 64 7)"
    using toy_base64_laws unfolding base64_laws_def by blast
  ultimately show ?thesis by (simp only: gsc_sign_def lib gpg_sample_request [OF assms lib(1)] prod.case sum.case option.case)
qed

text \<open>The run: a shim starts, stores two bytes and signs them.\<close>

abbreviation sample_step :: "gpg_programs \<Rightarrow> gpg_event \<Rightarrow> gpg_programs \<Rightarrow> bool" where
  "sample_step \<equiv> gpg_step gpg_env id 0 (sample_scd_lib gpg_text) 7 (\<lambda>_. ''bad'')"

definition sample_programs :: "scd_state option \<Rightarrow> shim_connection \<Rightarrow> daemon_link \<Rightarrow> gpg_programs" where
  "sample_programs sh sc l = \<lparr>gp_shims = (\<lambda>_. None)(0 := sh), gp_served = (\<lambda>_. fresh_connection)(0 := sc),
     gp_avatar = (l, [])\<rparr>"

definition sample_shim :: "bytes \<Rightarrow> scd_state" where
  "sample_shim d = \<lparr>scd_identities = [sample_identity], scd_stored_data = d,
     scd_client = \<lparr>gsc_buffer = [], gsc_arrivals = [], gsc_sent = as_bytes (json_to_string gpg_text
       (gsc_request_json ''gpg.request_identities'' (json_object []) 1)) @ [0x0A], gsc_next_id = 2\<rparr>\<rparr>"

lemma sample_starts:
  assumes "link_ready gpg_text ''gpg'' (Suc 1) l0"
  shows "\<exists>sc l. sample_step (sample_programs None fresh_connection l0) (Starts 0)
      (sample_programs (Some (sample_shim [])) sc l) \<and>
    shim_open sc \<and> shim_input sc = [] \<and> link_ready gpg_text ''gpg'' (Suc 0) l"
proof -
  let ?a = "Arrives (write_line_message gpg_text encode_response gpg_answer)" and ?cl = "scd_client (sample_shim [])"
  let ?c0 = "\<lparr>gsc_buffer = [], gsc_arrivals = [?a], gsc_sent = [], gsc_next_id = 1\<rparr>"
  obtain raw where raw: "gsc_request_identities (sample_scd_lib gpg_text) ?c0 = (Inr raw, ?cl)"
    "scd_identities_of (sample_scd_lib gpg_text) raw = [sample_identity]"
    using gpg_sample_identities [of ?c0] by (auto simp: sample_shim_def)
  have req: "decode_request (gsc_request_json ''gpg.request_identities'' (json_object []) 1) = Some identities_forwarded"
    "req_method identities_forwarded \<noteq> ''connect''"
    by (simp_all add: decode_gsc_request identities_forwarded_def json_wf_object)
  obtain sc l where x: "shim_exchange gpg_env id 0 (\<lambda>_. ''bad'') (l0, []) fresh_connection (gsc_sent ?cl) = (?a, sc, (l, []))"
    and ok: "shim_open sc" "shim_input sc = []" "link_ready gpg_text ''gpg'' (Suc 0) l"
    using gpg_sample_exchange [OF assms _ _ gpg_text_sendable(7) req(1) gpg_text_sendable(3) req(2), of fresh_connection]
    by (auto simp: fresh_connection_def sample_shim_def)
  have "sample_step (sample_programs None fresh_connection l0) (Starts 0) (sample_programs (Some (sample_shim [])) sc l)"
    using gpg_step.starts [of "sample_programs None fresh_connection l0" 0 ?a ?c0 "sample_scd_lib gpg_text" "Inr raw" ?cl
        gpg_env id 0 "\<lambda>_. ''bad''" sc "(l, [])" 7] raw x
    by (simp add: sample_programs_def gsc_connect_def) (simp add: sample_shim_def)
  with ok show ?thesis by blast
qed

lemma sample_setdata:
  "sample_step (sample_programs (Some (sample_shim [])) sc l)
     (Runs 0 (''SETDATA'' @ CHR '' '' # concat (map hex_byte_upper [1, 2])) (send_ok []))
     (sample_programs (Some (sample_shim [1, 2])) sc l)"
  using gpg_step.runs_alone [where st = "sample_shim []" and k = 0 and s = "sample_programs (Some (sample_shim [])) sc l",
      OF _ setdata_command [of "[1, 2]" "sample_scd_lib gpg_text" 7 "sample_shim []"]]
  by (simp add: sample_programs_def) (simp add: sample_shim_def)

lemma sample_pksign:
  assumes "link_ready gpg_text ''gpg'' (Suc 0) l" and "shim_open sc" and "shim_input sc = []"
  shows "\<exists>s'. sample_step (sample_programs (Some (sample_shim [1, 2])) sc l)
    (Runs 0 (''PKSIGN'' @ CHR '' '' # ''AB'') (send_data (replicate 64 7) @ send_ok [])) s'"
proof -
  let ?a = "Arrives (write_line_message gpg_text encode_response gpg_answer)" and ?L = "sample_scd_lib gpg_text"
  let ?st = "answering ?a (sample_shim [1, 2])" and ?sig = "replicate 64 7 :: bytes"
  let ?doc = "gsc_request_json ''gpg.sign_request'' (sign_payload toy_base64 0 (replicate 32 1) [1, 2]) 2"
  let ?line = "as_bytes (json_to_string gpg_text ?doc) @ [0x0A]"
  let ?cl = "(scd_client ?st)\<lparr>gsc_next_id := 3, gsc_arrivals := [], gsc_sent := gsc_sent (scd_client ?st) @ ?line\<rparr>"
  have strip: "strip_digest_info [1, 2] = [1, 2]" by (simp add: strip_digest_info_def)
  have doc: "?doc = gsc_request_json ''gpg.sign_request'' (req_params sign_forwarded) 2"
    by (simp add: sign_forwarded_def forwarded_sign_def sample_scd_lib_def sample_identity_def strip)
  have req: "decode_request ?doc = Some sign_forwarded" "req_method sign_forwarded \<noteq> ''connect''"
    by (simp_all add: decode_gsc_request)
      (simp_all add: sign_forwarded_def forwarded_sign_def sample_scd_lib_def sample_identity_def strip)
  have k: "list_all graph ''AB''" "''AB'' \<noteq> []" "\<not> starts_with ''AB'' ''--''"
    by (simp_all add: graph_def starts_with_def)
  have st: "pksign_identity ?st ''AB'' = Some sample_identity" "scd_stored_data ?st = [1, 2]"
    by (simp_all add: pksign_identity_def answering_def sample_identity_def sample_shim_def)
  have sign: "gsc_sign ?L (si_index sample_identity) (si_public_key sample_identity) (strip_digest_info (scd_stored_data ?st))
      (scd_client ?st) = (Inr ?sig, ?cl)"
    by (subst gpg_sample_sign) (simp_all add: answering_def sample_identity_def strip sample_shim_def)
  have cmd: "scd_command ?L 7 ?st (''PKSIGN'' @ CHR '' '' # ''AB'') =
      Some (send_data ?sig @ send_ok [], ?st\<lparr>scd_client := ?cl, scd_stored_data := []\<rparr>, True)"
    using pksign_command [OF k, of ?L 7 ?st] handle_pksign_signs [OF k(1,3) st(1) _ sign] st(2) by simp
  obtain sc' l' where x: "shim_exchange gpg_env id 0 (\<lambda>_. ''bad'') (l, []) sc ?line = (?a, sc', (l', []))"
    using gpg_sample_exchange [OF assms gpg_text_sendable(8) [folded doc] req(1) gpg_text_sendable(4) req(2) refl]
    by blast
  show ?thesis
    by (rule exI, rule gpg_step.runs_request [where st = "sample_shim [1, 2]", OF _ cmd, where sent = ?line])
      (simp_all add: sample_programs_def x answering_def)
qed

section \<open>Properties\<close>

text \<open>
  C3. A signature that gpg-agent gets was given for its own data: in every run of the shims, the
  proxy and the daemon, in any interleaving of the shims' commands, a \<open>PKSIGN\<close> that is answered
  with a signature had an identity for its key name (the first with that keygrip or key
  reference, else the first \<open>OPENPGP.3\<close>), and the signature has 64 bytes. In this very step, in
  the state the daemon then was in, the daemon sent a relay event with that identity's key and
  index and the bytes to sign of the data the shim had stored (the digest alone when that is the
  DigestInfo of a SHA-256 or SHA-512 digest, else the data itself), and the signature is taken
  from the text that it read, while it waited, from a relay event of that turn that replies to the event it
  had just sent. No shim gets the signature of another, as long as no read times out.
\<close>

theorem gpg_signature_provenance:
  assumes "compact_text (env_J E)" and "iter_order (env_order E)" and "sl_text L = env_J E"
    and "reach (gpg_started E json_error author c) (gpg_step E json_error c L pid disp) s"
    and "gpg_step E json_error c L pid disp s (Runs k line out) s'" and "gp_shims s k = Some st"
    and "parse_command (trim line) = (cmd, args)" and "to_uppercase cmd = ''PKSIGN''"
    and "out = send_data sig @ send_ok []"
  shows "\<exists>l ident m params resp. gp_avatar s = (l, []) \<and> relayed E json_error c l ''gpg.sign_request'' params resp \<and>
    selects (scd_identities st) (trim (skip_options args)) ident \<and> to_sign (scd_stored_data st) m \<and>
    jget params ''key_index'' = Some (json_of_nat (si_index ident)) \<and>
    get_str params ''public_key'' = Some (b64_encode (sl_base64 L) (si_public_key ident)) \<and>
    get_str params ''data'' = Some (b64_encode (sl_base64 L) m) \<and>
    signature_of (sl_base64 L) resp = Some sig \<and> length sig = 64"
proof -
  have inv: "gpg_inv E json_error author c s" by (rule gpg_reach_inv [OF assms(1,3,4)])
  from assms(5) show ?thesis
  proof cases
    case (runs_alone st2 st' go_on)
    then have st2: "st2 = st" using assms(6) by simp
    have "trim line \<noteq> []" using assms(7,8) by (auto simp: parse_command_def)
    then have "handle_pksign L st args = (out, st')"
      using runs_alone(3) assms(7,8) unfolding st2 by (auto simp: scd_command_def Let_def split: prod.splits if_splits)
    with runs_alone(4) assms(9) have False unfolding st2
      using gsc_sign_grows [of L] by (fastforce dest: handle_pksign_asks)
    then show ?thesis ..
  next
    case (runs_request st2 a st' go_on sent sc av)
    then have st2: "st2 = st" using assms(6) by simp
    from request_own [OF assms(1,3) inv runs_request(2-6), unfolded st2 assms(7) snd_conv] obtain l ident r where
      l: "gp_avatar s = (l, [])" "link_ok E json_error author c l" and ident: "pksign_identity st (trim (skip_options args)) = Some ident"
      and own: "own_arrival E json_error c disp l (forwarded_sign L ident (scd_stored_data st) (gsc_next_id (scd_client st))) a"
      and sign: "gsc_sign L (si_index ident) (si_public_key ident) (strip_digest_info (scd_stored_data st))
        (scd_client (answering a st)) = (r, scd_client st')"
      and r: "r = Inr sig" "length sig = 64" using assms(9) by blast
    let ?req = "forwarded_sign L ident (scd_stored_data st) (gsc_next_id (scd_client st))"
    have "gsc_buffer (scd_client (answering a st)) = []" "gsc_arrivals (scd_client (answering a st)) = [a]"
      using inv assms(6) by (auto simp: gpg_inv_def answering_def)
    from gsc_sign_answered [OF assms(1,3) this own sign] r(1) obtain resp res t where
      resp: "own_response (env_J E) (daemon_peer E json_error c) l ?req = Inr resp" "resp_error resp = None"
      "resp_result resp = Some res" "get_str (norm_json res) ''signature'' = Some t" "b64_decode (sl_base64 L) t = Some sig"
      by blast
    have rel: "relayed E json_error c l ''gpg.sign_request'' (req_params ?req) resp"
      using daemon_success [OF assms(1,2) l(2) resp(1,2)] by (simp add: forwarded_sign_def)
    have "norm_json res = res" using relayed_wf [OF rel resp(3)] by simp
    then have "signature_of (sl_base64 L) resp = Some sig" using resp by (simp add: signature_of_def)
    with rel l(1) ident r(2) show ?thesis
      by (intro exI [of _ l] exI [of _ ident] exI [of _ "strip_digest_info (scd_stored_data st)"]
          exI [of _ "req_params ?req"] exI [of _ resp])
        (simp add: forwarded_sign_def sign_payload_def get_str_def jget_json_object pksign_identity_selects to_sign_strip)
  qed
qed

theorem gpg_signature_provenance_witness:
  "\<exists>s l params resp. reach (gpg_started gpg_env id sample_author 0) sample_step s \<and> gp_avatar s = (l, []) \<and>
     relayed gpg_env id 0 l ''gpg.sign_request'' params resp \<and>
     get_str params ''data'' = Some (b64_encode toy_base64 [1, 2]) \<and> signature_of toy_base64 resp = Some (replicate 64 7)"
proof -
  let ?L = "sample_scd_lib gpg_text" and ?init = "gpg_started gpg_env id sample_author 0"
  obtain l0 where "?init (sample_programs None fresh_connection l0)" and ready: "link_ready gpg_text ''gpg'' (Suc 1) l0"
    using gpg_sample_link by (auto simp: numeral_2_eq_2 sample_programs_def fun_upd_idem)
  then have r0: "reach ?init sample_step (sample_programs None fresh_connection l0)" by (intro reach_init)
  obtain sc l where start: "sample_step (sample_programs None fresh_connection l0) (Starts 0)
      (sample_programs (Some (sample_shim [])) sc l)"
    and l: "shim_open sc" "shim_input sc = []" "link_ready gpg_text ''gpg'' (Suc 0) l"
    using sample_starts [OF ready] by blast
  have "reach ?init sample_step (sample_programs (Some (sample_shim [])) sc l)" using r0 start by (rule reach_step)
  then have r2: "reach ?init sample_step (sample_programs (Some (sample_shim [1, 2])) sc l)"
    using sample_setdata by (rule reach_step)
  obtain s' where sign: "sample_step (sample_programs (Some (sample_shim [1, 2])) sc l)
      (Runs 0 (''PKSIGN'' @ CHR '' '' # ''AB'') (send_data (replicate 64 7) @ send_ok [])) s'"
    using sample_pksign [OF l(3,1,2)] by blast
  have parsed: "parse_command (trim (''PKSIGN'' @ CHR '' '' # ''AB'')) = (''PKSIGN'', ''AB'')"
    using parse_two_words [of "''PKSIGN''" "''AB''"] by (simp add: graph_def)
  have compact: "compact_text (env_J gpg_env)" by (simp add: gpg_text_compact)
  have lib: "sl_text ?L = env_J gpg_env" "sl_base64 ?L = toy_base64" by (simp_all add: sample_scd_lib_def)
  have st: "gp_shims (sample_programs (Some (sample_shim [1, 2])) sc l) 0 = Some (sample_shim [1, 2])"
    by (simp add: sample_programs_def)
  have data: "m = [1, 2]" if "to_sign (scd_stored_data (sample_shim [1, 2])) m" for m
    using that by (simp add: to_sign_def digest_inside_def digest_info_def sample_shim_def)
  from gpg_signature_provenance [OF compact sample_env_order lib(1) r2 sign st parsed keywords_upper(2) refl] r2
  show ?thesis unfolding lib(2) using data by blast
qed

end
