(* ===== verification/Nostr_Client.thy ===== *)
theory Nostr_Client
  imports Nostr_Sa
begin

text \<open>
  The client library of the Nostr service avatar (crates/km-nostr-client/src/lib.rs). Each call
  opens a connection of its own: a peer is what it answers to the bytes of the request, \<open>None\<close>
  when the connection is refused.
\<close>

section \<open>Calls\<close>

datatype nostr_error =
    IoError
  | JsonError
  | HexError
  | RpcError "64 word" string
  | ProtocolError string

type_synonym 'a nostr_result = "nostr_error + 'a"

definition bind_result :: "'a nostr_result \<Rightarrow> ('a \<Rightarrow> 'b nostr_result) \<Rightarrow> 'b nostr_result" where
  "bind_result r f = (case r of Inl e \<Rightarrow> Inl e | Inr x \<Rightarrow> f x)"

definition or_error :: "nostr_error \<Rightarrow> 'a option \<Rightarrow> 'a nostr_result" where
  "or_error e v = (case v of None \<Rightarrow> Inl e | Some x \<Rightarrow> Inr x)"

definition call_request :: "string \<Rightarrow> json \<Rightarrow> json" where
  "call_request meth params = json_object
     [(''jsonrpc'', JString ''2.0''), (''id'', json_of_nat 1), (''method'', JString meth), (''params'', params)]"

text \<open>The response frame is read without a limit on its length, an empty one included.\<close>

definition read_response :: "json_text \<Rightarrow> bytes \<Rightarrow> json nostr_result" where
  "read_response J s =
     (case read_exact 4 s of
        None \<Rightarrow> Inl IoError
      | Some (hdr, s1) \<Rightarrow>
          (case read_exact (unat (u32_of_list hdr)) s1 of
             None \<Rightarrow> Inl IoError
           | Some (buf, _) \<Rightarrow> or_error JsonError (json_from_slice J buf)))"

definition response_result :: "json \<Rightarrow> json nostr_result" where
  "response_result resp =
     (case jget resp ''error'' of
        Some err \<Rightarrow>
          Inl (RpcError (case Option.bind (jget err ''code'') as_i64 of None \<Rightarrow> - 1 | Some c \<Rightarrow> c)
            (case get_str err ''message'' of None \<Rightarrow> ''unknown error'' | Some m \<Rightarrow> m))
      | None \<Rightarrow> or_error (ProtocolError ''missing result field'') (jget resp ''result''))"

text \<open>A client is the path of a socket that existed when it was made; each call connects anew.\<close>

record km_nostr_client =
  kc_path :: string

definition kc_connect :: "(string \<Rightarrow> bool) \<Rightarrow> string \<Rightarrow> km_nostr_client nostr_result" where
  "kc_connect path_exists path = (if path_exists path then Inr \<lparr>kc_path = path\<rparr> else Inl IoError)"

definition connect_default :: "(string \<Rightarrow> bool) \<Rightarrow> nat \<Rightarrow> km_nostr_client nostr_result" where
  "connect_default path_exists uid = kc_connect path_exists (''/run/user/'' @ nat_to_dec uid @ ''/keymaster-nostr-sa.sock'')"

definition call :: "json_text \<Rightarrow> (bytes \<Rightarrow> bytes option) \<Rightarrow> string \<Rightarrow> json \<Rightarrow> json nostr_result" where
  "call J peer meth params =
     (case peer (write_frame (as_bytes (json_to_string J (call_request meth params)))) of
        None \<Rightarrow> Inl IoError
      | Some answer \<Rightarrow> bind_result (read_response J answer) response_result)"

definition get_str_field :: "json \<Rightarrow> string \<Rightarrow> string nostr_result" where
  "get_str_field obj field = or_error (ProtocolError (''missing field: '' @ field)) (get_str obj field)"

definition hex_to_n :: "nat \<Rightarrow> hex_lib \<Rightarrow> string \<Rightarrow> bytes nostr_result" where
  "hex_to_n n H s = bind_result (or_error HexError (hex_dec H s)) (\<lambda>bytes.
     if length bytes = n then Inr bytes
     else Inl (ProtocolError (''expected '' @ nat_to_dec n @ '' bytes, got '' @ nat_to_dec (length bytes))))"

definition hex_to_32 :: "hex_lib \<Rightarrow> string \<Rightarrow> bytes nostr_result" where "hex_to_32 = hex_to_n 32"
definition hex_to_64 :: "hex_lib \<Rightarrow> string \<Rightarrow> bytes nostr_result" where "hex_to_64 = hex_to_n 64"

section \<open>Typed methods\<close>

text \<open>Each method is a call, given as \<open>rpc\<close>, and a reading of its result.\<close>

type_synonym rpc = "string \<Rightarrow> json \<Rightarrow> json nostr_result"

fun collect_results :: "'a nostr_result list \<Rightarrow> 'a list nostr_result" where
  "collect_results [] = Inr []"
| "collect_results (r # rs) = bind_result r (\<lambda>x. bind_result (collect_results rs) (\<lambda>xs. Inr (x # xs)))"

definition get_public_keys :: "hex_lib \<Rightarrow> rpc \<Rightarrow> bytes list nostr_result" where
  "get_public_keys H rpc =
     bind_result (rpc ''get_public_keys'' (json_object [])) (\<lambda>resp.
       bind_result (or_error (ProtocolError ''expected array'') (as_array resp)) (\<lambda>items.
         collect_results (map (\<lambda>item.
           bind_result (or_error (ProtocolError ''missing public_key'') (get_str item ''public_key'')) (hex_to_32 H))
           items)))"

definition sign_event_params :: "hex_lib \<Rightarrow> bytes \<Rightarrow> bytes \<Rightarrow> json" where
  "sign_event_params H pubkey event_hash = json_object
     [(''public_key'', JString (hex_enc H pubkey)), (''event_hash'', JString (hex_enc H event_hash))]"

definition sign_event :: "hex_lib \<Rightarrow> rpc \<Rightarrow> bytes \<Rightarrow> bytes \<Rightarrow> bytes nostr_result" where
  "sign_event H rpc pubkey event_hash =
     bind_result (rpc ''sign_event'' (sign_event_params H pubkey event_hash)) (\<lambda>resp.
       bind_result (get_str_field resp ''signature'') (hex_to_64 H))"

definition nip44_encrypt :: "hex_lib \<Rightarrow> rpc \<Rightarrow> bytes \<Rightarrow> bytes \<Rightarrow> string \<Rightarrow> string nostr_result" where
  "nip44_encrypt H rpc pubkey peer_public_key plaintext =
     bind_result (rpc ''nip44_encrypt'' (json_object
         [(''public_key'', JString (hex_enc H pubkey)), (''peer_public_key'', JString (hex_enc H peer_public_key)),
          (''plaintext'', JString plaintext)])) (\<lambda>resp. get_str_field resp ''ciphertext'')"

definition nip44_decrypt :: "hex_lib \<Rightarrow> rpc \<Rightarrow> bytes \<Rightarrow> bytes \<Rightarrow> string \<Rightarrow> string nostr_result" where
  "nip44_decrypt H rpc pubkey peer_public_key ciphertext =
     bind_result (rpc ''nip44_decrypt'' (json_object
         [(''public_key'', JString (hex_enc H pubkey)), (''peer_public_key'', JString (hex_enc H peer_public_key)),
          (''ciphertext'', JString ciphertext)])) (\<lambda>resp. get_str_field resp ''plaintext'')"

definition get_mls_pubkey :: "hex_lib \<Rightarrow> rpc \<Rightarrow> bytes \<Rightarrow> bytes nostr_result" where
  "get_mls_pubkey H rpc nostr_pubkey =
     bind_result (rpc ''get_mls_pubkey'' (json_object
         [(''nostr_pubkey'', JString (hex_enc H nostr_pubkey)), (''device_id'', JNull)])) (\<lambda>resp.
       bind_result (get_str_field resp ''mls_pubkey'') (hex_to_32 H))"

definition mls_sign :: "hex_lib \<Rightarrow> rpc \<Rightarrow> bytes \<Rightarrow> bytes \<Rightarrow> bytes nostr_result" where
  "mls_sign H rpc mls_pubkey data =
     bind_result (rpc ''mls_sign'' (json_object
         [(''mls_pubkey'', JString (hex_enc H mls_pubkey)), (''data'', JString (hex_enc H data))])) (\<lambda>resp.
       bind_result (get_str_field resp ''signature'') (hex_to_64 H))"

definition sign_account_identity_proof ::
    "hex_lib \<Rightarrow> rpc \<Rightarrow> bytes \<Rightarrow> bytes \<Rightarrow> u32 \<Rightarrow> u32 \<Rightarrow> bytes nostr_result" where
  "sign_account_identity_proof H rpc account_identity mls_signature_public_key ciphersuite signature_scheme =
     bind_result (rpc ''sign_account_identity_proof'' (json_object
         [(''account_identity'', JString (hex_enc H account_identity)),
          (''mls_signature_public_key'', JString (hex_enc H mls_signature_public_key)),
          (''ciphersuite'', json_of_nat (unat ciphersuite)),
          (''signature_scheme'', json_of_nat (unat signature_scheme))])) (\<lambda>resp.
       bind_result (get_str_field resp ''signature'') (hex_to_64 H))"

definition mls_hpke_pubkey_at :: "hex_lib \<Rightarrow> rpc \<Rightarrow> bytes \<Rightarrow> u32 \<Rightarrow> u32 \<Rightarrow> bytes nostr_result" where
  "mls_hpke_pubkey_at H rpc mls_pubkey key_type index =
     bind_result (rpc ''mls_hpke_pubkey_at'' (json_object
         [(''mls_pubkey'', JString (hex_enc H mls_pubkey)), (''key_type'', json_of_nat (unat key_type)),
          (''index'', json_of_nat (unat index))])) (\<lambda>resp.
       bind_result (get_str_field resp ''hpke_pubkey'') (hex_to_32 H))"

definition hpke_params :: "hex_lib \<Rightarrow> bytes \<Rightarrow> bytes \<Rightarrow> json" where
  "hpke_params H hpke_pubkey peer_public = json_object
     [(''hpke_pubkey'', JString (hex_enc H hpke_pubkey)), (''peer_public'', JString (hex_enc H peer_public))]"

definition mls_hpke_dh :: "hex_lib \<Rightarrow> rpc \<Rightarrow> bytes \<Rightarrow> bytes \<Rightarrow> bytes nostr_result" where
  "mls_hpke_dh H rpc hpke_pubkey peer_public =
     bind_result (rpc ''mls_hpke_dh'' (hpke_params H hpke_pubkey peer_public)) (\<lambda>resp.
       bind_result (get_str_field resp ''dh_result'') (hex_to_32 H))"

definition mls_hpke_decap :: "hex_lib \<Rightarrow> rpc \<Rightarrow> bytes \<Rightarrow> bytes \<Rightarrow> bytes nostr_result" where
  "mls_hpke_decap H rpc hpke_pubkey peer_public =
     bind_result (rpc ''mls_hpke_decap'' (hpke_params H hpke_pubkey peer_public)) (\<lambda>resp.
       bind_result (get_str_field resp ''dh_result'') (hex_to_32 H))"

text \<open>The index is cut to 32 bits.\<close>

definition mls_next_hpke_init_key :: "hex_lib \<Rightarrow> rpc \<Rightarrow> bytes \<Rightarrow> bytes option \<Rightarrow> (bytes \<times> u32) nostr_result" where
  "mls_next_hpke_init_key H rpc mls_pubkey current_hpke_pubkey =
     bind_result (rpc ''mls_next_hpke_init_key'' (json_object
         [(''mls_pubkey'', JString (hex_enc H mls_pubkey)),
          (''current_hpke_pubkey'', case current_hpke_pubkey of None \<Rightarrow> JNull | Some k \<Rightarrow> JString (hex_enc H k))])) (\<lambda>resp.
       bind_result (bind_result (get_str_field resp ''hpke_pubkey'') (hex_to_32 H)) (\<lambda>pubkey.
         bind_result (or_error (ProtocolError ''missing index'') (Option.bind (jget resp ''index'') as_u64)) (\<lambda>index.
           Inr (pubkey, ucast index))))"

section \<open>Through the service avatar\<close>

text \<open>The service avatar as the peer, with the avatar behind it.\<close>

definition nostr_sa_peer ::
    "nostr_lib \<Rightarrow> u64 \<Rightarrow> (json_rpc_request \<Rightarrow> string + json_rpc_response) \<Rightarrow> bytes \<Rightarrow> bytes option" where
  "nostr_sa_peer L rid avatar s = Some (handle_client L
     (\<lambda>req. ClientReply (fst (bridge_nostr_response L req (avatar (bridge_nostr_request L rid req))))) s)"

lemma read_response_framed:
  assumes "framed_printable J v" and "json_wf v"
  shows "read_response J (write_framed_message J v @ rest) = Inr v"
proof -
  have len: "length (json_to_string J v) < 2 ^ 32"
    using assms(1) by (simp add: framed_printable_def MAX_MESSAGE_SIZE_def)
  then have "unat (of_nat (length (json_to_string J v)) :: u32) = length (json_to_string J v)"
    by (rule unat_of_nat_u32)
  with assms show ?thesis
    by (simp add: read_response_def write_framed_message_def write_frame_def codec_simps or_error_def
        framed_printable_def json_from_slice_def from_str_value_def)
qed

lemma json_wf_request: "json_wf params \<Longrightarrow> json_wf (call_request meth params)"
  unfolding call_request_def by (rule json_wf_object) (simp add: json_of_nat_def)

lemma client_request_of_call:
  "client_request_of (call_request meth params) =
     Some \<lparr>cr_method = meth, cr_params = params, cr_client_id = json_of_nat 1\<rparr>"
  by (simp add: client_request_of_def call_request_def get_str_def jget_json_object json_default_def)

text \<open>One call on a connection whose requests are served.\<close>

lemma call_served:
  assumes "json_wf params" and "framed_printable (nl_text L) (call_request meth params)"
    and "reply = serve \<lparr>cr_method = meth, cr_params = params, cr_client_id = json_of_nat 1\<rparr>"
    and "framed_printable (nl_text L) (norm_json (encode_response reply))"
  shows "call (nl_text L) (\<lambda>s. Some (handle_client L (\<lambda>req. ClientReply (serve req)) s)) meth params =
    response_result (norm_json (encode_response reply))"
proof -
  have "client_answer (\<lambda>req. ClientReply (serve req)) (call_request meth params) = Some (norm_json (encode_response reply))"
    by (simp add: client_answer_def client_request_of_call assms(3))
  then have "handle_client L (\<lambda>req. ClientReply (serve req)) (write_framed_message (nl_text L) (call_request meth params)) =
      write_framed_message (nl_text L) (norm_json (encode_response reply))"
    using assms(2) json_wf_request [OF assms(1)]
    by (simp add: client_loop.loop_one read_framed_message_def read_frame_def read_exact_def)
  moreover have "read_response (nl_text L) (write_framed_message (nl_text L) (norm_json (encode_response reply))) =
      Inr (norm_json (encode_response reply))"
    using read_response_framed [OF assms(4) json_wf_norm, of "[]"] by simp
  ultimately show ?thesis by (simp add: call_def bind_result_def flip: write_framed_message_def)
qed

lemma response_result_encode:
  "response_result (norm_json (encode_response r)) = Inr v \<longleftrightarrow>
     resp_error r = None \<and> (\<exists>res. resp_result r = Some res \<and> v = norm_json res)"
  by (auto simp: response_result_def jget_norm_response or_error_def split: option.split)

text \<open>One call through the service avatar comes back as the translated result.\<close>

lemma call_through_service_avatar:
  assumes "json_wf params" and "framed_printable (nl_text L) (call_request meth params)"
    and "avatar (bridge_nostr_request L rid \<lparr>cr_method = meth, cr_params = params, cr_client_id = json_of_nat 1\<rparr>) = Inr r"
    and "resp_error r = None" and "resp_result r = Some res"
    and "framed_printable (nl_text L) (norm_json (encode_response \<lparr>resp_jsonrpc = ''2.0'',
      resp_result = Some (translate_response_result L meth res), resp_error = None, resp_id = json_of_nat 1\<rparr>))"
  shows "call (nl_text L) (nostr_sa_peer L rid avatar) meth params =
    Inr (norm_json (translate_response_result L meth res))"
proof -
  let ?serve = "\<lambda>req. fst (bridge_nostr_response L req (avatar (bridge_nostr_request L rid req)))"
  let ?resp = "\<lparr>resp_jsonrpc = ''2.0'', resp_result = Some (translate_response_result L meth res),
    resp_error = None, resp_id = json_of_nat 1\<rparr>"
  have "?resp = ?serve \<lparr>cr_method = meth, cr_params = params, cr_client_id = json_of_nat 1\<rparr>"
    using assms(3-5) by (simp add: bridge_nostr_response_def)
  from call_served [where serve = ?serve, OF assms(1,2) this assms(6)] show ?thesis
    unfolding nostr_sa_peer_def by (simp add: response_result_encode)
qed

text \<open>A signature that a client accepts.\<close>

lemma sign_event_accepts:
  "sign_event H rpc pubkey event_hash = Inr sig \<Longrightarrow>
     \<exists>res s. rpc ''sign_event'' (sign_event_params H pubkey event_hash) = Inr res \<and>
       get_str res ''signature'' = Some s \<and> hex_dec H s = Some sig \<and> length sig = 64"
  by (auto simp: sign_event_def bind_result_def get_str_field_def or_error_def hex_to_64_def hex_to_n_def
      split: sum.splits option.splits if_splits)

lemma sign_event_params_wf: "json_wf (sign_event_params H pubkey event_hash)"
  unfolding sign_event_params_def by (rule json_wf_object) simp

lemma sign_event_forwarded:
  assumes "hex_laws (nl_hex L)" and "cr_method q = ''sign_event''"
    and "cr_params q = sign_event_params (nl_hex L) pubkey event_hash"
  shows "req_method (bridge_nostr_request L rid q) = ''nostr.sign_event'' \<and>
    get_str (req_params (bridge_nostr_request L rid q)) ''public_key'' = Some (b64_encode (nl_base64 L) pubkey) \<and>
    get_str (req_params (bridge_nostr_request L rid q)) ''event_hash'' = Some (b64_encode (nl_base64 L) event_hash)"
proof -
  let ?params = "sign_event_params (nl_hex L) pubkey event_hash"
  have f: "get_str ?params ''public_key'' = Some (hex_enc (nl_hex L) pubkey)"
    "get_str ?params ''event_hash'' = Some (hex_enc (nl_hex L) event_hash)"
    by (simp_all add: sign_event_params_def get_str_def jget_json_object)
  have fields: "''public_key'' \<in> set (request_byte_fields ''sign_event'')"
    "''event_hash'' \<in> set (request_byte_fields ''sign_event'')"
    by (simp_all add: request_byte_fields_def)
  show ?thesis
    using fold_field_spec [OF assms(1) request_byte_fields_distinct fields(1) f(1)]
      fold_field_spec [OF assms(1) request_byte_fields_distinct fields(2) f(2)]
    unfolding bridge_nostr_request_def translate_request_fold by (simp add: request_new_def assms(2,3))
qed

lemma json_wf_jset: "json_wf v \<Longrightarrow> json_wf (jset v k (JString t))"
  using map_insert_set [of k "JString t"] by (cases v) (fastforce simp: jset_def map_sorted_insert)+

lemma json_wf_field: "json_wf v \<Longrightarrow> json_wf (base64_to_hex_field L k v)"
  by (simp add: base64_to_hex_field_def json_wf_jset split: option.split)

lemma translate_request_wf: "json_wf v \<Longrightarrow> json_wf (translate_request_params L meth v)"
proof -
  have "json_wf v \<Longrightarrow> json_wf (hex_to_base64_field L k v)" for k v
    by (simp add: hex_to_base64_field_def json_wf_jset split: option.split)
  then have "json_wf v \<Longrightarrow> json_wf (fold (hex_to_base64_field L) ks v)" for ks
    by (induction ks arbitrary: v) simp_all
  then show "json_wf v \<Longrightarrow> ?thesis" by (simp add: translate_request_fold)
qed

lemma field_translation_cong:
  assumes "nl_base64 L = nl_base64 L'" and "nl_hex L = nl_hex L'"
  shows "base64_to_hex_field L = base64_to_hex_field L'" "hex_to_base64_field L = hex_to_base64_field L'"
  unfolding base64_to_hex_field_def [abs_def] hex_to_base64_field_def [abs_def] assms by (rule refl)+

section \<open>Properties\<close>

text \<open>
  C32. Signing a Nostr event end to end: a client's \<open>sign_event\<close>, sent through the service avatar,
  reaches the avatar as \<open>nostr.sign_event\<close> with the same key and hash in base64; the bytes of
  the avatar's base64 signature come back to the client as they are when there are 64 of them,
  and any other number of bytes is an error, for messages whose text fits a frame.
\<close>

theorem sign_event_end_to_end:
  assumes "hex_laws (nl_hex L)" and "base64_laws (nl_base64 L)"
    and "framed_printable (nl_text L) (call_request ''sign_event'' (sign_event_params (nl_hex L) pubkey event_hash))"
    and "req = bridge_nostr_request L rid \<lparr>cr_method = ''sign_event'',
      cr_params = sign_event_params (nl_hex L) pubkey event_hash, cr_client_id = json_of_nat 1\<rparr>"
    and "avatar req = Inr r" and "resp_error r = None" and "resp_result r = Some res" and "json_wf res"
    and "get_str res ''signature'' = Some (b64_encode (nl_base64 L) sig)"
    and "framed_printable (nl_text L) (norm_json (encode_response \<lparr>resp_jsonrpc = ''2.0'',
      resp_result = Some (translate_response_result L ''sign_event'' res), resp_error = None,
      resp_id = json_of_nat 1\<rparr>))"
  shows "req_method req = ''nostr.sign_event'' \<and>
     get_str (req_params req) ''public_key'' = Some (b64_encode (nl_base64 L) pubkey) \<and>
     get_str (req_params req) ''event_hash'' = Some (b64_encode (nl_base64 L) event_hash) \<and>
    sign_event (nl_hex L) (call (nl_text L) (nostr_sa_peer L rid avatar)) pubkey event_hash =
      (if length sig = 64 then Inr sig
       else Inl (ProtocolError (''expected 64 bytes, got '' @ nat_to_dec (length sig))))"
proof -
  let ?params = "sign_event_params (nl_hex L) pubkey event_hash"
  have sent: "req_method req = ''nostr.sign_event'' \<and>
     get_str (req_params req) ''public_key'' = Some (b64_encode (nl_base64 L) pubkey) \<and>
     get_str (req_params req) ''event_hash'' = Some (b64_encode (nl_base64 L) event_hash)"
    unfolding assms(4) by (rule sign_event_forwarded [OF assms(1)]) simp_all
  have tr: "translate_response_result L ''sign_event'' res = base64_to_hex_field L ''signature'' res"
    by (simp add: translate_response_result_def)
  have "call (nl_text L) (nostr_sa_peer L rid avatar) ''sign_event'' ?params =
      Inr (base64_to_hex_field L ''signature'' res)"
    using call_through_service_avatar [OF sign_event_params_wf assms(3), of avatar rid r res] assms(4-7,10) json_wf_field [OF assms(8)]
    by (simp add: tr)
  moreover have "get_str (base64_to_hex_field L ''signature'' res) ''signature'' = Some (hex_enc (nl_hex L) sig)"
    by (simp add: base64_to_hex_field_spec [OF assms(2,9)])
  moreover have "nat_to_dec 64 = ''64''" by (simp add: nat_to_dec.simps char_of_def bit_0)
  ultimately show ?thesis
    using assms(1) sent
    by (simp add: sign_event_def bind_result_def get_str_field_def or_error_def hex_to_64_def hex_to_n_def hex_laws_def)
qed

text \<open>Two messages and their texts.\<close>

definition two_texts :: "json \<Rightarrow> json \<Rightarrow> json_text" where
  "two_texts a b = \<lparr>json_to_string = \<lambda>v. if v = a then ''a'' else ''b'',
     json_from_str = \<lambda>s. if s = ''a'' then Some a else Some b\<rparr>"

lemma two_texts_printable: "framed_printable (two_texts a b) a" "framed_printable (two_texts a b) b"
  by (simp_all add: framed_printable_def two_texts_def MAX_MESSAGE_SIZE_def utf8_valid_ascii as_bytes_def)

definition signature_result :: json where
  "signature_result = JObject [(''signature'', JString (b64_encode toy_base64 (replicate 64 5)))]"

definition signature_message :: "json_text \<Rightarrow> json" where
  "signature_message J = norm_json (encode_response \<lparr>resp_jsonrpc = ''2.0'',
     resp_result = Some (translate_response_result (toy_nostr_lib J) ''sign_event'' signature_result),
     resp_error = None, resp_id = json_of_nat 1\<rparr>)"

definition signature_request :: json where
  "signature_request = call_request ''sign_event''
     (sign_event_params (nl_hex (toy_nostr_lib (toy_text JNull))) [1] [2])"

definition signature_texts :: json_text where
  "signature_texts = two_texts signature_request (signature_message (toy_text JNull))"

lemma signature_texts_printable:
  "framed_printable signature_texts (call_request ''sign_event''
     (sign_event_params (nl_hex (toy_nostr_lib signature_texts)) [1] [2]))"
  "framed_printable signature_texts (signature_message signature_texts)"
proof -
  have "nl_hex (toy_nostr_lib signature_texts) = nl_hex (toy_nostr_lib (toy_text JNull))"
    by (simp add: toy_nostr_lib_def)
  then have "call_request ''sign_event'' (sign_event_params (nl_hex (toy_nostr_lib signature_texts)) [1] [2]) =
      signature_request" by (simp only: signature_request_def)
  then show "framed_printable signature_texts (call_request ''sign_event''
     (sign_event_params (nl_hex (toy_nostr_lib signature_texts)) [1] [2]))"
    by (simp add: signature_texts_def two_texts_printable)
  have "base64_to_hex_field (toy_nostr_lib signature_texts) = base64_to_hex_field (toy_nostr_lib (toy_text JNull))"
    by (rule field_translation_cong) (simp_all add: toy_nostr_lib_def)
  then have "signature_message signature_texts = signature_message (toy_text JNull)"
    by (simp add: signature_message_def translate_response_result_def)
  then show "framed_printable signature_texts (signature_message signature_texts)"
    by (simp add: signature_texts_def two_texts_printable)
qed

theorem sign_event_end_to_end_witness:
  "sign_event (nl_hex (toy_nostr_lib signature_texts))
     (call (nl_text (toy_nostr_lib signature_texts)) (nostr_sa_peer (toy_nostr_lib signature_texts) 2
      (\<lambda>_. Inr (response_success (json_of_nat 2) signature_result)))) [1] [2] = Inr (replicate 64 5)"
proof -
  let ?L = "toy_nostr_lib signature_texts"
  let ?r = "response_success (json_of_nat 2) signature_result"
  have r: "resp_error ?r = None" "resp_result ?r = Some signature_result"
    by (simp_all add: response_success_def)
  have txts: "nl_text ?L = signature_texts" by (simp add: toy_nostr_lib_def)
  have sig: "get_str signature_result ''signature'' = Some (b64_encode (nl_base64 ?L) (replicate 64 5))"
    "json_wf signature_result"
    by (simp_all add: signature_result_def get_str_def toy_nostr_lib_def map_sorted_def)
  have p: "framed_printable (nl_text ?L) (call_request ''sign_event'' (sign_event_params (nl_hex ?L) [1] [2]))"
    "framed_printable (nl_text ?L) (signature_message signature_texts)"
    unfolding txts by (rule signature_texts_printable)+
  have "sign_event (nl_hex ?L) (call (nl_text ?L) (nostr_sa_peer ?L 2 (\<lambda>_. Inr ?r))) [1] [2] =
      (if length (replicate 64 (5 :: byte)) = 64 then Inr (replicate 64 5)
       else Inl (ProtocolError (''expected 64 bytes, got '' @ nat_to_dec (length (replicate 64 (5 :: byte))))))"
    using sign_event_end_to_end [OF toy_nostr_laws p(1) refl refl r sig(2,1)
        p(2) [unfolded signature_message_def]] by blast
  then show ?thesis by simp
qed

end
