(* ===== verification/Pkcs11_Types.thy ===== *)
theory Pkcs11_Types
  imports Prelude
begin

text \<open>
  The Cryptoki types of crates/pkcs11-gpg/src/pkcs11_types.rs on a 64-bit target, where
  \<open>CK_ULONG\<close> has 64 bits. A pointer is an option: \<open>None\<close> is NULL, \<open>Some\<close> holds what it points
  to, for an array pointer the whole buffer of the caller.
\<close>

named_theorems ck_consts \<open>the values of the Cryptoki constants\<close>

type_synonym ck_ulong = u64
type_synonym ck_rv = ck_ulong

definition CK_TRUE :: byte where "CK_TRUE = 1"
definition CK_FALSE :: byte where "CK_FALSE = 0"
definition CK_INVALID_HANDLE :: ck_ulong where "CK_INVALID_HANDLE = 0"
definition CK_UNAVAILABLE_INFORMATION :: ck_ulong where "CK_UNAVAILABLE_INFORMATION = - 1"
definition CKR_OK :: ck_ulong where "CKR_OK = 0x0"
definition CKR_CANCEL :: ck_ulong where "CKR_CANCEL = 0x1"
definition CKR_ARGUMENTS_BAD :: ck_ulong where "CKR_ARGUMENTS_BAD = 0x7"
definition CKR_ATTRIBUTE_TYPE_INVALID :: ck_ulong where "CKR_ATTRIBUTE_TYPE_INVALID = 0x12"
definition CKR_BUFFER_TOO_SMALL :: ck_ulong where "CKR_BUFFER_TOO_SMALL = 0x150"
definition CKR_CRYPTOKI_NOT_INITIALIZED :: ck_ulong where "CKR_CRYPTOKI_NOT_INITIALIZED = 0x190"
definition CKR_CRYPTOKI_ALREADY_INITIALIZED :: ck_ulong where "CKR_CRYPTOKI_ALREADY_INITIALIZED = 0x191"
definition CKR_DEVICE_ERROR :: ck_ulong where "CKR_DEVICE_ERROR = 0x30"
definition CKR_FUNCTION_NOT_SUPPORTED :: ck_ulong where "CKR_FUNCTION_NOT_SUPPORTED = 0x54"
definition CKR_GENERAL_ERROR :: ck_ulong where "CKR_GENERAL_ERROR = 0x5"
definition CKR_MECHANISM_INVALID :: ck_ulong where "CKR_MECHANISM_INVALID = 0x70"
definition CKR_OBJECT_HANDLE_INVALID :: ck_ulong where "CKR_OBJECT_HANDLE_INVALID = 0x82"
definition CKR_OPERATION_NOT_INITIALIZED :: ck_ulong where "CKR_OPERATION_NOT_INITIALIZED = 0x91"
definition CKR_SESSION_HANDLE_INVALID :: ck_ulong where "CKR_SESSION_HANDLE_INVALID = 0xB3"
definition CKR_SESSION_CLOSED :: ck_ulong where "CKR_SESSION_CLOSED = 0xB0"
definition CKR_SLOT_ID_INVALID :: ck_ulong where "CKR_SLOT_ID_INVALID = 0x65"
definition CKR_TOKEN_NOT_PRESENT :: ck_ulong where "CKR_TOKEN_NOT_PRESENT = 0xE0"
definition CKO_CERTIFICATE :: ck_ulong where "CKO_CERTIFICATE = 0x1"
definition CKO_PUBLIC_KEY :: ck_ulong where "CKO_PUBLIC_KEY = 0x2"
definition CKO_PRIVATE_KEY :: ck_ulong where "CKO_PRIVATE_KEY = 0x3"
definition CKC_X_509 :: ck_ulong where "CKC_X_509 = 0x0"
definition CKK_EC_EDWARDS :: ck_ulong where "CKK_EC_EDWARDS = 0x40"
definition CKM_EDDSA :: ck_ulong where "CKM_EDDSA = 0x1057"
definition CKA_CLASS :: ck_ulong where "CKA_CLASS = 0x0"
definition CKA_TOKEN :: ck_ulong where "CKA_TOKEN = 0x1"
definition CKA_PRIVATE :: ck_ulong where "CKA_PRIVATE = 0x2"
definition CKA_LABEL :: ck_ulong where "CKA_LABEL = 0x3"
definition CKA_VALUE :: ck_ulong where "CKA_VALUE = 0x11"
definition CKA_CERTIFICATE_TYPE :: ck_ulong where "CKA_CERTIFICATE_TYPE = 0x80"
definition CKA_ISSUER :: ck_ulong where "CKA_ISSUER = 0x81"
definition CKA_SERIAL_NUMBER :: ck_ulong where "CKA_SERIAL_NUMBER = 0x82"
definition CKA_KEY_TYPE :: ck_ulong where "CKA_KEY_TYPE = 0x100"
definition CKA_SUBJECT :: ck_ulong where "CKA_SUBJECT = 0x101"
definition CKA_ID :: ck_ulong where "CKA_ID = 0x102"
definition CKA_SIGN :: ck_ulong where "CKA_SIGN = 0x108"
definition CKA_VERIFY :: ck_ulong where "CKA_VERIFY = 0x10A"
definition CKA_EC_PARAMS :: ck_ulong where "CKA_EC_PARAMS = 0x180"
definition CKA_EC_POINT :: ck_ulong where "CKA_EC_POINT = 0x181"
definition CKA_ALWAYS_AUTHENTICATE :: ck_ulong where "CKA_ALWAYS_AUTHENTICATE = 0x202"
definition CKF_SERIAL_SESSION :: ck_ulong where "CKF_SERIAL_SESSION = 0x4"
definition CKF_RW_SESSION :: ck_ulong where "CKF_RW_SESSION = 0x2"
definition CKF_TOKEN_INITIALIZED :: ck_ulong where "CKF_TOKEN_INITIALIZED = 0x400"
definition CKF_LOGIN_REQUIRED :: ck_ulong where "CKF_LOGIN_REQUIRED = 0x4"
definition CKF_SIGN :: ck_ulong where "CKF_SIGN = 0x800"
definition CKF_VERIFY :: ck_ulong where "CKF_VERIFY = 0x2000"
definition CKF_HW_SLOT :: ck_ulong where "CKF_HW_SLOT = 0x4"
definition CKF_TOKEN_PRESENT :: ck_ulong where "CKF_TOKEN_PRESENT = 0x1"
definition CKF_REMOVABLE_DEVICE :: ck_ulong where "CKF_REMOVABLE_DEVICE = 0x2"
definition CKS_RO_PUBLIC_SESSION :: ck_ulong where "CKS_RO_PUBLIC_SESSION = 0"
definition CKS_RW_PUBLIC_SESSION :: ck_ulong where "CKS_RW_PUBLIC_SESSION = 2"
definition CKU_USER :: ck_ulong where "CKU_USER = 1"

lemmas ck_const_defs [ck_consts] =
  CK_TRUE_def
  CK_FALSE_def
  CK_INVALID_HANDLE_def
  CK_UNAVAILABLE_INFORMATION_def
  CKR_OK_def
  CKR_CANCEL_def
  CKR_ARGUMENTS_BAD_def
  CKR_ATTRIBUTE_TYPE_INVALID_def
  CKR_BUFFER_TOO_SMALL_def
  CKR_CRYPTOKI_NOT_INITIALIZED_def
  CKR_CRYPTOKI_ALREADY_INITIALIZED_def
  CKR_DEVICE_ERROR_def
  CKR_FUNCTION_NOT_SUPPORTED_def
  CKR_GENERAL_ERROR_def
  CKR_MECHANISM_INVALID_def
  CKR_OBJECT_HANDLE_INVALID_def
  CKR_OPERATION_NOT_INITIALIZED_def
  CKR_SESSION_HANDLE_INVALID_def
  CKR_SESSION_CLOSED_def
  CKR_SLOT_ID_INVALID_def
  CKR_TOKEN_NOT_PRESENT_def
  CKO_CERTIFICATE_def
  CKO_PUBLIC_KEY_def
  CKO_PRIVATE_KEY_def
  CKC_X_509_def
  CKK_EC_EDWARDS_def
  CKM_EDDSA_def
  CKA_CLASS_def
  CKA_TOKEN_def
  CKA_PRIVATE_def
  CKA_LABEL_def
  CKA_VALUE_def
  CKA_CERTIFICATE_TYPE_def
  CKA_ISSUER_def
  CKA_SERIAL_NUMBER_def
  CKA_KEY_TYPE_def
  CKA_SUBJECT_def
  CKA_ID_def
  CKA_SIGN_def
  CKA_VERIFY_def
  CKA_EC_PARAMS_def
  CKA_EC_POINT_def
  CKA_ALWAYS_AUTHENTICATE_def
  CKF_SERIAL_SESSION_def
  CKF_RW_SESSION_def
  CKF_TOKEN_INITIALIZED_def
  CKF_LOGIN_REQUIRED_def
  CKF_SIGN_def
  CKF_VERIFY_def
  CKF_HW_SLOT_def
  CKF_TOKEN_PRESENT_def
  CKF_REMOVABLE_DEVICE_def
  CKS_RO_PUBLIC_SESSION_def
  CKS_RW_PUBLIC_SESSION_def
  CKU_USER_def

section \<open>Structures\<close>

record ck_version =
  major :: byte
  minor :: byte

record ck_info =
  ci_cryptoki_version :: ck_version
  ci_manufacturer_id :: bytes
  ci_flags :: ck_ulong
  ci_library_description :: bytes
  ci_library_version :: ck_version

record ck_slot_info =
  sli_slot_description :: bytes
  sli_manufacturer_id :: bytes
  sli_flags :: ck_ulong
  sli_hardware_version :: ck_version
  sli_firmware_version :: ck_version

record ck_token_info =
  ti_label :: bytes
  ti_manufacturer_id :: bytes
  ti_model :: bytes
  ti_serial_number :: bytes
  ti_flags :: ck_ulong
  ti_max_session_count :: ck_ulong
  ti_session_count :: ck_ulong
  ti_max_rw_session_count :: ck_ulong
  ti_rw_session_count :: ck_ulong
  ti_max_pin_len :: ck_ulong
  ti_min_pin_len :: ck_ulong
  ti_total_public_memory :: ck_ulong
  ti_free_public_memory :: ck_ulong
  ti_total_private_memory :: ck_ulong
  ti_free_private_memory :: ck_ulong
  ti_hardware_version :: ck_version
  ti_firmware_version :: ck_version
  ti_utc_time :: bytes

record ck_mechanism_info =
  mi_min_key_size :: ck_ulong
  mi_max_key_size :: ck_ulong
  mi_flags :: ck_ulong

record ck_session_info =
  sei_slot_id :: ck_ulong
  sei_state :: ck_ulong
  sei_flags :: ck_ulong
  sei_device_error :: ck_ulong

record ck_attribute =
  attr_type :: ck_ulong
  p_value :: "bytes option"
  value_len :: ck_ulong

text \<open>The mechanism parameter is never read.\<close>

record ck_mechanism =
  mechanism :: ck_ulong

section \<open>Fixed-size fields\<close>

definition pad_str :: "nat \<Rightarrow> string \<Rightarrow> bytes" where
  "pad_str n s =
     (let bytes = as_bytes s; len = min (length bytes) n
      in take len bytes @ replicate (n - len) 0x20)"

lemma length_pad_str [simp]: "length (pad_str n s) = n"
  by (simp add: pad_str_def Let_def)

text \<open>
  \<open>to_ne_bytes\<close> and the read of a \<open>CK_ULONG\<close> through a pointer, on a little-endian target.
\<close>

definition u64_to_ne_bytes :: "u64 \<Rightarrow> bytes" where
  "u64_to_ne_bytes w = map (\<lambda>i. ucast (drop_bit (8 * i) w)) [0..<8]"

definition u64_from_ne_bytes :: "bytes \<Rightarrow> u64" where
  "u64_from_ne_bytes bs = foldr (\<lambda>b w. push_bit 8 w OR ucast b) (take 8 bs) 0"

lemma length_u64_to_ne_bytes [simp]: "length (u64_to_ne_bytes w) = 8"
  by (simp add: u64_to_ne_bytes_def)

lemma foldr_ne_bytes:
  "foldr (\<lambda>b w. push_bit 8 w OR ucast b) (map (\<lambda>i. ucast (drop_bit (8 * i) w) :: byte) [0..<k]) 0 =
     take_bit (8 * k) (w :: u64)"
proof (induction k arbitrary: w)
  case (Suc k)
  have "map (\<lambda>i. ucast (drop_bit (8 * i) w) :: byte) [0..<Suc k] =
      ucast w # map (\<lambda>i. ucast (drop_bit (8 * i) (drop_bit 8 w))) [0..<k]"
    by (simp add: upt_conv_Cons add.commute del: upt_Suc flip: map_Suc_upt)
  moreover have "push_bit 8 (take_bit (8 * k) (drop_bit 8 w)) OR ucast (ucast w :: byte) =
      take_bit (8 * Suc k) w"
    by (rule bit_word_eqI) (auto simp: bit_simps)
  ultimately show ?case using Suc.IH [of "drop_bit 8 w"] by simp
qed simp

lemma u64_ne_roundtrip [simp]: "u64_from_ne_bytes (u64_to_ne_bytes w @ s) = w"
proof -
  have "take_bit (8 * 8) w = w"
    by (rule bit_word_eqI) (simp add: bit_simps)
  then show ?thesis using foldr_ne_bytes [of w 8]
    by (simp add: u64_from_ne_bytes_def u64_to_ne_bytes_def del: upt_Suc)
qed

end
