(* ===== verification/Der.thy ===== *)
theory Der
  imports Prelude
begin

text \<open>
  The self-signed certificate of an Ed25519 identity: the DER encoder inside
  \<open>create_self_signed_cert\<close> (crates/pkcs11-gpg/src/module.rs) and, to say what it writes, a
  reader of DER elements.
\<close>

section \<open>Encoder\<close>

definition der_len :: "nat \<Rightarrow> bytes" where
  "der_len len =
     (if len < 128 then [of_nat len]
      else if len < 256 then [0x81, of_nat len]
      else [0x82, of_nat (len div 256), of_nat len])"

definition der_tag :: "byte \<Rightarrow> bytes \<Rightarrow> bytes" where
  "der_tag tag contents = [tag] @ der_len (length contents) @ contents"

definition der_seq :: "bytes list \<Rightarrow> bytes" where
  "der_seq parts = der_tag 0x30 (concat parts)"

definition ed25519_oid :: bytes where "ed25519_oid = [0x06, 0x03, 0x2B, 0x65, 0x70]"
definition cn_oid :: bytes where "cn_oid = [0x06, 0x03, 0x55, 0x04, 0x03]"

definition cert_name :: "string \<Rightarrow> bytes" where
  "cert_name label =
     (let cn_value = der_tag 0x0C (as_bytes label);
          cn_attr = der_seq [cn_oid, cn_value];
          cn_set = der_tag 0x31 cn_attr
      in der_seq [cn_set])"

definition cert_validity :: bytes where
  "cert_validity =
     der_seq [der_tag 0x17 (as_bytes ''700101000000Z''), der_tag 0x17 (as_bytes ''491231235959Z'')]"

definition cert_spki :: "bytes \<Rightarrow> bytes" where
  "cert_spki public_key = der_seq [der_seq [ed25519_oid], der_tag 0x03 (0 # public_key)]"

definition tbs_cert :: "bytes \<Rightarrow> string \<Rightarrow> bytes" where
  "tbs_cert public_key label =
     (let version = der_tag 0xA0 (der_tag 0x02 [2]); serial = der_tag 0x02 [1]; name = cert_name label
      in der_seq [version, serial, der_seq [ed25519_oid], name, cert_validity, name, cert_spki public_key])"

definition create_self_signed_cert :: "bytes \<Rightarrow> string \<Rightarrow> bytes" where
  "create_self_signed_cert public_key label =
     der_seq [tbs_cert public_key label, der_seq [ed25519_oid], der_tag 0x03 (0 # replicate 64 0)]"

section \<open>Reader\<close>

definition read_der_len :: "bytes \<Rightarrow> (nat \<times> bytes) option" where
  "read_der_len s =
     (case s of
        [] \<Rightarrow> None
      | a # s1 \<Rightarrow>
          if a < 0x80 then Some (unat a, s1)
          else if a = 0x81 then
            (case s1 of b # s2 \<Rightarrow> if b < 0x80 then None else Some (unat b, s2) | _ \<Rightarrow> None)
          else if a = 0x82 then
            (case s1 of b # c # s2 \<Rightarrow> if b = 0 then None else Some (unat b * 256 + unat c, s2) | _ \<Rightarrow> None)
          else None)"

text \<open>One element: tag, contents, the rest. Only the shortest form of a length is accepted.\<close>

definition read_der :: "bytes \<Rightarrow> (byte \<times> bytes \<times> bytes) option" where
  "read_der s =
     (case s of
        [] \<Rightarrow> None
      | tag # s1 \<Rightarrow>
          (case read_der_len s1 of
             None \<Rightarrow> None
           | Some (n, s2) \<Rightarrow>
               map_option (\<lambda>(contents, rest). (tag, contents, rest)) (read_exact n s2)))"

lemma read_der_len_der_len:
  assumes "n < 65536" shows "read_der_len (der_len n @ s) = Some (n, s)"
proof -
  have byte: "m < 256 \<Longrightarrow> unat (of_nat m :: byte) = m" for m
    by (simp add: unat_of_nat)
  consider "n < 128" | "128 \<le> n" "n < 256" | "256 \<le> n" by linarith
  then show ?thesis
  proof cases
    case 1
    then have "(of_nat n :: byte) < 0x80" by (simp add: word_less_nat_alt byte)
    with 1 show ?thesis by (simp add: der_len_def read_der_len_def byte)
  next
    case 2
    then have "\<not> (of_nat n :: byte) < 0x80" by (simp add: word_less_nat_alt byte)
    with 2 show ?thesis by (simp add: der_len_def read_der_len_def byte)
  next
    case 3
    have hi: "n div 256 < 256" using assms by linarith
    have "unat (of_nat (n div 256) :: byte) \<noteq> 0" using 3 by (simp add: byte [OF hi] div_eq_0_iff)
    then have "(of_nat (n div 256) :: byte) \<noteq> 0" by (metis unsigned_0)
    moreover have "unat (of_nat n :: byte) = n mod 256" by (simp add: unat_of_nat)
    ultimately show ?thesis using 3 by (simp add: der_len_def read_der_len_def byte [OF hi])
  qed
qed

lemma read_der_tag [codec_simps]:
  "length c < 65536 \<Longrightarrow> read_der (der_tag tag c @ s) = Some (tag, c, s)"
  by (simp add: read_der_def der_tag_def read_der_len_der_len)

lemma read_der_tag_end [codec_simps]:
  "length c < 65536 \<Longrightarrow> read_der (der_tag tag c) = Some (tag, c, [])"
  using read_der_tag [of c tag "[]"] by simp

lemma length_der_len: "n < 65536 \<Longrightarrow> length (der_len n) \<le> 3"
  by (simp add: der_len_def)

lemma length_der_tag: "length (der_tag tag c) \<le> length c + 4"
  by (simp add: der_tag_def der_len_def)

lemma length_der_seq: "length (der_seq parts) \<le> sum_list (map length parts) + 4"
  unfolding der_seq_def using length_der_tag [of "0x30" "concat parts"] by (simp add: length_concat)

lemma read_der_seq [codec_simps]:
  "sum_list (map length parts) < 65536 \<Longrightarrow> read_der (der_seq parts @ s) = Some (0x30, concat parts, s)"
  by (simp add: der_seq_def codec_simps length_concat)

lemma cert_name_length: "length (cert_name label) \<le> length label + 25"
proof -
  have 1: "length (der_tag 0x0C (as_bytes label)) \<le> length label + 4"
    using length_der_tag [of "0x0C" "as_bytes label"] by simp
  have 2: "length (der_seq [cn_oid, der_tag 0x0C (as_bytes label)]) \<le> length label + 13"
    using length_der_seq [of "[cn_oid, der_tag 0x0C (as_bytes label)]"] 1 by (simp add: cn_oid_def)
  have 3: "length (der_tag 0x31 (der_seq [cn_oid, der_tag 0x0C (as_bytes label)])) \<le> length label + 17"
    using length_der_tag [of "0x31" "der_seq [cn_oid, der_tag 0x0C (as_bytes label)]"] 2 by simp
  show ?thesis
    using length_der_seq [of "[der_tag 0x31 (der_seq [cn_oid, der_tag 0x0C (as_bytes label)])]"] 3
    by (simp add: cert_name_def Let_def)
qed

lemma read_cert_name:
  assumes "length label < 30000"
  shows "read_der (cert_name label @ s) =
      Some (0x30, der_tag 0x31 (der_seq [cn_oid, der_tag 0x0C (as_bytes label)]), s)"
proof -
  have "length (der_tag 0x31 (der_seq [cn_oid, der_tag 0x0C (as_bytes label)])) \<le> length label + 25"
    using cert_name_length [of label] by (simp add: cert_name_def Let_def der_seq_def der_tag_def)
  then show ?thesis using assms by (simp add: cert_name_def Let_def codec_simps)
qed

section \<open>Reading a certificate back\<close>

text \<open>Exactly \<open>n\<close> elements, one after the other, with nothing left.\<close>

fun read_elems :: "nat \<Rightarrow> bytes \<Rightarrow> (byte \<times> bytes) list option" where
  "read_elems 0 s = (if s = [] then Some [] else None)"
| "read_elems (Suc n) s =
     (case read_der s of
        None \<Rightarrow> None
      | Some (tag, c, rest) \<Rightarrow> map_option ((#) (tag, c)) (read_elems n rest))"

record certificate =
  crt_version :: "byte \<times> bytes"
  crt_serial :: "byte \<times> bytes"
  crt_tbs_algorithm :: "byte \<times> bytes"
  crt_issuer :: "byte \<times> bytes"
  crt_subject :: "byte \<times> bytes"
  crt_key_algorithm :: "byte \<times> bytes"
  crt_key :: "byte \<times> bytes"
  crt_algorithm :: "byte \<times> bytes"
  crt_signature :: "byte \<times> bytes"

definition parse_certificate :: "bytes \<Rightarrow> certificate option" where
  "parse_certificate s =
     (case read_elems 1 s of
        Some [(_, body)] \<Rightarrow>
          (case read_elems 3 body of
             Some [(_, tbs), alg, sig] \<Rightarrow>
               (case read_elems 7 tbs of
                  Some [version, serial, tbs_alg, issuer, _, subject, (_, spki)] \<Rightarrow>
                    (case read_elems 2 spki of
                       Some [key_alg, key] \<Rightarrow>
                         Some \<lparr>crt_version = version, crt_serial = serial, crt_tbs_algorithm = tbs_alg,
                           crt_issuer = issuer, crt_subject = subject, crt_key_algorithm = key_alg,
                           crt_key = key, crt_algorithm = alg, crt_signature = sig\<rparr>
                     | _ \<Rightarrow> None)
                | _ \<Rightarrow> None)
           | _ \<Rightarrow> None)
      | _ \<Rightarrow> None)"

lemma read_elems_tag [codec_simps]:
  "length c < 65536 \<Longrightarrow>
     read_elems (Suc n) (der_tag tag c @ s) = map_option ((#) (tag, c)) (read_elems n s)"
  "length c < 65536 \<Longrightarrow>
     read_elems (Suc n) (der_tag tag c) = map_option ((#) (tag, c)) (read_elems n [])"
  by (simp_all add: codec_simps)

lemma read_elems_seq [codec_simps]:
  "sum_list (map length parts) < 65536 \<Longrightarrow>
     read_elems (Suc n) (der_seq parts @ s) = map_option ((#) (0x30, concat parts)) (read_elems n s)"
  "sum_list (map length parts) < 65536 \<Longrightarrow>
     read_elems (Suc n) (der_seq parts) = map_option ((#) (0x30, concat parts)) (read_elems n [])"
  unfolding der_seq_def by (simp_all add: codec_simps length_concat)

text \<open>The attribute inside a name: one set with one sequence of the CN identifier and the text.\<close>

definition name_attribute :: "string \<Rightarrow> bytes" where
  "name_attribute label = der_tag 0x31 (der_seq [cn_oid, der_tag 0x0C (as_bytes label)])"

lemma cert_name_attribute: "cert_name label = der_tag 0x30 (name_attribute label)"
  by (simp add: cert_name_def name_attribute_def der_seq_def Let_def)

lemma name_attribute_length: "length (name_attribute label) \<le> length label + 25"
  using cert_name_length [of label] by (simp add: cert_name_attribute der_tag_def)

lemma der_seq_small: "length (der_seq [ed25519_oid]) = 7"
  by (simp add: der_seq_def der_tag_def der_len_def ed25519_oid_def)

lemma cert_validity_length: "length cert_validity = 32"
  by (simp add: cert_validity_def der_seq_def der_tag_def der_len_def)

lemma cert_spki_length: "length pk = 32 \<Longrightarrow> length (cert_spki pk) = 44"
  by (simp add: cert_spki_def der_seq_def der_tag_def der_len_def ed25519_oid_def)

lemma tbs_cert_length:
  assumes "length pk = 32" shows "length (tbs_cert pk label) \<le> 2 * length label + 160"
proof -
  have "length (der_tag 0xA0 (der_tag 0x02 [2])) = 5" "length (der_tag 0x02 [1]) = 3"
    by (simp_all add: der_tag_def der_len_def)
  then show ?thesis
    using length_der_seq [of "[der_tag 0xA0 (der_tag 0x02 [2]), der_tag 0x02 [1], der_seq [ed25519_oid],
      cert_name label, cert_validity, cert_name label, cert_spki pk]"]
      cert_name_length [of label] cert_spki_length [OF assms]
    by (simp add: tbs_cert_def Let_def der_seq_small cert_validity_length)
qed

lemma cert_parts:
  assumes "length pk = 32" and "length label < 30000"
  shows "read_elems 1 (create_self_signed_cert pk label) = Some [(0x30,
      tbs_cert pk label @ der_seq [ed25519_oid] @ der_tag 0x03 (0 # replicate 64 0))]"
    and "read_elems 3 (tbs_cert pk label @ der_seq [ed25519_oid] @ der_tag 0x03 (0 # replicate 64 0)) =
      Some [(0x30, concat [der_tag 0xA0 (der_tag 0x02 [2]), der_tag 0x02 [1], der_seq [ed25519_oid],
        cert_name label, cert_validity, cert_name label, cert_spki pk]), (0x30, ed25519_oid),
        (0x03, 0 # replicate 64 0)]"
    and "read_elems 7 (concat [der_tag 0xA0 (der_tag 0x02 [2]), der_tag 0x02 [1], der_seq [ed25519_oid],
        cert_name label, cert_validity, cert_name label, cert_spki pk]) =
      Some [(0xA0, der_tag 0x02 [2]), (0x02, [1]), (0x30, ed25519_oid), (0x30, name_attribute label),
        (0x30, der_tag 0x17 (as_bytes ''700101000000Z'') @ der_tag 0x17 (as_bytes ''491231235959Z'')),
        (0x30, name_attribute label), (0x30, der_seq [ed25519_oid] @ der_tag 0x03 (0 # pk))]"
    and "read_elems 2 (der_seq [ed25519_oid] @ der_tag 0x03 (0 # pk)) =
      Some [(0x30, ed25519_oid), (0x03, 0 # pk)]"
proof -
  note lens = tbs_cert_length [OF assms(1), of label] cert_name_length [of label]
    cert_spki_length [OF assms(1)] der_seq_small cert_validity_length name_attribute_length [of label]
  have sig: "length (der_tag 0x03 (0 # replicate 64 (0 :: byte))) = 67"
    by (simp add: der_tag_def der_len_def)
  show "read_elems 1 (create_self_signed_cert pk label) = Some [(0x30,
      tbs_cert pk label @ der_seq [ed25519_oid] @ der_tag 0x03 (0 # replicate 64 0))]"
    using read_elems_seq(2) [of "[tbs_cert pk label, der_seq [ed25519_oid], der_tag 0x03 (0 # replicate 64 0)]" 0]
      lens sig assms(2) by (simp add: create_self_signed_cert_def)
  have v: "length (der_tag 0xA0 (der_tag 0x02 [2])) = 5" "length (der_tag 0x02 [2]) = 3"
    "length (der_tag 0x02 [1]) = 3"
    by (simp_all add: der_tag_def der_len_def)
  show "read_elems 3 (tbs_cert pk label @ der_seq [ed25519_oid] @ der_tag 0x03 (0 # replicate 64 0)) =
      Some [(0x30, concat [der_tag 0xA0 (der_tag 0x02 [2]), der_tag 0x02 [1], der_seq [ed25519_oid],
        cert_name label, cert_validity, cert_name label, cert_spki pk]), (0x30, ed25519_oid),
        (0x03, 0 # replicate 64 0)]"
    using lens assms(2) v unfolding tbs_cert_def Let_def numeral_3_eq_3
    by (simp add: read_elems_seq read_elems_tag ed25519_oid_def del: read_elems.simps(2))
  have seq_tag: "cert_validity =
      der_tag 0x30 (der_tag 0x17 (as_bytes ''700101000000Z'') @ der_tag 0x17 (as_bytes ''491231235959Z''))"
    "cert_spki pk = der_tag 0x30 (der_seq [ed25519_oid] @ der_tag 0x03 (0 # pk))"
    by (simp_all add: cert_validity_def cert_spki_def der_seq_def)
  have seven: "(7 :: nat) = Suc (Suc (Suc (Suc (Suc (Suc (Suc 0))))))" by simp
  have "length (der_tag 0x17 (as_bytes ''700101000000Z'')) = 15"
    "length (der_tag 0x17 (as_bytes ''491231235959Z'')) = 15" "length (der_tag 0x03 (0 # pk)) = 35"
    using assms(1) by (simp_all add: der_tag_def der_len_def)
  then show "read_elems 7 (concat [der_tag 0xA0 (der_tag 0x02 [2]), der_tag 0x02 [1], der_seq [ed25519_oid],
        cert_name label, cert_validity, cert_name label, cert_spki pk]) =
      Some [(0xA0, der_tag 0x02 [2]), (0x02, [1]), (0x30, ed25519_oid), (0x30, name_attribute label),
        (0x30, der_tag 0x17 (as_bytes ''700101000000Z'') @ der_tag 0x17 (as_bytes ''491231235959Z'')),
        (0x30, name_attribute label), (0x30, der_seq [ed25519_oid] @ der_tag 0x03 (0 # pk))]"
    using lens assms v unfolding seven
    by (simp add: read_elems_seq read_elems_tag seq_tag cert_name_attribute ed25519_oid_def
        del: read_elems.simps(2))
  show "read_elems 2 (der_seq [ed25519_oid] @ der_tag 0x03 (0 # pk)) =
      Some [(0x30, ed25519_oid), (0x03, 0 # pk)]"
    using assms(1) unfolding numeral_2_eq_2
    by (simp add: read_elems_seq read_elems_tag ed25519_oid_def del: read_elems.simps(2))
qed

section \<open>Properties\<close>

text \<open>
  C34. The certificate made for an identity is well-formed DER: a reader that accepts only the
  shortest lengths and no trailing bytes gets back a version 3, serial 1 certificate whose
  subject and issuer carry the label, whose key is the identity's 32-byte key and whose three
  algorithms are Ed25519, for every label below 30000 bytes.
\<close>

theorem certificate_wellformed:
  assumes "length pk = 32" and "length label < 30000"
  shows "parse_certificate (create_self_signed_cert pk label) = Some
    \<lparr>crt_version = (0xA0, der_tag 0x02 [2]), crt_serial = (0x02, [1]), crt_tbs_algorithm = (0x30, ed25519_oid),
     crt_issuer = (0x30, name_attribute label), crt_subject = (0x30, name_attribute label),
     crt_key_algorithm = (0x30, ed25519_oid), crt_key = (0x03, 0 # pk), crt_algorithm = (0x30, ed25519_oid),
     crt_signature = (0x03, 0 # replicate 64 0)\<rparr>"
  unfolding parse_certificate_def cert_parts(1) [OF assms] option.case list.case prod.case
    cert_parts(2) [OF assms] cert_parts(3) [OF assms] cert_parts(4) [OF assms] by (rule refl)

theorem certificate_wellformed_witness:
  "map_option crt_key (parse_certificate (create_self_signed_cert (replicate 32 7) ''alice / certification'')) =
     Some (0x03, 0 # replicate 32 7)"
  using certificate_wellformed [of "replicate 32 7" "''alice / certification''"] by simp

end
