(* ===== verification/Pkcs11_Module.thy ===== *)
theory Pkcs11_Module
  imports Pkcs11_Types Local_Client Der
begin

text \<open>
  The PKCS#11 module that gpg's scdaemon loads (crates/pkcs11-gpg/src/module.rs, lib.rs). The
  state behind the mutex is a \<open>p11_module\<close>, \<open>None\<close> before \<open>C_Initialize\<close> and after
  \<open>C_Finalize\<close>. Most functions lock it twice, first in \<open>is_initialized\<close> and again in
  \<open>with_state\<close>: their definitions take what each of the two locks sees, and a single-threaded
  call is the case where both are the same. \<open>None\<close> as a result is the panic of \<open>unwrap\<close>.
\<close>

section \<open>State\<close>

record p11_identity =
  pi_public_key :: bytes
  pi_cert_der :: bytes
  pi_label :: string
  pi_index :: nat

record sign_op =
  so_key_handle :: ck_ulong
  so_mechanism :: ck_ulong

record find_op =
  fo_handles :: "ck_ulong list"
  fo_position :: nat

record p11_state =
  p11_initialized :: bool
  p11_socket_path :: string
  p11_identities :: "p11_identity list"
  p11_session_open :: bool
  p11_session_handle :: ck_ulong
  p11_sign_op :: "sign_op option"
  p11_find_op :: "find_op option"

type_synonym p11_module = "p11_state option"

datatype handle_type = PrivateKey | PublicKey | Certificate

definition is_initialized :: "p11_module \<Rightarrow> bool" where
  "is_initialized m = (case m of None \<Rightarrow> False | Some s \<Rightarrow> p11_initialized s)"

definition with_state :: "p11_module \<Rightarrow> (p11_state \<Rightarrow> 'r \<times> p11_state) \<Rightarrow> ('r \<times> p11_module) option" where
  "with_state m f =
     (case m of None \<Rightarrow> None | Some s \<Rightarrow> Some (case f s of (r, s') \<Rightarrow> (r, Some s')))"

definition handle_to_identity_index :: "ck_ulong \<Rightarrow> (nat \<times> handle_type) option" where
  "handle_to_identity_index handle =
     (if handle = 0 then None
      else let h = unat handle - 1; index = h div 3 in
           Some (index, if h mod 3 = 0 then PrivateKey else if h mod 3 = 1 then PublicKey else Certificate))"

definition session_valid :: "p11_state \<Rightarrow> ck_ulong \<Rightarrow> bool" where
  "session_valid s session \<longleftrightarrow> p11_session_open s \<and> session = p11_session_handle s"

section \<open>Initialisation\<close>

text \<open>
  What \<open>C_Initialize\<close> sees of its process: the environment variables, the peer behind the
  socket path, which files can be created. What it does to it: files and one shell process.
  Its diagnostic log and the canary file have no effect on the module and are left out.
\<close>

record p11_env =
  pe_text :: json_text
  pe_base64 :: base64_lib
  pe_KM_PKCS11_SOCKET :: "string option"
  pe_GNUPGHOME :: "string option"
  pe_HOME :: "string option"
  pe_peer :: "string \<Rightarrow> (bytes \<times> bool) option"
  pe_creatable :: "string \<Rightarrow> bool"

datatype p11_effect = WriteFile string bytes | SpawnShell string

definition DEFAULT_SOCKET :: string where "DEFAULT_SOCKET = ''/tmp/keymaster-avatar.sock''"

text \<open>One identity of the avatar; \<open>i\<close> is its position in the answer, before any is dropped.\<close>

definition import_identity :: "base64_lib \<Rightarrow> nat \<times> gpg_identity \<Rightarrow> p11_identity option" where
  "import_identity B = (\<lambda>(i, ident).
     if id_key_type ident \<noteq> ''ed25519'' then None
     else
       (case b64_decode B (id_public_key ident) of
          None \<Rightarrow> None
        | Some public_key \<Rightarrow>
            if length public_key \<noteq> 32 then None
            else Some \<lparr>pi_public_key = public_key,
                   pi_cert_der = create_self_signed_cert public_key (id_label ident),
                   pi_label = id_label ident, pi_index = i\<rparr>))"

definition import_identities :: "base64_lib \<Rightarrow> gpg_identity list \<Rightarrow> p11_identity list" where
  "import_identities B raw = List.map_filter (import_identity B) (enumerate 0 raw)"

definition debug_cert_files :: "p11_env \<Rightarrow> p11_identity list \<Rightarrow> p11_effect list" where
  "debug_cert_files E ids =
     (case pe_GNUPGHOME E of
        None \<Rightarrow> []
      | Some h \<Rightarrow> List.map_filter (\<lambda>ident.
          let file = join_file h (''debug-cert-'' @ nat_to_dec (pi_index ident) @ ''.der'') in
          if pe_creatable E file then Some (WriteFile file (pi_cert_der ident)) else None) ids)"

definition quoted :: "string \<Rightarrow> string" where
  "quoted s = [CHR 0x27] @ s @ [CHR 0x27]"

definition import_script :: "string \<Rightarrow> string \<Rightarrow> string" where
  "import_script homedir cert =
     ''sleep 3; gpg --homedir '' @ quoted homedir @ '' --no-autostart --batch --import '' @ quoted cert @
     '' 2>/dev/null; FPR=$(gpg --homedir '' @ quoted homedir @
     '' --no-autostart --batch --with-colons --list-keys 2>/dev/null | grep '' @ quoted ''^fpr'' @
     '' | head -1 | cut -d: -f10); [ -n '' @ [CHR 0x22] @ ''$FPR'' @ [CHR 0x22] @ '' ] && echo '' @
     [CHR 0x22] @ ''$FPR:6:'' @ [CHR 0x22] @ '' | gpg --homedir '' @ quoted homedir @
     '' --no-autostart --batch --import-ownertrust 2>/dev/null; exit 0''"

definition import_gpg_cert :: "p11_env \<Rightarrow> local_client \<Rightarrow> p11_effect list \<times> local_client" where
  "import_gpg_cert E client =
     (case lc_get_public_cert (pe_text E) client of
        (Inl _, client) \<Rightarrow> ([], client)
      | (Inr cert_armor, client) \<Rightarrow>
          (case (case pe_GNUPGHOME E of
                   Some h \<Rightarrow> Some h
                 | None \<Rightarrow> map_option (\<lambda>home. join_file home ''.gnupg'') (pe_HOME E)) of
             None \<Rightarrow> ([], client)
           | Some gnupghome \<Rightarrow>
               let cert_path = join_file gnupghome ''keymaster-public.asc'' in
               if \<not> pe_creatable E cert_path then ([], client)
               else ([WriteFile cert_path (as_bytes cert_armor),
                      SpawnShell (import_script gnupghome cert_path)], client)))"

definition c_initialize :: "p11_env \<Rightarrow> p11_module \<Rightarrow> ck_rv \<times> p11_effect list \<times> p11_module" where
  "c_initialize E m =
     (if is_initialized m then (CKR_CRYPTOKI_ALREADY_INITIALIZED, [], m)
      else
        let socket_path = (case pe_KM_PKCS11_SOCKET E of None \<Rightarrow> DEFAULT_SOCKET | Some p \<Rightarrow> p) in
        (case lc_connect (pe_peer E socket_path) of
           Inl _ \<Rightarrow> (CKR_DEVICE_ERROR, [], m)
         | Inr client \<Rightarrow>
             (case lc_request_identities (pe_text E) client of
                (Inl _, _) \<Rightarrow> (CKR_DEVICE_ERROR, [], m)
              | (Inr raw_identities, client) \<Rightarrow>
                  let identities = import_identities (pe_base64 E) raw_identities;
                      files = debug_cert_files E identities;
                      effects = fst (import_gpg_cert E client)
                  in (CKR_OK, files @ effects,
                      Some \<lparr>p11_initialized = True, p11_socket_path = socket_path,
                        p11_identities = identities, p11_session_open = False,
                        p11_session_handle = CK_INVALID_HANDLE, p11_sign_op = None, p11_find_op = None\<rparr>))))"

definition c_finalize :: "p11_module \<Rightarrow> ck_rv \<times> p11_module" where
  "c_finalize m = (if \<not> is_initialized m then (CKR_CRYPTOKI_NOT_INITIALIZED, m) else (CKR_OK, None))"

section \<open>Information about the module, its slot and its token\<close>

definition c_get_info :: "p11_module \<Rightarrow> ck_info option \<Rightarrow> ck_rv \<times> ck_info option" where
  "c_get_info m info =
     (if \<not> is_initialized m then (CKR_CRYPTOKI_NOT_INITIALIZED, info)
      else if info = None then (CKR_ARGUMENTS_BAD, info)
      else (CKR_OK, Some \<lparr>ci_cryptoki_version = \<lparr>major = 2, minor = 40\<rparr>,
              ci_manufacturer_id = pad_str 32 ''IZ RedToken'', ci_flags = 0,
              ci_library_description = pad_str 32 ''IZ KeyMaster GPG PKCS#11'',
              ci_library_version = \<lparr>major = 0, minor = 1\<rparr>\<rparr>))"

text \<open>
  The two-call convention of a list: a NULL list asks for the length, a short one is refused.
  A write through the pointer goes to the front of the caller's buffer.
\<close>

definition write_buffer :: "'a list \<Rightarrow> 'a list \<Rightarrow> 'a list" where
  "write_buffer xs buf = xs @ drop (length xs) buf"

definition one_element_list ::
    "ck_ulong \<Rightarrow> ck_ulong list option \<Rightarrow> ck_ulong option \<Rightarrow>
      ck_rv \<times> ck_ulong list option \<times> ck_ulong option" where
  "one_element_list x buf cnt =
     (case cnt of
        None \<Rightarrow> (CKR_ARGUMENTS_BAD, buf, cnt)
      | Some n \<Rightarrow>
          (case buf of
             None \<Rightarrow> (CKR_OK, None, Some 1)
           | Some b \<Rightarrow>
               if n < 1 then (CKR_BUFFER_TOO_SMALL, buf, Some 1)
               else (CKR_OK, Some (write_buffer [x] b), Some 1)))"

definition c_get_slot_list ::
    "p11_module \<Rightarrow> ck_ulong list option \<Rightarrow> ck_ulong option \<Rightarrow>
      ck_rv \<times> ck_ulong list option \<times> ck_ulong option" where
  "c_get_slot_list m slot_list cnt =
     (if \<not> is_initialized m then (CKR_CRYPTOKI_NOT_INITIALIZED, slot_list, cnt)
      else one_element_list 0 slot_list cnt)"

definition c_get_slot_info ::
    "p11_module \<Rightarrow> ck_ulong \<Rightarrow> ck_slot_info option \<Rightarrow> ck_rv \<times> ck_slot_info option" where
  "c_get_slot_info m slot_id info =
     (if \<not> is_initialized m then (CKR_CRYPTOKI_NOT_INITIALIZED, info)
      else if slot_id \<noteq> 0 then (CKR_SLOT_ID_INVALID, info)
      else if info = None then (CKR_ARGUMENTS_BAD, info)
      else (CKR_OK, Some \<lparr>sli_slot_description = pad_str 64 ''IZ Avatar GPG'',
              sli_manufacturer_id = pad_str 32 ''IZ RedToken'',
              sli_flags = CKF_TOKEN_PRESENT OR CKF_HW_SLOT,
              sli_hardware_version = \<lparr>major = 0, minor = 1\<rparr>,
              sli_firmware_version = \<lparr>major = 0, minor = 1\<rparr>\<rparr>))"

definition c_get_token_info ::
    "p11_module \<Rightarrow> ck_ulong \<Rightarrow> ck_token_info option \<Rightarrow> ck_rv \<times> ck_token_info option" where
  "c_get_token_info m slot_id info =
     (if \<not> is_initialized m then (CKR_CRYPTOKI_NOT_INITIALIZED, info)
      else if slot_id \<noteq> 0 then (CKR_SLOT_ID_INVALID, info)
      else if info = None then (CKR_ARGUMENTS_BAD, info)
      else (CKR_OK, Some \<lparr>ti_label = pad_str 32 ''IZ KeyMaster GPG'',
              ti_manufacturer_id = pad_str 32 ''IZ RedToken'', ti_model = pad_str 16 ''Avatar'',
              ti_serial_number = pad_str 16 ''0000000000000001'', ti_flags = CKF_TOKEN_INITIALIZED,
              ti_max_session_count = 1, ti_session_count = 0, ti_max_rw_session_count = 1,
              ti_rw_session_count = 0, ti_max_pin_len = 0, ti_min_pin_len = 0,
              ti_total_public_memory = CK_UNAVAILABLE_INFORMATION,
              ti_free_public_memory = CK_UNAVAILABLE_INFORMATION,
              ti_total_private_memory = CK_UNAVAILABLE_INFORMATION,
              ti_free_private_memory = CK_UNAVAILABLE_INFORMATION,
              ti_hardware_version = \<lparr>major = 0, minor = 1\<rparr>,
              ti_firmware_version = \<lparr>major = 0, minor = 1\<rparr>, ti_utc_time = pad_str 16 []\<rparr>))"

definition c_get_mechanism_list ::
    "p11_module \<Rightarrow> ck_ulong \<Rightarrow> ck_ulong list option \<Rightarrow> ck_ulong option \<Rightarrow>
      ck_rv \<times> ck_ulong list option \<times> ck_ulong option" where
  "c_get_mechanism_list m slot_id mechanism_list cnt =
     (if \<not> is_initialized m then (CKR_CRYPTOKI_NOT_INITIALIZED, mechanism_list, cnt)
      else if slot_id \<noteq> 0 then (CKR_SLOT_ID_INVALID, mechanism_list, cnt)
      else one_element_list CKM_EDDSA mechanism_list cnt)"

definition c_get_mechanism_info ::
    "p11_module \<Rightarrow> ck_ulong \<Rightarrow> ck_ulong \<Rightarrow> ck_mechanism_info option \<Rightarrow> ck_rv \<times> ck_mechanism_info option" where
  "c_get_mechanism_info m slot_id mech info =
     (if \<not> is_initialized m then (CKR_CRYPTOKI_NOT_INITIALIZED, info)
      else if slot_id \<noteq> 0 then (CKR_SLOT_ID_INVALID, info)
      else if info = None then (CKR_ARGUMENTS_BAD, info)
      else if mech = CKM_EDDSA then
        (CKR_OK, Some \<lparr>mi_min_key_size = 256, mi_max_key_size = 256, mi_flags = CKF_SIGN OR CKF_VERIFY\<rparr>)
      else (CKR_MECHANISM_INVALID, info))"

section \<open>Sessions\<close>

definition c_open_session ::
    "p11_module \<Rightarrow> p11_module \<Rightarrow> ck_ulong \<Rightarrow> ck_ulong \<Rightarrow> ck_ulong option \<Rightarrow>
      ((ck_rv \<times> ck_ulong option) \<times> p11_module) option" where
  "c_open_session m m' slot_id flags session =
     (if \<not> is_initialized m then Some ((CKR_CRYPTOKI_NOT_INITIALIZED, session), m')
      else if slot_id \<noteq> 0 then Some ((CKR_SLOT_ID_INVALID, session), m')
      else if session = None then Some ((CKR_ARGUMENTS_BAD, session), m')
      else if flags AND CKF_SERIAL_SESSION = 0 then Some ((CKR_GENERAL_ERROR, session), m')
      else with_state m' (\<lambda>s.
        ((CKR_OK, Some 1), s\<lparr>p11_session_open := True, p11_session_handle := 1\<rparr>)))"

definition closed :: "p11_state \<Rightarrow> p11_state" where
  "closed s = s\<lparr>p11_session_open := False, p11_session_handle := CK_INVALID_HANDLE,
                p11_sign_op := None, p11_find_op := None\<rparr>"

definition c_close_session :: "p11_module \<Rightarrow> p11_module \<Rightarrow> ck_ulong \<Rightarrow> (ck_rv \<times> p11_module) option" where
  "c_close_session m m' session =
     (if \<not> is_initialized m then Some (CKR_CRYPTOKI_NOT_INITIALIZED, m')
      else with_state m' (\<lambda>s.
        if \<not> session_valid s session then (CKR_SESSION_HANDLE_INVALID, s) else (CKR_OK, closed s)))"

definition c_close_all_sessions :: "p11_module \<Rightarrow> p11_module \<Rightarrow> ck_ulong \<Rightarrow> (ck_rv \<times> p11_module) option" where
  "c_close_all_sessions m m' slot_id =
     (if \<not> is_initialized m then Some (CKR_CRYPTOKI_NOT_INITIALIZED, m')
      else if slot_id \<noteq> 0 then Some (CKR_SLOT_ID_INVALID, m')
      else with_state m' (\<lambda>s. (CKR_OK, closed s)))"

definition c_get_session_info ::
    "p11_module \<Rightarrow> p11_module \<Rightarrow> ck_ulong \<Rightarrow> ck_session_info option \<Rightarrow>
      ((ck_rv \<times> ck_session_info option) \<times> p11_module) option" where
  "c_get_session_info m m' session info =
     (if \<not> is_initialized m then Some ((CKR_CRYPTOKI_NOT_INITIALIZED, info), m')
      else if info = None then Some ((CKR_ARGUMENTS_BAD, info), m')
      else with_state m' (\<lambda>s.
        if \<not> session_valid s session then ((CKR_SESSION_HANDLE_INVALID, info), s)
        else ((CKR_OK, Some \<lparr>sei_slot_id = 0, sei_state = CKS_RW_PUBLIC_SESSION,
                 sei_flags = CKF_SERIAL_SESSION OR CKF_RW_SESSION, sei_device_error = 0\<rparr>), s)))"

definition c_login :: "p11_module \<Rightarrow> p11_module \<Rightarrow> ck_ulong \<Rightarrow> (ck_rv \<times> p11_module) option" where
  "c_login m m' session =
     (if \<not> is_initialized m then Some (CKR_CRYPTOKI_NOT_INITIALIZED, m')
      else with_state m' (\<lambda>s.
        (if \<not> session_valid s session then CKR_SESSION_HANDLE_INVALID else CKR_OK, s)))"

definition c_logout :: "p11_module \<Rightarrow> p11_module \<Rightarrow> ck_ulong \<Rightarrow> (ck_rv \<times> p11_module) option" where
  "c_logout m m' session =
     (if \<not> is_initialized m then Some (CKR_CRYPTOKI_NOT_INITIALIZED, m')
      else with_state m' (\<lambda>s.
        (if \<not> session_valid s session then CKR_SESSION_HANDLE_INVALID else CKR_OK, s)))"

section \<open>Finding objects\<close>

text \<open>
  The class filter of a template: the last class attribute of the right size. A template is the
  attributes the caller's \<open>count\<close> announces.
\<close>

definition class_filter :: "ck_attribute list \<Rightarrow> ck_ulong option" where
  "class_filter attrs = fold (\<lambda>attr want.
     (case p_value attr of
        Some v \<Rightarrow> if attr_type attr = CKA_CLASS \<and> value_len attr = 8 then Some (u64_from_ne_bytes v) else want
      | None \<Rightarrow> want)) attrs None"

definition priv_handle :: "nat \<Rightarrow> ck_ulong" where "priv_handle i = of_nat (i * 3 + 1)"
definition pub_handle :: "nat \<Rightarrow> ck_ulong" where "pub_handle i = of_nat (i * 3 + 2)"
definition cert_handle :: "nat \<Rightarrow> ck_ulong" where "cert_handle i = of_nat (i * 3 + 3)"

definition identity_handles :: "ck_ulong option \<Rightarrow> nat \<Rightarrow> ck_ulong list" where
  "identity_handles want i =
     (case want of
        None \<Rightarrow> [priv_handle i, pub_handle i, cert_handle i]
      | Some c \<Rightarrow>
          if c = CKO_PRIVATE_KEY then [priv_handle i]
          else if c = CKO_PUBLIC_KEY then [pub_handle i]
          else if c = CKO_CERTIFICATE then [cert_handle i]
          else [])"

definition matching_handles :: "ck_ulong option \<Rightarrow> nat \<Rightarrow> ck_ulong list" where
  "matching_handles want n = concat (map (identity_handles want) [0..<n])"

definition c_find_objects_init ::
    "p11_module \<Rightarrow> p11_module \<Rightarrow> ck_ulong \<Rightarrow> ck_attribute list option \<Rightarrow> ck_ulong \<Rightarrow>
      (ck_rv \<times> p11_module) option" where
  "c_find_objects_init m m' session template cnt =
     (if \<not> is_initialized m then Some (CKR_CRYPTOKI_NOT_INITIALIZED, m')
      else with_state m' (\<lambda>s.
        if \<not> session_valid s session then (CKR_SESSION_HANDLE_INVALID, s)
        else
          let want_class = (case template of None \<Rightarrow> None | Some attrs \<Rightarrow> class_filter (take (unat cnt) attrs));
              handles = matching_handles want_class (length (p11_identities s))
          in (CKR_OK, s\<lparr>p11_find_op := Some \<lparr>fo_handles = handles, fo_position = 0\<rparr>\<rparr>)))"

definition c_find_objects ::
    "p11_module \<Rightarrow> p11_module \<Rightarrow> ck_ulong \<Rightarrow> ck_ulong list option \<Rightarrow> ck_ulong \<Rightarrow> ck_ulong option \<Rightarrow>
      ((ck_rv \<times> ck_ulong list option \<times> ck_ulong option) \<times> p11_module) option" where
  "c_find_objects m m' session objects max_count cnt =
     (if \<not> is_initialized m then Some ((CKR_CRYPTOKI_NOT_INITIALIZED, objects, cnt), m')
      else
        (case (objects, cnt) of
           (Some buf, Some _) \<Rightarrow>
             with_state m' (\<lambda>s.
               if \<not> session_valid s session then ((CKR_SESSION_HANDLE_INVALID, objects, cnt), s)
               else
                 (case p11_find_op s of
                    None \<Rightarrow> ((CKR_OPERATION_NOT_INITIALIZED, objects, cnt), s)
                  | Some f \<Rightarrow>
                      let remaining = length (fo_handles f) - fo_position f;
                          to_return = min remaining (unat max_count)
                      in ((CKR_OK, Some (write_buffer (take to_return (drop (fo_position f) (fo_handles f))) buf),
                           Some (of_nat to_return)),
                          s\<lparr>p11_find_op := Some (f\<lparr>fo_position := fo_position f + to_return\<rparr>)\<rparr>)))
         | _ \<Rightarrow> Some ((CKR_ARGUMENTS_BAD, objects, cnt), m')))"

definition c_find_objects_final :: "p11_module \<Rightarrow> p11_module \<Rightarrow> ck_ulong \<Rightarrow> (ck_rv \<times> p11_module) option" where
  "c_find_objects_final m m' session =
     (if \<not> is_initialized m then Some (CKR_CRYPTOKI_NOT_INITIALIZED, m')
      else with_state m' (\<lambda>s.
        if \<not> session_valid s session then (CKR_SESSION_HANDLE_INVALID, s)
        else (CKR_OK, s\<lparr>p11_find_op := None\<rparr>)))"

section \<open>Attributes\<close>

definition ED25519_EC_PARAMS :: bytes where "ED25519_EC_PARAMS = [0x06, 0x03, 0x2B, 0x65, 0x70]"

text \<open>The value of an attribute of an object, \<open>None\<close> for an attribute it does not have.\<close>

definition attribute_data :: "nat \<Rightarrow> handle_type \<Rightarrow> p11_identity \<Rightarrow> ck_ulong \<Rightarrow> bytes option" where
  "attribute_data idx kind ident a =
     (if a = CKA_TOKEN then Some [CK_TRUE]
      else if a = CKA_ID then Some [of_nat (idx + 1)]
      else if a = CKA_LABEL then Some (as_bytes (pi_label ident))
      else if a = CKA_CLASS then
        Some (u64_to_ne_bytes (case kind of PrivateKey \<Rightarrow> CKO_PRIVATE_KEY | PublicKey \<Rightarrow> CKO_PUBLIC_KEY
                | Certificate \<Rightarrow> CKO_CERTIFICATE))
      else if a = CKA_PRIVATE then Some [if kind = PrivateKey then CK_TRUE else CK_FALSE]
      else if kind = Certificate \<and> a = CKA_CERTIFICATE_TYPE then Some (u64_to_ne_bytes CKC_X_509)
      else if kind = Certificate \<and> a = CKA_VALUE then Some (pi_cert_der ident)
      else if kind = Certificate \<and> (a = CKA_SUBJECT \<or> a = CKA_ISSUER) then Some []
      else if kind = Certificate \<and> a = CKA_SERIAL_NUMBER then Some [0x02, 0x01, 0x01]
      else if kind \<noteq> Certificate \<and> a = CKA_KEY_TYPE then Some (u64_to_ne_bytes CKK_EC_EDWARDS)
      else if kind = PrivateKey \<and> a = CKA_SIGN then Some [CK_TRUE]
      else if kind = PublicKey \<and> a = CKA_VERIFY then Some [CK_TRUE]
      else if kind \<noteq> Certificate \<and> a = CKA_ALWAYS_AUTHENTICATE then Some [CK_FALSE]
      else if kind \<noteq> Certificate \<and> a = CKA_EC_PARAMS then Some ED25519_EC_PARAMS
      else if kind \<noteq> Certificate \<and> a = CKA_EC_POINT then Some (pi_public_key ident)
      else None)"

text \<open>One turn of the attribute loop: the attribute afterwards and the new return value.\<close>

definition fill_attribute :: "nat \<Rightarrow> handle_type \<Rightarrow> p11_identity \<Rightarrow> ck_attribute \<Rightarrow> ck_rv \<Rightarrow> ck_attribute \<times> ck_rv" where
  "fill_attribute idx kind ident attr rv =
     (case attribute_data idx kind ident (attr_type attr) of
        None \<Rightarrow> (attr\<lparr>value_len := CK_UNAVAILABLE_INFORMATION\<rparr>, CKR_ATTRIBUTE_TYPE_INVALID)
      | Some bytes \<Rightarrow>
          let len = of_nat (length bytes) in
          (case p_value attr of
             None \<Rightarrow> (attr\<lparr>value_len := len\<rparr>, rv)
           | Some buf \<Rightarrow>
               if value_len attr < len then (attr\<lparr>value_len := len\<rparr>, CKR_BUFFER_TOO_SMALL)
               else (attr\<lparr>p_value := Some (write_buffer bytes buf), value_len := len\<rparr>, rv)))"

fun fill_attributes ::
    "nat \<Rightarrow> handle_type \<Rightarrow> p11_identity \<Rightarrow> ck_attribute list \<Rightarrow> ck_rv \<Rightarrow> ck_attribute list \<times> ck_rv" where
  "fill_attributes idx kind ident [] rv = ([], rv)"
| "fill_attributes idx kind ident (attr # attrs) rv =
     (let (attr', rv') = fill_attribute idx kind ident attr rv;
          (attrs', rv'') = fill_attributes idx kind ident attrs rv'
      in (attr' # attrs', rv''))"

definition c_get_attribute_value ::
    "p11_module \<Rightarrow> p11_module \<Rightarrow> ck_ulong \<Rightarrow> ck_ulong \<Rightarrow> ck_attribute list option \<Rightarrow> ck_ulong \<Rightarrow>
      ((ck_rv \<times> ck_attribute list option) \<times> p11_module) option" where
  "c_get_attribute_value m m' session object template cnt =
     (if \<not> is_initialized m then Some ((CKR_CRYPTOKI_NOT_INITIALIZED, template), m')
      else
        (case template of
           None \<Rightarrow> Some ((CKR_ARGUMENTS_BAD, template), m')
         | Some attrs \<Rightarrow>
             with_state m' (\<lambda>s.
               if \<not> session_valid s session then ((CKR_SESSION_HANDLE_INVALID, template), s)
               else
                 (case handle_to_identity_index object of
                    None \<Rightarrow> ((CKR_OBJECT_HANDLE_INVALID, template), s)
                  | Some (idx, kind) \<Rightarrow>
                      if length (p11_identities s) \<le> idx then ((CKR_OBJECT_HANDLE_INVALID, template), s)
                      else
                        let n = unat cnt;
                            (attrs', rv) = fill_attributes idx kind (p11_identities s ! idx) (take n attrs) CKR_OK
                        in ((rv, Some (attrs' @ drop n attrs)), s)))))"

section \<open>Signing\<close>

definition c_sign_init ::
    "p11_module \<Rightarrow> p11_module \<Rightarrow> ck_ulong \<Rightarrow> ck_mechanism option \<Rightarrow> ck_ulong \<Rightarrow> (ck_rv \<times> p11_module) option" where
  "c_sign_init m m' session mech key =
     (if \<not> is_initialized m then Some (CKR_CRYPTOKI_NOT_INITIALIZED, m')
      else
        (case mech of
           None \<Rightarrow> Some (CKR_ARGUMENTS_BAD, m')
         | Some mc \<Rightarrow>
             with_state m' (\<lambda>s.
               if \<not> session_valid s session then (CKR_SESSION_HANDLE_INVALID, s)
               else
                 (case handle_to_identity_index key of
                    None \<Rightarrow> (CKR_OBJECT_HANDLE_INVALID, s)
                  | Some (idx, kind) \<Rightarrow>
                      if length (p11_identities s) \<le> idx \<or> kind \<noteq> PrivateKey then (CKR_OBJECT_HANDLE_INVALID, s)
                      else if mechanism mc \<noteq> CKM_EDDSA then (CKR_MECHANISM_INVALID, s)
                      else (CKR_OK, s\<lparr>p11_sign_op :=
                              Some \<lparr>so_key_handle = key, so_mechanism = mechanism mc\<rparr>\<rparr>)))))"

definition ED25519_SIG_LEN :: ck_ulong where "ED25519_SIG_LEN = 64"

text \<open>The part under the lock: the key, its index at the avatar, the socket path.\<close>

definition take_sign_op ::
    "p11_module \<Rightarrow> ck_ulong \<Rightarrow> (ck_rv + (bytes \<times> nat \<times> string)) \<times> p11_module" where
  "take_sign_op m session =
     (case m of
        None \<Rightarrow> (Inl CKR_CRYPTOKI_NOT_INITIALIZED, m)
      | Some s \<Rightarrow>
          if \<not> session_valid s session then (Inl CKR_SESSION_HANDLE_INVALID, m)
          else
            (case p11_sign_op s of
               None \<Rightarrow> (Inl CKR_OPERATION_NOT_INITIALIZED, m)
             | Some op \<Rightarrow>
                 (case handle_to_identity_index (so_key_handle op) of
                    None \<Rightarrow> (Inl CKR_GENERAL_ERROR, m)
                  | Some (idx, _) \<Rightarrow>
                      if length (p11_identities s) \<le> idx then (Inl CKR_GENERAL_ERROR, m)
                      else (Inr (pi_public_key (p11_identities s ! idx), pi_index (p11_identities s ! idx),
                                 p11_socket_path s),
                            Some (s\<lparr>p11_sign_op := None\<rparr>)))))"

text \<open>
  The part outside it. The results are the return value, the signature buffer, its length, and
  the bytes sent to the avatar.
\<close>

definition sign_with ::
    "p11_env \<Rightarrow> bytes \<Rightarrow> nat \<Rightarrow> string \<Rightarrow> bytes \<Rightarrow> bytes option \<Rightarrow> ck_ulong \<Rightarrow>
      ck_rv \<times> bytes option \<times> ck_ulong \<times> bytes" where
  "sign_with E public_key identity_index socket_path data_slice signature signature_len =
     (case signature of
        None \<Rightarrow> (CKR_OK, signature, ED25519_SIG_LEN, [])
      | Some buf \<Rightarrow>
          if signature_len < ED25519_SIG_LEN then (CKR_BUFFER_TOO_SMALL, signature, ED25519_SIG_LEN, [])
          else
            (case lc_connect (pe_peer E socket_path) of
               Inl _ \<Rightarrow> (CKR_DEVICE_ERROR, signature, signature_len, [])
             | Inr client \<Rightarrow>
                 (case lc_sign (pe_text E) (pe_base64 E) identity_index public_key data_slice client of
                    (Inl _, client) \<Rightarrow> (CKR_DEVICE_ERROR, signature, signature_len, lc_sent client)
                  | (Inr raw_sig, client) \<Rightarrow>
                      if length raw_sig \<noteq> unat ED25519_SIG_LEN then
                        (CKR_DEVICE_ERROR, signature, signature_len, lc_sent client)
                      else (CKR_OK, Some (write_buffer raw_sig buf), ED25519_SIG_LEN, lc_sent client))))"

definition c_sign ::
    "p11_env \<Rightarrow> p11_module \<Rightarrow> p11_module \<Rightarrow> ck_ulong \<Rightarrow> bytes option \<Rightarrow> ck_ulong \<Rightarrow> bytes option \<Rightarrow>
      ck_ulong option \<Rightarrow> (ck_rv \<times> bytes option \<times> ck_ulong option \<times> bytes) \<times> p11_module" where
  "c_sign E m m' session data data_len signature signature_len =
     (if \<not> is_initialized m then ((CKR_CRYPTOKI_NOT_INITIALIZED, signature, signature_len, []), m')
      else
        (case (data, signature_len) of
           (Some d, Some len) \<Rightarrow>
             (case take_sign_op m' session of
                (Inl rv, m'') \<Rightarrow> ((rv, signature, signature_len, []), m'')
              | (Inr (public_key, identity_index, socket_path), m'') \<Rightarrow>
                  (case sign_with E public_key identity_index socket_path (take (unat data_len) d) signature len of
                     (rv, sig, n, sent) \<Rightarrow> ((rv, sig, Some n, sent), m'')))
         | _ \<Rightarrow> ((CKR_ARGUMENTS_BAD, signature, signature_len, []), m')))"

section \<open>The function list\<close>

text \<open>The functions that the macro \<open>stub!\<close> defines.\<close>

datatype stub_function =
    C_InitToken | C_InitPin | C_SetPin | C_GetOperationState | C_SetOperationState
    | C_CreateObject | C_CopyObject | C_DestroyObject | C_GetObjectSize | C_SetAttributeValue
    | C_EncryptInit | C_Encrypt | C_EncryptUpdate | C_EncryptFinal | C_DecryptInit | C_Decrypt
    | C_DecryptUpdate | C_DecryptFinal | C_DigestInit | C_Digest | C_DigestUpdate | C_DigestKey
    | C_DigestFinal | C_SignUpdate | C_SignFinal | C_SignRecoverInit | C_SignRecover
    | C_VerifyInit | C_Verify | C_VerifyUpdate | C_VerifyFinal | C_VerifyRecoverInit
    | C_VerifyRecover | C_DigestEncryptUpdate | C_DecryptDigestUpdate | C_SignEncryptUpdate
    | C_DecryptVerifyUpdate | C_GenerateKey | C_GenerateKeyPair | C_WrapKey | C_UnwrapKey
    | C_DeriveKey | C_SeedRandom | C_GenerateRandom | C_GetFunctionStatus | C_CancelFunction
    | C_WaitForSlotEvent

definition stub :: "stub_function \<Rightarrow> ck_rv" where
  "stub f = CKR_FUNCTION_NOT_SUPPORTED"

text \<open>\<open>C_GetFunctionList\<close>: the address of the list, through a pointer that may be NULL.\<close>

definition c_get_function_list :: "nat \<Rightarrow> nat option \<Rightarrow> ck_rv \<times> nat option" where
  "c_get_function_list function_list pp =
     (case pp of None \<Rightarrow> (CKR_ARGUMENTS_BAD, None) | Some _ \<Rightarrow> (CKR_OK, Some function_list))"

text \<open>
  A call through the function list with its arguments; \<open>invoke\<close> is what the list binds it to.
  The two module arguments are what its first and its second lock see.
\<close>

datatype p11_call =
    GetFunctionList "nat option"
  | Initialize p11_env
  | Finalize
  | GetInfo "ck_info option"
  | GetSlotList "ck_ulong list option" "ck_ulong option"
  | GetSlotInfo ck_ulong "ck_slot_info option"
  | GetTokenInfo ck_ulong "ck_token_info option"
  | GetMechanismList ck_ulong "ck_ulong list option" "ck_ulong option"
  | GetMechanismInfo ck_ulong ck_ulong "ck_mechanism_info option"
  | OpenSession ck_ulong ck_ulong "ck_ulong option"
  | CloseSession ck_ulong
  | CloseAllSessions ck_ulong
  | GetSessionInfo ck_ulong "ck_session_info option"
  | Login ck_ulong
  | Logout ck_ulong
  | FindObjectsInit ck_ulong "ck_attribute list option" ck_ulong
  | FindObjects ck_ulong "ck_ulong list option" ck_ulong "ck_ulong option"
  | FindObjectsFinal ck_ulong
  | GetAttributeValue ck_ulong ck_ulong "ck_attribute list option" ck_ulong
  | SignInit ck_ulong "ck_mechanism option" ck_ulong
  | Sign p11_env ck_ulong "bytes option" ck_ulong "bytes option" "ck_ulong option"
  | Stub stub_function

definition rv_of :: "((ck_rv \<times> 'a) \<times> p11_module) option \<Rightarrow> (ck_rv \<times> p11_module) option" where
  "rv_of r = map_option (\<lambda>((rv, _), m). (rv, m)) r"

fun invoke :: "p11_module \<Rightarrow> p11_module \<Rightarrow> p11_call \<Rightarrow> (ck_rv \<times> p11_module) option" where
  "invoke m m' (GetFunctionList pp) = Some (fst (c_get_function_list 0 pp), m')"
| "invoke m m' (Initialize E) = (case c_initialize E m' of (rv, _, m'') \<Rightarrow> Some (rv, m''))"
| "invoke m m' Finalize = Some (c_finalize m')"
| "invoke m m' (GetInfo info) = Some (fst (c_get_info m info), m')"
| "invoke m m' (GetSlotList slots cnt) = Some (fst (c_get_slot_list m slots cnt), m')"
| "invoke m m' (GetSlotInfo slot info) = Some (fst (c_get_slot_info m slot info), m')"
| "invoke m m' (GetTokenInfo slot info) = Some (fst (c_get_token_info m slot info), m')"
| "invoke m m' (GetMechanismList slot ms cnt) = Some (fst (c_get_mechanism_list m slot ms cnt), m')"
| "invoke m m' (GetMechanismInfo slot mech info) = Some (fst (c_get_mechanism_info m slot mech info), m')"
| "invoke m m' (OpenSession slot flags session) = rv_of (c_open_session m m' slot flags session)"
| "invoke m m' (CloseSession session) = c_close_session m m' session"
| "invoke m m' (CloseAllSessions slot) = c_close_all_sessions m m' slot"
| "invoke m m' (GetSessionInfo session info) = rv_of (c_get_session_info m m' session info)"
| "invoke m m' (Login session) = c_login m m' session"
| "invoke m m' (Logout session) = c_logout m m' session"
| "invoke m m' (FindObjectsInit session template cnt) = c_find_objects_init m m' session template cnt"
| "invoke m m' (FindObjects session objects max_count cnt) =
     rv_of (c_find_objects m m' session objects max_count cnt)"
| "invoke m m' (FindObjectsFinal session) = c_find_objects_final m m' session"
| "invoke m m' (GetAttributeValue session object template cnt) =
     rv_of (c_get_attribute_value m m' session object template cnt)"
| "invoke m m' (SignInit session mech key) = c_sign_init m m' session mech key"
| "invoke m m' (Sign E session data data_len signature signature_len) =
     (case c_sign E m m' session data data_len signature signature_len of ((rv, _), m'') \<Rightarrow> Some (rv, m''))"
| "invoke m m' (Stub f) = Some (stub f, m')"

text \<open>
  Threads of one process that call the module: a call begins by taking the first lock and
  returns after the second. A panic aborts the process, since it cannot leave an
  \<open>extern "C"\<close> function.
\<close>

record p11_process =
  pr_module :: p11_module
  pr_pending :: "(nat \<times> p11_call \<times> p11_module) list"
  pr_aborted :: bool

datatype p11_event =
    CallBegins nat p11_call
  | CallReturns nat p11_call ck_rv
  | CallPanics nat p11_call

inductive p11_step :: "p11_process \<Rightarrow> p11_event \<Rightarrow> p11_process \<Rightarrow> bool" where
  call_begins: "\<not> pr_aborted s \<Longrightarrow>
    p11_step s (CallBegins t c) (s\<lparr>pr_pending := (t, c, pr_module s) # pr_pending s\<rparr>)"
| call_returns: "\<not> pr_aborted s \<Longrightarrow> (t, c, m) \<in> set (pr_pending s) \<Longrightarrow>
    invoke m (pr_module s) c = Some (rv, m') \<Longrightarrow>
    p11_step s (CallReturns t c rv)
      (s\<lparr>pr_module := m', pr_pending := remove1 (t, c, m) (pr_pending s)\<rparr>)"
| call_panics: "\<not> pr_aborted s \<Longrightarrow> (t, c, m) \<in> set (pr_pending s) \<Longrightarrow>
    invoke m (pr_module s) c = None \<Longrightarrow>
    p11_step s (CallPanics t c) (s\<lparr>pr_aborted := True\<rparr>)"

definition p11_start :: p11_process where
  "p11_start = \<lparr>pr_module = None, pr_pending = [], pr_aborted = False\<rparr>"

end
