(* ===== verification/Pkcs11.thy ===== *)
theory Pkcs11
  imports Pkcs11_Module
begin

text \<open>
  What the PKCS#11 module guarantees: its state invariant over every interleaving of calls, when
  it can panic, and the contracts of finding objects, reading attributes and signing.
\<close>

section \<open>Well-formed states\<close>

definition identity_wf :: "p11_identity \<Rightarrow> bool" where
  "identity_wf ident \<longleftrightarrow> length (pi_public_key ident) = 32 \<and>
     pi_cert_der ident = create_self_signed_cert (pi_public_key ident) (pi_label ident)"

definition sign_op_wf :: "p11_state \<Rightarrow> bool" where
  "sign_op_wf s \<longleftrightarrow> (\<forall>op. p11_sign_op s = Some op \<longrightarrow>
     so_mechanism op = CKM_EDDSA \<and>
     (\<exists>i < length (p11_identities s). handle_to_identity_index (so_key_handle op) = Some (i, PrivateKey)))"

definition session_wf :: "p11_state \<Rightarrow> bool" where
  "session_wf s \<longleftrightarrow>
     (if p11_session_open s then p11_session_handle s = 1
      else p11_session_handle s = 0 \<and> p11_sign_op s = None \<and> p11_find_op s = None)"

definition p11_wf :: "p11_state \<Rightarrow> bool" where
  "p11_wf s \<longleftrightarrow> p11_initialized s \<and> session_wf s \<and> sign_op_wf s \<and>
     (\<forall>f. p11_find_op s = Some f \<longrightarrow> fo_position f \<le> length (fo_handles f)) \<and>
     list_all identity_wf (p11_identities s) \<and> sorted_wrt (<) (map pi_index (p11_identities s))"

definition module_wf :: "p11_module \<Rightarrow> bool" where
  "module_wf m \<longleftrightarrow> (\<forall>s. m = Some s \<longrightarrow> p11_wf s)"

lemma with_state_Some [simp]: "with_state (Some s) f = Some (fst (f s), Some (snd (f s)))"
  by (simp add: with_state_def split: prod.split)

lemma with_state_None [simp]: "with_state None f = None"
  by (simp add: with_state_def)

lemma with_state_eq_None [simp]: "with_state m f = None \<longleftrightarrow> m = None"
  by (cases m) simp_all

lemma with_state_wf:
  assumes "with_state m f = Some (r, m')" and "module_wf m" and "\<And>s. p11_wf s \<Longrightarrow> p11_wf (snd (f s))"
  shows "module_wf m'"
  using assms by (cases m) (auto simp: module_wf_def)

lemma module_wf_initialized: "module_wf m \<Longrightarrow> is_initialized m \<longleftrightarrow> m \<noteq> None"
  by (cases m) (auto simp: module_wf_def is_initialized_def p11_wf_def)

lemma closed_wf [simp]: "p11_wf s \<Longrightarrow> p11_wf (closed s)"
  by (auto simp: p11_wf_def closed_def session_wf_def sign_op_wf_def CK_INVALID_HANDLE_def)

lemma session_valid_wf: "p11_wf s \<Longrightarrow> session_valid s h \<Longrightarrow> p11_session_open s \<and> p11_session_handle s = 1 \<and> h = 1"
  by (auto simp: p11_wf_def session_wf_def session_valid_def)

lemma find_init_wf: "p11_wf s \<Longrightarrow> session_valid s h \<Longrightarrow>
    p11_wf (s\<lparr>p11_find_op := Some \<lparr>fo_handles = hs, fo_position = 0\<rparr>\<rparr>)"
  by (auto simp: p11_wf_def session_wf_def sign_op_wf_def session_valid_def)

lemma find_step_wf: "p11_wf s \<Longrightarrow> session_valid s h \<Longrightarrow> p11_find_op s = Some f \<Longrightarrow>
    p11_wf (s\<lparr>p11_find_op := Some (f\<lparr>fo_position := fo_position f + min (length (fo_handles f) - fo_position f) n\<rparr>)\<rparr>)"
  by (auto simp: p11_wf_def session_wf_def sign_op_wf_def session_valid_def)

lemma sign_init_wf: "p11_wf s \<Longrightarrow> session_valid s h \<Longrightarrow>
    handle_to_identity_index key = Some (i, PrivateKey) \<Longrightarrow> i < length (p11_identities s) \<Longrightarrow>
    p11_wf (s\<lparr>p11_sign_op := Some \<lparr>so_key_handle = key, so_mechanism = CKM_EDDSA\<rparr>\<rparr>)"
  by (auto simp: p11_wf_def session_wf_def sign_op_wf_def session_valid_def)

lemma clear_ops_wf: "p11_wf s \<Longrightarrow> p11_wf (s\<lparr>p11_sign_op := None\<rparr>)" "p11_wf s \<Longrightarrow> p11_wf (s\<lparr>p11_find_op := None\<rparr>)"
  by (auto simp: p11_wf_def session_wf_def sign_op_wf_def)

lemma open_session_wf: "p11_wf s \<Longrightarrow> p11_wf (s\<lparr>p11_session_open := True, p11_session_handle := 1\<rparr>)"
  by (auto simp: p11_wf_def session_wf_def sign_op_wf_def)

section \<open>Importing identities\<close>

lemma import_identity_SomeD:
  "import_identity B (i, raw) = Some ident \<Longrightarrow>
     identity_wf ident \<and> pi_index ident = i \<and> id_key_type raw = ''ed25519'' \<and>
     b64_decode B (id_public_key raw) = Some (pi_public_key ident) \<and> pi_label ident = id_label raw"
  by (auto simp: import_identity_def identity_wf_def split: if_splits option.splits)

lemma import_identities_enum:
  "list_all identity_wf (List.map_filter (import_identity B) (enumerate n raw)) \<and>
   sorted_wrt (<) (map pi_index (List.map_filter (import_identity B) (enumerate n raw))) \<and>
   (\<forall>ident \<in> set (List.map_filter (import_identity B) (enumerate n raw)).
      n \<le> pi_index ident \<and> pi_index ident < n + length raw \<and>
      import_identity B (pi_index ident, raw ! (pi_index ident - n)) = Some ident)"
proof (induction raw arbitrary: n)
  case (Cons r raw)
  note IH = Cons.IH [of "Suc n"]
  show ?case
  proof (cases "import_identity B (n, r)")
    case None
    with IH show ?thesis by (fastforce simp: nth_Cons' Suc_le_eq)
  next
    case (Some ident)
    note d = import_identity_SomeD [OF Some]
    with Some IH show ?thesis by (fastforce simp: nth_Cons' Suc_le_eq)
  qed
qed simp

lemma import_identities_wf:
  "list_all identity_wf (import_identities B raw)"
  "sorted_wrt (<) (map pi_index (import_identities B raw))"
  "ident \<in> set (import_identities B raw) \<Longrightarrow> pi_index ident < length raw \<and>
     import_identity B (pi_index ident, raw ! pi_index ident) = Some ident"
  using import_identities_enum [of B 0 raw] by (auto simp: import_identities_def)

lemma c_initialize_wf: "module_wf m \<Longrightarrow> module_wf (snd (snd (c_initialize E m)))"
  by (auto simp: c_initialize_def Let_def module_wf_def p11_wf_def session_wf_def sign_op_wf_def
      import_identities_wf CK_INVALID_HANDLE_def split: sum.splits prod.splits option.splits)

section \<open>The invariant\<close>

lemma take_sign_op_wf: "module_wf m \<Longrightarrow> module_wf (snd (take_sign_op m session))"
  by (auto simp: take_sign_op_def module_wf_def clear_ops_wf split: option.splits)

lemma c_sign_wf: "module_wf m' \<Longrightarrow> module_wf (snd (c_sign E m m' session d dl sig sl))"
  using take_sign_op_wf [of m' session]
  by (auto simp: c_sign_def split: option.splits sum.splits prod.splits)

lemma rv_of_eq: "rv_of r = Some (rv, m) \<longleftrightarrow> (\<exists>x. r = Some ((rv, x), m))" "rv_of r = None \<longleftrightarrow> r = None"
  by (auto simp: rv_of_def)

lemma invoke_wf:
  assumes "invoke m m' c = Some (rv, m'')" and "module_wf m'"
  shows "module_wf m''"
proof (cases c)
  case (Initialize E)
  with assms c_initialize_wf [of m' E] show ?thesis by (auto split: prod.splits)
next
  case Finalize
  with assms show ?thesis by (auto simp: c_finalize_def module_wf_def split: if_splits)
next
  case (OpenSession slot flags session)
  with assms show ?thesis
    by (auto simp: rv_of_eq c_open_session_def open_session_wf split: if_splits elim!: with_state_wf)
next
  case (CloseSession session)
  with assms show ?thesis by (auto simp: c_close_session_def split: if_splits elim!: with_state_wf)
next
  case (CloseAllSessions slot)
  with assms show ?thesis by (auto simp: c_close_all_sessions_def split: if_splits elim!: with_state_wf)
next
  case (GetSessionInfo session info)
  with assms show ?thesis
    by (auto simp: rv_of_eq c_get_session_info_def split: if_splits elim!: with_state_wf)
next
  case (Login session)
  with assms show ?thesis by (auto simp: c_login_def split: if_splits elim!: with_state_wf)
next
  case (Logout session)
  with assms show ?thesis by (auto simp: c_logout_def split: if_splits elim!: with_state_wf)
next
  case (FindObjectsInit session template cnt)
  with assms show ?thesis
    by (auto simp: c_find_objects_init_def Let_def intro: find_init_wf split: if_splits elim!: with_state_wf)
next
  case (FindObjects session objects max_count cnt)
  with assms show ?thesis
    by (auto simp: rv_of_eq c_find_objects_def Let_def intro: find_step_wf
        split: if_splits option.splits elim!: with_state_wf)
next
  case (FindObjectsFinal session)
  with assms show ?thesis
    by (auto simp: c_find_objects_final_def clear_ops_wf split: if_splits elim!: with_state_wf)
next
  case (GetAttributeValue session object template cnt)
  with assms show ?thesis
    by (auto simp: rv_of_eq c_get_attribute_value_def Let_def
        split: if_splits option.splits prod.splits elim!: with_state_wf)
next
  case (SignInit session mech key)
  with assms show ?thesis
    by (auto simp: c_sign_init_def not_le intro: sign_init_wf split: if_splits option.splits prod.splits
        elim!: with_state_wf)
next
  case (Sign E session d dl sig sl)
  with assms c_sign_wf [of m' E m session d dl sig sl] show ?thesis by (auto split: prod.splits)
qed (use assms in auto)

interpretation p11: invariant_system "\<lambda>s. s = p11_start" p11_step "\<lambda>s. module_wf (pr_module s)"
proof
  fix s t e assume "module_wf (pr_module s)" "p11_step s e t"
  then show "module_wf (pr_module t)"
    by (auto elim!: p11_step.cases dest: invoke_wf)
qed (simp add: p11_start_def module_wf_def)

text \<open>A panic needs a call whose second lock finds the module gone.\<close>

lemma invoke_None: "invoke m m' c = None \<Longrightarrow> is_initialized m \<and> m' = None"
  by (cases c) (auto simp: rv_of_eq c_open_session_def c_close_session_def c_close_all_sessions_def
      c_get_session_info_def c_login_def c_logout_def c_find_objects_init_def c_find_objects_def
      c_find_objects_final_def c_get_attribute_value_def c_sign_init_def
      split: if_splits option.splits prod.splits)

section \<open>Handles\<close>

lemma unat_of_nat_u64: "n < 2 ^ 64 \<Longrightarrow> unat (of_nat n :: u64) = n"
  by (simp add: unat_of_nat)

lemma handle_decode:
  assumes "i * 3 + 3 < 2 ^ 64"
  shows "handle_to_identity_index (priv_handle i) = Some (i, PrivateKey)"
    and "handle_to_identity_index (pub_handle i) = Some (i, PublicKey)"
    and "handle_to_identity_index (cert_handle i) = Some (i, Certificate)"
proof -
  have u: "unat (of_nat (i * 3 + k) :: u64) = i * 3 + k" if "k \<le> 3" for k
    by (rule unat_of_nat_u64) (use assms that in linarith)
  have nz: "(of_nat (i * 3 + k) :: u64) \<noteq> 0" if "k \<le> 3" "0 < k" for k
    using u [OF that(1)] that(2) by (metis add_is_0 gr_implies_not0 unsigned_0)
  have d: "(i * 3 + 1) div 3 = i" "(i * 3 + 2) div 3 = i" "(i * 3 + 1) mod 3 = 1" "(i * 3 + 2) mod 3 = 2"
    by presburger+
  show "handle_to_identity_index (priv_handle i) = Some (i, PrivateKey)"
    using u [of 1] nz [of 1] by (simp add: handle_to_identity_index_def priv_handle_def)
  show "handle_to_identity_index (pub_handle i) = Some (i, PublicKey)"
    using u [of 2] nz [of 2] d by (simp add: handle_to_identity_index_def pub_handle_def)
  show "handle_to_identity_index (cert_handle i) = Some (i, Certificate)"
    using u [of 3] nz [of 3] d by (simp add: handle_to_identity_index_def cert_handle_def)
qed

lemma handle_encode:
  assumes "handle_to_identity_index h = Some (i, kind)"
  shows "h = (case kind of PrivateKey \<Rightarrow> priv_handle i | PublicKey \<Rightarrow> pub_handle i | Certificate \<Rightarrow> cert_handle i)"
proof -
  from assms have nz: "h \<noteq> 0" and i: "i = (unat h - 1) div 3"
    and k: "kind = (if (unat h - 1) mod 3 = 0 then PrivateKey else if (unat h - 1) mod 3 = 1 then PublicKey
      else Certificate)"
    by (auto simp: handle_to_identity_index_def Let_def split: if_splits)
  have "unat h \<noteq> 0" using nz by (simp add: unat_eq_zero)
  then have "unat h = i * 3 + (unat h - 1) mod 3 + 1" using i by presburger
  then have h: "h = of_nat (i * 3 + (unat h - 1) mod 3 + 1)"
    by (metis of_nat_unat ucast_id)
  consider "(unat h - 1) mod 3 = 0" | "(unat h - 1) mod 3 = 1" | "(unat h - 1) mod 3 = 2" by linarith
  then show ?thesis
  proof cases
    case 1
    with h k show ?thesis by (simp add: priv_handle_def)
  next
    case 2
    then have "h = of_nat (i * 3 + 2)" using h by simp
    with 2 k show ?thesis by (simp add: pub_handle_def)
  next
    case 3
    then have "h = of_nat (i * 3 + 3)" using h by simp
    with 3 k show ?thesis by (simp add: cert_handle_def)
  qed
qed

definition class_of :: "handle_type \<Rightarrow> ck_ulong" where
  "class_of kind = (case kind of PrivateKey \<Rightarrow> CKO_PRIVATE_KEY | PublicKey \<Rightarrow> CKO_PUBLIC_KEY
     | Certificate \<Rightarrow> CKO_CERTIFICATE)"

lemma identity_handles_decode:
  assumes "i * 3 + 3 < 2 ^ 64"
  shows "set (identity_handles want i) =
      {h. \<exists>kind. handle_to_identity_index h = Some (i, kind) \<and> (want = None \<or> want = Some (class_of kind))}"
    and "distinct (identity_handles want i)"
proof -
  note d = handle_decode [OF assms]
  have ne: "priv_handle i \<noteq> pub_handle i" "priv_handle i \<noteq> cert_handle i" "pub_handle i \<noteq> cert_handle i"
    using d by (metis handle_type.distinct option.inject prod.inject)+
  show "distinct (identity_handles want i)"
    using ne by (simp add: identity_handles_def split: option.split)
  show "set (identity_handles want i) =
      {h. \<exists>kind. handle_to_identity_index h = Some (i, kind) \<and> (want = None \<or> want = Some (class_of kind))}"
    (is "_ = ?R")
  proof (intro set_eqI iffI)
    fix h assume "h \<in> set (identity_handles want i)"
    with d show "h \<in> ?R"
      by (auto simp: identity_handles_def class_of_def ck_consts split: option.splits if_splits)
  next
    fix h assume "h \<in> ?R"
    then obtain kind where k: "handle_to_identity_index h = Some (i, kind)"
      "want = None \<or> want = Some (class_of kind)" by blast
    from handle_encode [OF k(1)] k(2) show "h \<in> set (identity_handles want i)"
      by (cases kind) (auto simp: identity_handles_def class_of_def ck_consts)
  qed
qed

lemma matching_handles_spec:
  assumes "n * 3 < 2 ^ 64"
  shows "set (matching_handles want n) = {h. \<exists>i kind. i < n \<and> handle_to_identity_index h = Some (i, kind) \<and>
      (want = None \<or> want = Some (class_of kind))}" (is "_ = ?R n")
    and "distinct (matching_handles want n)"
proof -
  have "set (matching_handles want n) = ?R n \<and> distinct (matching_handles want n)"
    using assms
  proof (induction n)
    case (Suc n)
    then have b: "n * 3 + 3 < 2 ^ 64" and IH: "set (matching_handles want n) = ?R n"
      "distinct (matching_handles want n)" by simp_all
    note d = identity_handles_decode [OF b, of want]
    have ap: "matching_handles want (Suc n) = matching_handles want n @ identity_handles want n"
      by (simp add: matching_handles_def)
    have "set (matching_handles want n) \<inter> set (identity_handles want n) = {}"
      unfolding IH(1) d(1) by auto
    moreover have "set (matching_handles want (Suc n)) = ?R (Suc n)"
      unfolding ap set_append IH(1) d(1) by (auto simp: less_Suc_eq)
    ultimately show ?case using IH(2) d(2) unfolding ap by simp
  qed (simp add: matching_handles_def)
  then show "set (matching_handles want n) = ?R n" "distinct (matching_handles want n)" by blast+
qed

section \<open>A sample run\<close>

definition sample_key :: bytes where "sample_key = replicate 32 7"

definition sample_identity :: gpg_identity where
  "sample_identity = \<lparr>id_key_type = ''ed25519'', id_public_key = b64_encode toy_base64 sample_key, id_label = ''alice''\<rparr>"

definition identities_doc :: json where
  "identities_doc = json_object
     [(''payload'', json_object [(''identities'', JArray [JArray [JString ''rsa'', JString [], JString []],
       JArray [JString ''ed25519'', JString (id_public_key sample_identity), JString ''alice'']])]),
      (''request_id'', JNumber (PosInt 1)), (''status'', JString ''ok'')]"

definition signature_doc :: json where
  "signature_doc = json_object
     [(''payload'', json_object [(''signature'', JString (b64_encode toy_base64 (replicate 64 9)))]),
      (''request_id'', JNumber (PosInt 1)), (''status'', JString ''ok'')]"

definition p11_text :: json_text where
  "p11_text = \<lparr>json_to_string = \<lambda>_. ''q'',
     json_from_str = \<lambda>s. if s = ''i'' then Some identities_doc else if s = ''s'' then Some signature_doc else None\<rparr>"

text \<open>The process when the peer answers the one text \<open>t\<close>.\<close>

definition p11_sample_env :: "string \<Rightarrow> p11_env" where
  "p11_sample_env t = \<lparr>pe_text = p11_text, pe_base64 = toy_base64, pe_KM_PKCS11_SOCKET = Some ''/s'',
     pe_GNUPGHOME = None, pe_HOME = None, pe_peer = \<lambda>_. Some (write_frame (as_bytes t), True),
     pe_creatable = \<lambda>_. True\<rparr>"

definition p11_sample_state :: p11_state where
  "p11_sample_state = \<lparr>p11_initialized = True, p11_socket_path = ''/s'',
     p11_identities = [\<lparr>pi_public_key = sample_key, pi_cert_der = create_self_signed_cert sample_key ''alice'',
       pi_label = ''alice'', pi_index = 1\<rparr>],
     p11_session_open = False, p11_session_handle = 0, p11_sign_op = None, p11_find_op = None\<rparr>"

lemma read_frame_one: "read_frame MAX_RESPONSE (write_frame (as_bytes [c])) = Inr (as_bytes [c], [])"
  using read_write_frame [of "as_bytes [c]" MAX_RESPONSE "[]"] by (simp add: MAX_RESPONSE_def)

lemma json_from_slice_ascii:
  assumes "list_all (\<lambda>c. of_char c < (0x80 :: byte)) t"
  shows "json_from_slice J (as_bytes t) = from_str_value J t"
proof -
  have "utf8_valid (as_bytes t)"
    using assms by (intro utf8_valid_ascii) (simp add: as_bytes_def list.pred_map comp_def)
  then show ?thesis by (simp add: json_from_slice_def)
qed

lemma docs_wf: "json_wf identities_doc" "json_wf signature_doc"
  unfolding identities_doc_def signature_doc_def
  by (intro json_wf_object; auto intro!: json_wf_object)+

lemma sample_answer:
  assumes "lc_next_id c = 1" and "lc_writable c"
  shows "lc_recv c = write_frame (as_bytes ''i'') \<Longrightarrow>
      fst (lc_request p11_text op p c) = check_response 1 identities_doc"
    and "lc_recv c = write_frame (as_bytes ''s'') \<Longrightarrow>
      fst (lc_request p11_text op p c) = check_response 1 signature_doc"
  using assms
  by (simp_all add: lc_request_def Let_def read_frame_one json_from_slice_ascii from_str_value_def
      p11_text_def docs_wf)

lemma check_docs:
  "check_response 1 identities_doc = Inr (json_object [(''identities'', JArray
     [JArray [JString ''rsa'', JString [], JString []],
      JArray [JString ''ed25519'', JString (id_public_key sample_identity), JString ''alice'']])])"
  "check_response 1 signature_doc =
     Inr (json_object [(''signature'', JString (b64_encode toy_base64 (replicate 64 9)))])"
  by (simp_all add: check_response_def identities_doc_def signature_doc_def jget_json_object as_u64_def
      get_str_def)

lemma sample_identities:
  assumes "lc_next_id c = 1" and "lc_writable c" and "lc_recv c = write_frame (as_bytes ''i'')"
  shows "fst (lc_request_identities p11_text c) =
    Inr [\<lparr>id_key_type = ''rsa'', id_public_key = [], id_label = []\<rparr>, sample_identity]"
proof -
  obtain c' where "lc_request p11_text ''request_identities'' (json_object []) c =
      (check_response 1 identities_doc, c')"
    using sample_answer(1) [OF assms] by (metis prod.collapse)
  then show ?thesis
    by (simp add: lc_request_identities_def check_docs jget_json_object decode_identities_def
        decode_identity_def de_identity_fields_def sample_identity_def)
qed

lemma sample_initialize:
  "c_initialize (p11_sample_env ''i'') None = (CKR_OK, [], Some p11_sample_state)"
proof -
  let ?c = "\<lparr>lc_recv = write_frame (as_bytes ''i''), lc_sent = [], lc_writable = True, lc_next_id = 1\<rparr>"
  obtain c' where "lc_request_identities p11_text ?c =
      (Inr [\<lparr>id_key_type = ''rsa'', id_public_key = [], id_label = []\<rparr>, sample_identity], c')"
    using sample_identities [of ?c] by (metis prod.collapse local_client.select_convs)
  moreover have "fst (import_gpg_cert (p11_sample_env ''i'') c') = []"
    by (auto simp: import_gpg_cert_def p11_sample_env_def split: prod.split sum.split)
  moreover have "import_identities toy_base64
      [\<lparr>id_key_type = ''rsa'', id_public_key = [], id_label = []\<rparr>, sample_identity] = p11_identities p11_sample_state"
    using toy_base64_laws
    by (simp add: import_identities_def import_identity_def sample_identity_def sample_key_def
        p11_sample_state_def base64_laws_def)
  ultimately show ?thesis
    by (simp add: c_initialize_def is_initialized_def p11_sample_env_def lc_connect_def
        debug_cert_files_def p11_sample_state_def CK_INVALID_HANDLE_def)
qed

lemma reach_call:
  assumes "reach (\<lambda>s. s = p11_start) p11_step s" and "\<not> pr_aborted s" and "pr_pending s = []"
    and "invoke (pr_module s) (pr_module s) c = Some (rv, m')"
  shows "reach (\<lambda>s. s = p11_start) p11_step (s\<lparr>pr_module := m', pr_pending := []\<rparr>)"
proof -
  let ?s1 = "s\<lparr>pr_pending := [(0, c, pr_module s)]\<rparr>"
  have "p11_step s (CallBegins 0 c) ?s1"
    using call_begins [of s 0 c] assms(2,3) by simp
  with assms(1) have r1: "reach (\<lambda>s. s = p11_start) p11_step ?s1" by (rule reach_step)
  have "p11_step ?s1 (CallReturns 0 c rv) (s\<lparr>pr_module := m', pr_pending := []\<rparr>)"
    using call_returns [of ?s1 0 c "pr_module s" rv m'] assms(2-4) by simp
  with r1 show ?thesis by (rule reach_step)
qed

lemma reach_sample:
  "reach (\<lambda>s. s = p11_start) p11_step \<lparr>pr_module = Some p11_sample_state, pr_pending = [], pr_aborted = False\<rparr>"
  using reach_call [of p11_start "Initialize (p11_sample_env ''i'')" CKR_OK "Some p11_sample_state"]
  by (simp add: reach_init p11_start_def sample_initialize)

section \<open>Properties\<close>

text \<open>
  C20. Invariant of the PKCS#11 module, over every interleaving of calls from any threads: the
  session handle is 1 exactly while the session is open, a closed session has no operation in
  progress, a pending signature is an EdDSA one with the private key of an existing identity,
  the position of a search stays inside its result, every identity has a 32-byte key and the
  certificate made from it. Hence the internal errors of \<open>C_Sign\<close> are never reported.
\<close>

theorem pkcs11_invariant:
  assumes "reach (\<lambda>s. s = p11_start) p11_step s" and "pr_module s = Some st"
  shows "(if p11_session_open st then p11_session_handle st = 1
      else p11_session_handle st = 0 \<and> p11_sign_op st = None \<and> p11_find_op st = None) \<and>
    (\<forall>op. p11_sign_op st = Some op \<longrightarrow> so_mechanism op = CKM_EDDSA \<and>
      (\<exists>i < length (p11_identities st). handle_to_identity_index (so_key_handle op) = Some (i, PrivateKey))) \<and>
    (\<forall>f. p11_find_op st = Some f \<longrightarrow> fo_position f \<le> length (fo_handles f)) \<and>
    (\<forall>ident \<in> set (p11_identities st). length (pi_public_key ident) = 32 \<and>
      pi_cert_der ident = create_self_signed_cert (pi_public_key ident) (pi_label ident)) \<and>
    fst (fst (c_sign E m (pr_module s) session data data_len sig sig_len)) \<noteq> CKR_GENERAL_ERROR"
proof -
  have wf: "p11_wf st" using p11.reach_invar [OF assms(1)] assms(2) by (simp add: module_wf_def)
  have "fst (take_sign_op (Some st) session) \<noteq> Inl CKR_GENERAL_ERROR"
  proof (cases "p11_sign_op st")
    case (Some op)
    then obtain i where "i < length (p11_identities st)"
      "handle_to_identity_index (so_key_handle op) = Some (i, PrivateKey)"
      using wf by (auto simp: p11_wf_def sign_op_wf_def)
    with Some show ?thesis by (simp add: take_sign_op_def ck_consts)
  qed (simp add: take_sign_op_def ck_consts)
  then have "fst (fst (c_sign E m (pr_module s) session data data_len sig sig_len)) \<noteq> CKR_GENERAL_ERROR"
    unfolding assms(2)
    by (auto simp: c_sign_def sign_with_def ck_consts split: option.splits sum.splits prod.splits)
  with wf show ?thesis
    by (auto simp: p11_wf_def session_wf_def sign_op_wf_def list_all_iff identity_wf_def)
qed

theorem pkcs11_invariant_witness:
  "p11_session_handle p11_sample_state = 0 \<and> length sample_key = 32 \<and>
   pi_cert_der (hd (p11_identities p11_sample_state)) = create_self_signed_cert sample_key ''alice''"
  using pkcs11_invariant [OF reach_sample, of p11_sample_state]
  by (simp add: p11_sample_state_def)

lemma panic_reachable:
  "\<exists>s s'. reach (\<lambda>s. s = p11_start) p11_step s \<and> p11_step s (CallPanics 1 (Login 1)) s' \<and> pr_aborted s'"
proof -
  let ?s0 = "\<lparr>pr_module = Some p11_sample_state, pr_pending = [], pr_aborted = False\<rparr>"
  let ?login = "(1, Login 1, Some p11_sample_state) :: nat \<times> p11_call \<times> p11_module"
  let ?s1 = "?s0\<lparr>pr_pending := [?login]\<rparr>"
  let ?s2 = "?s0\<lparr>pr_pending := [(2, Finalize, Some p11_sample_state), ?login]\<rparr>"
  let ?s3 = "?s1\<lparr>pr_module := None\<rparr>"
  have "p11_step ?s0 (CallBegins 1 (Login 1)) ?s1" using call_begins [of ?s0 1 "Login 1"] by simp
  moreover have "p11_step ?s1 (CallBegins 2 Finalize) ?s2" using call_begins [of ?s1 2 Finalize] by simp
  moreover have "p11_step ?s2 (CallReturns 2 Finalize CKR_OK) ?s3"
    using call_returns [of ?s2 2 Finalize "Some p11_sample_state" CKR_OK None]
    by (simp add: c_finalize_def is_initialized_def p11_sample_state_def)
  ultimately have r: "reach (\<lambda>s. s = p11_start) p11_step ?s3"
    using reach_sample by (meson reach_step)
  have "p11_step ?s3 (CallPanics 1 (Login 1)) (?s3\<lparr>pr_aborted := True\<rparr>)"
    using call_panics [of ?s3 1 "Login 1" "Some p11_sample_state"]
    by (simp add: c_login_def is_initialized_def p11_sample_state_def)
  with r show ?thesis
    by (intro exI conjI) (assumption, assumption, simp)
qed

text \<open>
  C23. When the module can panic: only a call that another thread's \<open>C_Finalize\<close> overtook
  between its two locks; a call that runs alone always returns. The panic is reachable: a
  \<open>C_Login\<close> that begins before and continues after a \<open>C_Finalize\<close> aborts the process.
\<close>

theorem panic_only_after_racing_finalize:
  "(\<forall>s t c s'. reach (\<lambda>s. s = p11_start) p11_step s \<longrightarrow> p11_step s (CallPanics t c) s' \<longrightarrow>
      pr_module s = None \<and> (\<exists>m. (t, c, Some m) \<in> set (pr_pending s) \<and> p11_initialized m)) \<and>
   (\<forall>s c. reach (\<lambda>s. s = p11_start) p11_step s \<longrightarrow> invoke (pr_module s) (pr_module s) c \<noteq> None) \<and>
   (\<exists>s s'. reach (\<lambda>s. s = p11_start) p11_step s \<and> p11_step s (CallPanics 1 (Login 1)) s' \<and> pr_aborted s')"
proof -
  have overtaken: "p11_step s (CallPanics t c) s' \<Longrightarrow>
      pr_module s = None \<and> (\<exists>m. (t, c, Some m) \<in> set (pr_pending s) \<and> p11_initialized m)" for s t c s'
    by (auto elim!: p11_step.cases dest!: invoke_None simp: is_initialized_def split: option.splits)
  have alone: "invoke (pr_module s) (pr_module s) c \<noteq> None" for s c
    by (metis invoke_None is_initialized_def option.simps(4))
  from overtaken alone show ?thesis using panic_reachable by blast
qed

theorem panic_only_after_racing_finalize_witness:
  "invoke (Some p11_sample_state) (Some p11_sample_state) (Logout 1) \<noteq> None \<and>
   (\<exists>s s'. p11_step s (CallPanics 1 (Login 1)) s' \<and> pr_module s = None)"
proof -
  note props = panic_only_after_racing_finalize [THEN conjunct1] panic_only_after_racing_finalize [THEN conjunct2]
  obtain s s' where s: "reach (\<lambda>s. s = p11_start) p11_step s" "p11_step s (CallPanics 1 (Login 1)) s'"
    using props(2) [THEN conjunct2] by (elim exE conjE)
  have "pr_module s = None" using props(1) [rule_format, OF s] by (rule conjunct1)
  moreover have "invoke (Some p11_sample_state) (Some p11_sample_state) (Logout 1) \<noteq> None"
    using props(2) [THEN conjunct1, rule_format, OF reach_sample, of "Logout 1"] by simp
  ultimately show ?thesis using s(2) by (intro conjI exI)
qed

lemma matching_handles_length: "length (matching_handles want n) \<le> n * 3"
proof (induction n)
  case (Suc n)
  have "length (identity_handles want n) \<le> 3"
    by (auto simp: identity_handles_def split: option.split)
  with Suc show ?case by (simp add: matching_handles_def)
qed (simp add: matching_handles_def)

text \<open>Repeated searches with buffers of the given sizes, and what they return in all.\<close>

fun find_all :: "p11_module \<Rightarrow> ck_ulong \<Rightarrow> ck_ulong list \<Rightarrow> (ck_ulong list \<times> p11_module) option" where
  "find_all m session [] = Some ([], m)"
| "find_all m session (n # ns) =
     (case c_find_objects m m session (Some (replicate (unat n) 0)) n (Some 0) of
        Some ((rv, Some buf, Some k), m') \<Rightarrow>
          if rv \<noteq> CKR_OK then None
          else map_option (\<lambda>(hs, m''). (take (unat k) buf @ hs, m'')) (find_all m' session ns)
      | _ \<Rightarrow> None)"

lemma find_all_prefix:
  assumes "p11_initialized s" and "session_valid s session"
    and "p11_find_op s = Some f" and "fo_position f \<le> length (fo_handles f)" and "length (fo_handles f) < 2 ^ 64"
  shows "\<exists>m. find_all (Some s) session ns =
    Some (take (sum_list (map unat ns)) (drop (fo_position f) (fo_handles f)), m)"
  using assms
proof (induction ns arbitrary: s f)
  case (Cons n ns)
  define k where "k = min (length (fo_handles f) - fo_position f) (unat n)"
  define s' where "s' = s\<lparr>p11_find_op := Some (f\<lparr>fo_position := fo_position f + k\<rparr>)\<rparr>"
  have k: "k \<le> unat n" "k \<le> length (fo_handles f) - fo_position f" by (simp_all add: k_def)
  have unat_k: "unat (of_nat k :: ck_ulong) = k"
    using k(2) Cons.prems(5) by (intro unat_of_nat_u64) linarith
  have "\<exists>m. find_all (Some s') session ns =
      Some (take (sum_list (map unat ns)) (drop (fo_position f + k) (fo_handles f)), m)"
    using Cons.IH [of s' "f\<lparr>fo_position := fo_position f + k\<rparr>"] Cons.prems k(2)
    by (simp add: s'_def session_valid_def)
  then obtain m where m: "find_all (Some s') session ns =
      Some (take (sum_list (map unat ns)) (drop (fo_position f + k) (fo_handles f)), m)" by blast
  have call: "c_find_objects (Some s) (Some s) session (Some (replicate (unat n) 0)) n (Some 0) =
      Some ((CKR_OK, Some (write_buffer (take k (drop (fo_position f) (fo_handles f))) (replicate (unat n) 0)),
        Some (of_nat k)), Some s')"
    using Cons.prems by (simp add: c_find_objects_def is_initialized_def Let_def k_def s'_def)
  define hs where "hs = drop (fo_position f) (fo_handles f)"
  have "take (unat n + r) hs = take k hs @ take r (drop k hs)" for r
  proof (cases "unat n \<le> length hs")
    case True
    then have "k = unat n" by (simp add: k_def hs_def)
    then show ?thesis by (simp add: take_add)
  next
    case False
    then have "k = length hs" by (simp add: k_def hs_def)
    with False show ?thesis by simp
  qed
  from this [of "sum_list (map unat ns)"] show ?case using m unat_k k
    by (simp add: call write_buffer_def hs_def add.commute)
qed simp

text \<open>
  C21. Searching enumerates exactly the matching objects: after \<open>C_FindObjectsInit\<close>, however the
  caller cuts its buffers, the searches return together every object of the wanted class (all
  objects when the template names none) once, each handle decoding to an existing identity.
\<close>

theorem find_enumerates_matching_objects:
  assumes "p11_initialized s" and "session_valid s session" and "length (p11_identities s) * 3 < 2 ^ 64"
    and "length (p11_identities s) * 3 \<le> sum_list (map unat ns)"
    and "want = (case template of None \<Rightarrow> None | Some attrs \<Rightarrow> class_filter (take (unat cnt) attrs))"
  shows "\<exists>m1 hs m2. c_find_objects_init (Some s) (Some s) session template cnt = Some (CKR_OK, m1) \<and>
    find_all m1 session ns = Some (hs, m2) \<and> distinct hs \<and>
    set hs = {h. \<exists>i kind. i < length (p11_identities s) \<and> handle_to_identity_index h = Some (i, kind) \<and>
      (want = None \<or> want = Some (class_of kind))}"
proof -
  let ?hs = "matching_handles want (length (p11_identities s))"
  let ?s1 = "s\<lparr>p11_find_op := Some \<lparr>fo_handles = ?hs, fo_position = 0\<rparr>\<rparr>"
  have len: "length ?hs \<le> sum_list (map unat ns)" "length ?hs < 2 ^ 64"
    using assms(3,4) matching_handles_length [of want "length (p11_identities s)"] by linarith+
  have init: "c_find_objects_init (Some s) (Some s) session template cnt = Some (CKR_OK, Some ?s1)"
    using assms by (simp add: c_find_objects_init_def is_initialized_def)
  obtain m2 where "find_all (Some ?s1) session ns = Some (?hs, m2)"
    using find_all_prefix [of ?s1 session "\<lparr>fo_handles = ?hs, fo_position = 0\<rparr>" ns] assms(1,2) len
    by (auto simp: session_valid_def)
  with init matching_handles_spec [OF assms(3), of want] show ?thesis by blast
qed

theorem find_enumerates_matching_objects_witness:
  "\<exists>m1 hs m2. c_find_objects_init
      (Some (p11_sample_state\<lparr>p11_session_open := True, p11_session_handle := 1\<rparr>))
      (Some (p11_sample_state\<lparr>p11_session_open := True, p11_session_handle := 1\<rparr>)) 1 None 0 = Some (CKR_OK, m1) \<and>
    find_all m1 1 [2, 1] = Some (hs, m2) \<and> distinct hs"
  using find_enumerates_matching_objects
    [of "p11_sample_state\<lparr>p11_session_open := True, p11_session_handle := 1\<rparr>" 1 "[2, 1]" None 0 None]
  by (auto simp: p11_sample_state_def session_valid_def)

text \<open>An attribute request: a type and a buffer, whose announced size is within the real one.\<close>

definition attr_ok :: "ck_attribute \<Rightarrow> bool" where
  "attr_ok a \<longleftrightarrow> (\<forall>buf. p_value a = Some buf \<longrightarrow> unat (value_len a) \<le> length buf)"

text \<open>The values of an identity have lengths a machine word can hold.\<close>

definition identity_small :: "p11_identity \<Rightarrow> bool" where
  "identity_small ident \<longleftrightarrow> length (pi_public_key ident) < 2 ^ 64 \<and> length (pi_cert_der ident) < 2 ^ 64 \<and>
     length (pi_label ident) < 2 ^ 64"

lemma attribute_data_length:
  "attribute_data idx kind ident a = Some d \<Longrightarrow> identity_small ident \<Longrightarrow> length d < 2 ^ 64"
  by (auto simp: attribute_data_def identity_small_def ED25519_EC_PARAMS_def split: if_splits)

text \<open>What must hold of one attribute after the call.\<close>

definition attr_filled :: "bytes option \<Rightarrow> ck_attribute \<Rightarrow> ck_attribute \<Rightarrow> bool" where
  "attr_filled d a a' \<longleftrightarrow> attr_type a' = attr_type a \<and>
     map_option length (p_value a') = map_option length (p_value a) \<and>
     (case d of
        None \<Rightarrow> value_len a' = CK_UNAVAILABLE_INFORMATION \<and> p_value a' = p_value a
      | Some bytes \<Rightarrow> unat (value_len a') = length bytes \<and>
          (\<forall>buf. p_value a = Some buf \<longrightarrow>
             p_value a' = Some (if unat (value_len a) < length bytes then buf
                                else bytes @ drop (length bytes) buf)))"

definition attr_answered :: "bytes option \<Rightarrow> ck_attribute \<Rightarrow> bool" where
  "attr_answered d a \<longleftrightarrow>
     (\<exists>bytes. d = Some bytes \<and> (p_value a \<noteq> None \<longrightarrow> length bytes \<le> unat (value_len a)))"

lemma fill_attribute_spec:
  assumes "attr_ok a" and "identity_small ident"
  shows "attr_filled (attribute_data idx kind ident (attr_type a)) a (fst (fill_attribute idx kind ident a rv))"
    and "snd (fill_attribute idx kind ident a rv) = CKR_OK \<longleftrightarrow>
      rv = CKR_OK \<and> attr_answered (attribute_data idx kind ident (attr_type a)) a"
proof -
  have "attr_filled (attribute_data idx kind ident (attr_type a)) a (fst (fill_attribute idx kind ident a rv)) \<and>
    (snd (fill_attribute idx kind ident a rv) = CKR_OK \<longleftrightarrow>
      rv = CKR_OK \<and> attr_answered (attribute_data idx kind ident (attr_type a)) a)"
  proof (cases "attribute_data idx kind ident (attr_type a)")
    case None
    then show ?thesis by (simp add: fill_attribute_def attr_filled_def attr_answered_def ck_consts)
  next
    case (Some d)
    have u: "unat (of_nat (length d) :: ck_ulong) = length d"
      by (rule unat_of_nat_u64 [OF attribute_data_length [OF Some assms(2)]])
    show ?thesis
    proof (cases "p_value a")
      case None
      with Some u show ?thesis
        by (simp add: fill_attribute_def attr_filled_def attr_answered_def Let_def)
    next
      case (Some buf)
      with \<open>attribute_data _ _ _ _ = _\<close> u assms(1) show ?thesis
        by (auto simp: fill_attribute_def attr_filled_def attr_answered_def Let_def attr_ok_def
            write_buffer_def word_less_nat_alt ck_consts)
    qed
  qed
  then show "attr_filled (attribute_data idx kind ident (attr_type a)) a (fst (fill_attribute idx kind ident a rv))"
    and "snd (fill_attribute idx kind ident a rv) = CKR_OK \<longleftrightarrow>
      rv = CKR_OK \<and> attr_answered (attribute_data idx kind ident (attr_type a)) a" by blast+
qed

lemma fill_attributes_spec:
  assumes "list_all attr_ok attrs" and "identity_small ident"
  shows "list_all2 (\<lambda>a a'. attr_filled (attribute_data idx kind ident (attr_type a)) a a') attrs
      (fst (fill_attributes idx kind ident attrs rv)) \<and>
    (snd (fill_attributes idx kind ident attrs rv) = CKR_OK \<longleftrightarrow>
      rv = CKR_OK \<and> list_all (\<lambda>a. attr_answered (attribute_data idx kind ident (attr_type a)) a) attrs)"
  using assms(1)
proof (induction attrs arbitrary: rv)
  case (Cons a attrs)
  obtain a' rv' where one: "fill_attribute idx kind ident a rv = (a', rv')" by fastforce
  obtain as rv'' where rest: "fill_attributes idx kind ident attrs rv' = (as, rv'')" by fastforce
  note spec = fill_attribute_spec [OF _ assms(2), of a idx kind rv]
  show ?case using Cons.IH [of rv'] spec Cons.prems
    by (simp add: one rest)
qed simp

text \<open>
  C22. The two-call protocol of \<open>C_GetAttributeValue\<close> and its memory safety: for buffers at least
  as large as announced, no buffer is written past its end; every attribute the object has gets
  its true length, and its value when the buffer is there and large enough; an attribute the
  object lacks gets the unavailable length; the call returns \<open>CKR_OK\<close> exactly when every
  attribute was answered.
\<close>

theorem get_attribute_value_contract:
  assumes "p11_initialized s" and "session_valid s session"
    and "handle_to_identity_index object = Some (idx, kind)" and "idx < length (p11_identities s)"
    and "identity_small (p11_identities s ! idx)" and "list_all attr_ok attrs" and "length attrs = unat cnt"
  shows "\<exists>rv attrs'. c_get_attribute_value (Some s) (Some s) session object (Some attrs) cnt =
      Some ((rv, Some attrs'), Some s) \<and>
    list_all2 (\<lambda>a a'. attr_filled (attribute_data idx kind (p11_identities s ! idx) (attr_type a)) a a')
      attrs attrs' \<and>
    (rv = CKR_OK \<longleftrightarrow>
      list_all (\<lambda>a. attr_answered (attribute_data idx kind (p11_identities s ! idx) (attr_type a)) a) attrs)"
proof -
  let ?fill = "fill_attributes idx kind (p11_identities s ! idx) attrs CKR_OK"
  have "c_get_attribute_value (Some s) (Some s) session object (Some attrs) cnt =
      Some ((snd ?fill, Some (fst ?fill)), Some s)"
    using assms(1-4) assms(7) by (simp add: c_get_attribute_value_def is_initialized_def split: prod.split)
  with fill_attributes_spec [OF assms(6,5), of idx kind CKR_OK] show ?thesis by blast
qed

theorem get_attribute_value_contract_witness:
  "\<exists>rv attrs'. c_get_attribute_value
      (Some (p11_sample_state\<lparr>p11_session_open := True, p11_session_handle := 1\<rparr>))
      (Some (p11_sample_state\<lparr>p11_session_open := True, p11_session_handle := 1\<rparr>)) 1 2
      (Some [\<lparr>attr_type = CKA_EC_POINT, p_value = None, value_len = 0\<rparr>]) 1 =
    Some ((rv, Some attrs'), Some (p11_sample_state\<lparr>p11_session_open := True, p11_session_handle := 1\<rparr>)) \<and>
    rv = CKR_OK"
proof -
  have "length (create_self_signed_cert sample_key ''alice'') < 2 ^ 64"
    by (simp add: create_self_signed_cert_def tbs_cert_def cert_name_def cert_validity_def cert_spki_def
        der_seq_def der_tag_def der_len_def Let_def sample_key_def ed25519_oid_def cn_oid_def)
  then have small: "identity_small (p11_identities p11_sample_state ! 0)"
    by (simp add: identity_small_def p11_sample_state_def sample_key_def)
  have "handle_to_identity_index 2 = Some (0, PublicKey)"
    by (simp add: handle_to_identity_index_def)
  with get_attribute_value_contract
    [of "p11_sample_state\<lparr>p11_session_open := True, p11_session_handle := 1\<rparr>" 1 2 0 PublicKey
      "[\<lparr>attr_type = CKA_EC_POINT, p_value = None, value_len = 0\<rparr>]" 1] small
  show ?thesis
    by (auto simp: p11_sample_state_def session_valid_def attr_ok_def attr_answered_def attribute_data_def ck_consts)
qed

section \<open>Signing\<close>

lemma lc_sign_sent:
  "lc_sent (snd (lc_sign J B i pk d c)) = lc_sent (snd (lc_request J ''sign_request'' (sign_payload B i pk d) c))"
  by (auto simp: lc_sign_def split: prod.splits sum.splits option.splits)

lemma c_initialize_OkD:
  assumes "c_initialize E None = (CKR_OK, eff, Some s)"
  shows "\<exists>recv writable raw. pe_peer E (p11_socket_path s) = Some (recv, writable) \<and>
    fst (lc_request_identities (pe_text E)
      \<lparr>lc_recv = recv, lc_sent = [], lc_writable = writable, lc_next_id = 1\<rparr>) = Inr raw \<and>
    p11_identities s = import_identities (pe_base64 E) raw \<and> p11_initialized s"
  using assms
  by (auto simp: c_initialize_def is_initialized_def lc_connect_def Let_def ck_consts
      split: option.splits sum.splits prod.splits)

text \<open>What \<open>C_Sign\<close> writes: the whole signature into a large enough buffer, or nothing at all.\<close>

lemma sign_with_spec:
  assumes "sign_with E pk i path d sig len = (rv, sig', len', sent)"
  shows "(rv = CKR_OK \<and> sig = None \<and> sig' = None \<and> len' = 64) \<or>
     (rv = CKR_OK \<and> 64 \<le> len \<and> len' = 64 \<and>
        (\<exists>buf sg. sig = Some buf \<and> length sg = 64 \<and> sig' = Some (sg @ drop 64 buf))) \<or>
     (rv = CKR_BUFFER_TOO_SMALL \<and> len < 64 \<and> len' = 64 \<and> sig' = sig) \<or>
     (rv = CKR_DEVICE_ERROR \<and> 64 \<le> len \<and> len' = len \<and> sig' = sig)"
  using assms
  by (auto simp: sign_with_def ED25519_SIG_LEN_def write_buffer_def not_less
      split: option.splits if_splits sum.splits prod.splits)

lemma sign_with_sent:
  assumes "pe_peer E path = Some (recv, True)" and "64 \<le> len"
  shows "snd (snd (snd (sign_with E pk i path d (Some buf) len))) =
    write_frame (as_bytes (json_to_string (pe_text E)
      (local_request 1 ''sign_request'' (sign_payload (pe_base64 E) i pk d))))"
proof -
  let ?c = "\<lparr>lc_recv = recv, lc_sent = [], lc_writable = True, lc_next_id = 1\<rparr>"
  have "lc_sent (snd (lc_sign (pe_text E) (pe_base64 E) i pk d ?c)) =
      write_frame (as_bytes (json_to_string (pe_text E)
        (local_request 1 ''sign_request'' (sign_payload (pe_base64 E) i pk d))))"
    by (simp add: lc_sign_sent lc_request_sent)
  then show ?thesis using assms
    by (auto simp: sign_with_def lc_connect_def ED25519_SIG_LEN_def split: prod.split sum.split)
qed

text \<open>An identity the module can use, and where the imported ones come from in the avatar's list.\<close>

definition usable_identity :: "base64_lib \<Rightarrow> gpg_identity \<Rightarrow> bool" where
  "usable_identity B x \<longleftrightarrow> id_key_type x = ''ed25519'' \<and> (\<exists>k. b64_decode B (id_public_key x) = Some k \<and> length k = 32)"

lemma import_identity_usable: "import_identity B (i, x) \<noteq> None \<longleftrightarrow> usable_identity B x"
  by (auto simp: import_identity_def usable_identity_def split: option.splits)

lemma import_position:
  assumes "i < length (List.map_filter (import_identity B) (enumerate n raw))"
  shows "\<exists>j < length raw. import_identity B (n + j, raw ! j) = Some (List.map_filter (import_identity B) (enumerate n raw) ! i) \<and>
    i = length (filter (usable_identity B) (take j raw))"
  using assms
proof (induction raw arbitrary: i n)
  case (Cons x raw)
  show ?case
  proof (cases "import_identity B (n, x)")
    case None
    then have "\<not> usable_identity B x" using import_identity_usable [of B n x] by simp
    with None Cons.prems Cons.IH [of i "Suc n"] obtain j where "j < length raw"
      "import_identity B (Suc n + j, raw ! j) = Some (List.map_filter (import_identity B) (enumerate n (x # raw)) ! i)"
      "i = length (filter (usable_identity B) (take (Suc j) (x # raw)))"
      by auto
    then show ?thesis by (intro exI [of _ "Suc j"]) simp
  next
    case (Some ident)
    then have "usable_identity B x" using import_identity_usable [of B n x] by simp
    show ?thesis
    proof (cases i)
      case 0
      with Some show ?thesis by (intro exI [of _ 0]) simp
    next
      case (Suc i')
      with Some Cons.prems Cons.IH [of i' "Suc n"] obtain j where "j < length raw"
        "import_identity B (Suc n + j, raw ! j) = Some (List.map_filter (import_identity B) (enumerate n (x # raw)) ! i)"
        "i' = length (filter (usable_identity B) (take j raw))"
        by auto
      with Suc \<open>usable_identity B x\<close> show ?thesis by (intro exI [of _ "Suc j"]) simp
    qed
  qed
qed (simp add: List.map_filter_def)

text \<open>A fresh connection to the avatar, with what arrives on it.\<close>

abbreviation connection :: "bytes \<Rightarrow> bool \<Rightarrow> local_client" where
  "connection recv writable \<equiv> \<lparr>lc_recv = recv, lc_sent = [], lc_writable = writable, lc_next_id = 1\<rparr>"

lemma sign_with_outcome:
  assumes "sign_with E pk i path d (Some buf) len = (rv, sig', len', sent)" and "64 \<le> len"
    and "pe_peer E path = Some (recv, writable)"
  shows "rv = CKR_OK \<and> len' = 64 \<and> (\<exists>sg. length sg = 64 \<and> sig' = Some (sg @ drop 64 buf) \<and>
      fst (lc_sign (pe_text E) (pe_base64 E) i pk d (connection recv writable)) = Inr sg) \<or>
    rv = CKR_DEVICE_ERROR \<and> len' = len \<and> sig' = Some buf \<and>
      (\<forall>sg. fst (lc_sign (pe_text E) (pe_base64 E) i pk d (connection recv writable)) = Inr sg \<longrightarrow> length sg \<noteq> 64)"
  using assms
  by (auto simp: sign_with_def ED25519_SIG_LEN_def write_buffer_def lc_connect_def not_less [symmetric]
      split: if_splits sum.splits prod.splits)

text \<open>
  C19. Signing end to end: after initialisation, a session, and \<open>C_SignInit\<close> with the private
  key of an identity, \<open>C_Sign\<close> sends the avatar exactly the request to sign the caller's data
  with that key, under the index the identity had in the list that the avatar sent at the
  initialisation: the position of the usable identity (ed25519 with a 32-byte key) before which that
  list has as many usable ones as the object handle says, whatever other keys come between. It returns the
  64-byte signature of the avatar's answer, or, when that answer has none, a device error with the caller's
  buffer untouched.
\<close>

theorem signing_end_to_end:
  assumes "c_initialize E None = (CKR_OK, eff, Some s0)"
    and "i < length (p11_identities s0)" and "i * 3 + 3 < 2 ^ 64"
    and "flags AND CKF_SERIAL_SESSION \<noteq> 0"
    and "pe_peer E' (p11_socket_path s0) = Some (recv, True)" and "64 \<le> len" and "unat len \<le> length buf"
    and "unat n = length d"
  shows "\<exists>s1 s2 s3 recv0 writable raw rv sig' len' j.
    c_open_session (Some s0) (Some s0) 0 flags (Some h) = Some ((CKR_OK, Some 1), Some s1) \<and>
    c_sign_init (Some s1) (Some s1) 1 (Some \<lparr>mechanism = CKM_EDDSA\<rparr>) (priv_handle i) = Some (CKR_OK, Some s2) \<and>
    pe_peer E (p11_socket_path s0) = Some (recv0, writable) \<and>
    fst (lc_request_identities (pe_text E) (connection recv0 writable)) = Inr raw \<and>
    j < length raw \<and> usable_identity (pe_base64 E) (raw ! j) \<and>
    i = length (filter (usable_identity (pe_base64 E)) (take j raw)) \<and>
    b64_decode (pe_base64 E) (id_public_key (raw ! j)) = Some (pi_public_key (p11_identities s0 ! i)) \<and>
    c_sign E' (Some s2) (Some s2) 1 (Some d) n (Some buf) (Some len) =
      ((rv, sig', Some len', write_frame (as_bytes (json_to_string (pe_text E') (local_request 1 ''sign_request''
         (sign_payload (pe_base64 E') j (pi_public_key (p11_identities s0 ! i)) d))))), Some s3) \<and>
    (rv = CKR_OK \<and> len' = 64 \<and> (\<exists>sg. length sg = 64 \<and> sig' = Some (sg @ drop 64 buf) \<and>
       fst (lc_sign (pe_text E') (pe_base64 E') j (pi_public_key (p11_identities s0 ! i)) d (connection recv True)) = Inr sg) \<or>
     rv = CKR_DEVICE_ERROR \<and> len' = len \<and> sig' = Some buf \<and>
       (\<forall>sg. fst (lc_sign (pe_text E') (pe_base64 E') j (pi_public_key (p11_identities s0 ! i)) d (connection recv True)) =
          Inr sg \<longrightarrow> length sg \<noteq> 64))"
proof -
  obtain recv0 writable raw where raw: "pe_peer E (p11_socket_path s0) = Some (recv0, writable)"
      "fst (lc_request_identities (pe_text E) (connection recv0 writable)) = Inr raw"
    and ids: "p11_identities s0 = import_identities (pe_base64 E) raw" and init: "p11_initialized s0"
    using c_initialize_OkD [OF assms(1)] by blast
  define ident where "ident = p11_identities s0 ! i"
  obtain j where j: "j < length raw" "i = length (filter (usable_identity (pe_base64 E)) (take j raw))"
    and imp: "import_identity (pe_base64 E) (j, raw ! j) = Some ident"
    using import_position [of i "pe_base64 E" 0 raw] assms(2) ids by (auto simp: ident_def import_identities_def)
  note d = import_identity_SomeD [OF imp]
  have usable: "usable_identity (pe_base64 E) (raw ! j)" using import_identity_usable imp by blast
  define s1 where "s1 = s0\<lparr>p11_session_open := True, p11_session_handle := 1\<rparr>"
  define s2 where "s2 = s1\<lparr>p11_sign_op := Some \<lparr>so_key_handle = priv_handle i, so_mechanism = CKM_EDDSA\<rparr>\<rparr>"
  have 1: "c_open_session (Some s0) (Some s0) 0 flags (Some h) = Some ((CKR_OK, Some 1), Some s1)"
    using assms(4) init by (simp add: c_open_session_def is_initialized_def s1_def)
  have 2: "c_sign_init (Some s1) (Some s1) 1 (Some \<lparr>mechanism = CKM_EDDSA\<rparr>) (priv_handle i) = Some (CKR_OK, Some s2)"
    using assms(2) init handle_decode(1) [OF assms(3)]
    by (simp add: c_sign_init_def is_initialized_def s1_def s2_def session_valid_def)
  obtain rv sig' len' sent where sw:
    "sign_with E' (pi_public_key ident) (pi_index ident) (p11_socket_path s0) d (Some buf) len = (rv, sig', len', sent)"
    by (metis prod_cases4)
  have 3: "c_sign E' (Some s2) (Some s2) 1 (Some d) n (Some buf) (Some len) =
      ((rv, sig', Some len', sent), Some (s2\<lparr>p11_sign_op := None\<rparr>))"
    using assms(2,8) init handle_decode(1) [OF assms(3)] sw
    by (simp add: c_sign_def take_sign_op_def is_initialized_def s1_def s2_def session_valid_def ident_def)
  have 4: "sent = write_frame (as_bytes (json_to_string (pe_text E') (local_request 1 ''sign_request''
      (sign_payload (pe_base64 E') (pi_index ident) (pi_public_key ident) d))))"
    using sign_with_sent [OF assms(5,6), of "pi_public_key ident" "pi_index ident" d buf] sw by simp
  have index: "pi_index ident = j" using imp by (auto simp: import_identity_def split: if_splits option.splits)
  note 5 = sign_with_outcome [OF sw assms(6,5), unfolded index]
  from raw j usable d 1 2 3 5 show ?thesis unfolding 4 index unfolding ident_def by blast
qed

text \<open>A run of the module: the avatar's list starts with an RSA key, and the signature has 64 nines.\<close>

lemma sample_sign:
  "fst (lc_sign p11_text toy_base64 j k d (connection (write_frame (as_bytes ''s'')) True)) = Inr (replicate 64 9)"
proof -
  let ?c = "connection (write_frame (as_bytes ''s'')) True"
  obtain c' where "lc_request p11_text ''sign_request'' (sign_payload toy_base64 j k d) ?c = (check_response 1 signature_doc, c')"
    using sample_answer(2) [of ?c "''sign_request''" "sign_payload toy_base64 j k d"]
    by (metis prod.collapse local_client.select_convs)
  then show ?thesis using toy_base64_laws
    by (simp add: lc_sign_def check_docs jget_json_object get_str_def base64_laws_def)
qed

theorem signing_end_to_end_witness:
  "\<exists>s1 s2 s3 len'.
    c_open_session (Some p11_sample_state) (Some p11_sample_state) 0 4 (Some 0) = Some ((CKR_OK, Some 1), Some s1) \<and>
    c_sign_init (Some s1) (Some s1) 1 (Some \<lparr>mechanism = CKM_EDDSA\<rparr>) (priv_handle 0) = Some (CKR_OK, Some s2) \<and>
    c_sign (p11_sample_env ''s'') (Some s2) (Some s2) 1 (Some [1, 2, 3]) 3 (Some (replicate 64 0)) (Some 64) =
      ((CKR_OK, Some (replicate 64 9), Some len', write_frame (as_bytes ''q'')), Some s3)"
proof -
  have env: "pe_text (p11_sample_env t) = p11_text" "pe_base64 (p11_sample_env t) = toy_base64"
    "pe_peer (p11_sample_env t) path = Some (write_frame (as_bytes t), True)" for t path
    by (simp_all add: p11_sample_env_def)
  have print: "json_to_string p11_text v = ''q''" for v by (simp add: p11_text_def)
  have "0 < length (p11_identities p11_sample_state)" "4 AND CKF_SERIAL_SESSION \<noteq> 0"
    by (simp_all add: p11_sample_state_def CKF_SERIAL_SESSION_def)
  from signing_end_to_end [OF sample_initialize this(1) _ this(2) env(3) [where t = "''s''"],
      where len = 64 and buf = "replicate 64 0" and n = 3 and d = "[1, 2, 3]" and h = 0]
  show ?thesis unfolding env print sample_sign by fastforce
qed

text \<open>
  C24. Asking \<open>C_Sign\<close> for the signature length, or passing a short buffer, ends the operation:
  the caller gets the length 64, but the signing call that should follow fails with
  \<open>CKR_OPERATION_NOT_INITIALIZED\<close>. The PKCS#11 convention would keep the operation active.
\<close>

theorem size_query_ends_operation:
  assumes "p11_initialized s" and "session_valid s session" and "p11_sign_op s = Some op"
    and "handle_to_identity_index (so_key_handle op) = Some (i, PrivateKey)" and "i < length (p11_identities s)"
    and "sig = None \<or> len < 64"
  shows "c_sign E (Some s) (Some s) session (Some d) n sig (Some len) =
      ((if sig = None then CKR_OK else CKR_BUFFER_TOO_SMALL, sig, Some 64, []), Some (s\<lparr>p11_sign_op := None\<rparr>)) \<and>
    fst (fst (c_sign E (Some (s\<lparr>p11_sign_op := None\<rparr>)) (Some (s\<lparr>p11_sign_op := None\<rparr>)) session (Some d) n
      (Some buf) (Some 64))) = CKR_OPERATION_NOT_INITIALIZED"
  using assms
  by (auto simp: c_sign_def take_sign_op_def is_initialized_def session_valid_def sign_with_def
      ED25519_SIG_LEN_def split: option.splits)

theorem size_query_ends_operation_witness:
  "c_sign (p11_sample_env ''s'')
     (Some (p11_sample_state\<lparr>p11_session_open := True, p11_session_handle := 1,
        p11_sign_op := Some \<lparr>so_key_handle = 1, so_mechanism = CKM_EDDSA\<rparr>\<rparr>))
     (Some (p11_sample_state\<lparr>p11_session_open := True, p11_session_handle := 1,
        p11_sign_op := Some \<lparr>so_key_handle = 1, so_mechanism = CKM_EDDSA\<rparr>\<rparr>)) 1 (Some [1]) 1 None (Some 0) =
   ((CKR_OK, None, Some 64, []), Some (p11_sample_state\<lparr>p11_session_open := True, p11_session_handle := 1\<rparr>))"
  using size_query_ends_operation
    [of "p11_sample_state\<lparr>p11_session_open := True, p11_session_handle := 1,
        p11_sign_op := Some \<lparr>so_key_handle = 1, so_mechanism = CKM_EDDSA\<rparr>\<rparr>" 1
      "\<lparr>so_key_handle = 1, so_mechanism = CKM_EDDSA\<rparr>" 0 None 0 "p11_sample_env ''s''" "[1]" 1]
  by (simp add: p11_sample_state_def session_valid_def handle_to_identity_index_def)

end
