(* ===== verification/Service_Clients.thy ===== *)
theory Service_Clients
  imports Bridge
begin

text \<open>
  The local side of km-ssh-sa and km-nostr-sa (\<open>handle_connection\<close> in
  crates/km-ssh-sa/src/ssh_agent.rs, \<open>handle_client\<close> in crates/km-nostr-sa/src/main.rs): many
  client connections, each a task of its own, put their requests into one channel to the main
  loop and wait for the reply on a channel made for that request. A reply channel is a ticket,
  the number of its request. Shown: the routing of replies, that no client waits for ever, and
  that Nostr connections do not disturb each other.
\<close>

section \<open>Clients and the main loop\<close>

text \<open>
  What a connection does with a message: which request it makes of the main loop, if any, and
  what it writes back, for the reply or without one.
\<close>

record ('m, 'req, 'rep) local_protocol =
  lp_read :: "bytes \<Rightarrow> ('m \<times> bytes) option"
  lp_asks :: "'m \<Rightarrow> 'req option"
  lp_answer :: "'m \<Rightarrow> 'rep option \<Rightarrow> bytes"
  lp_times_out :: bool

text \<open>A connection: all that its client writes, what is not read yet, what was written back.\<close>

record 'm client =
  co_sent :: bytes
  co_rest :: bytes
  co_output :: bytes
  co_waits :: "(nat \<times> 'm) option"

record ('s, 'm, 'req, 'rep) sa_programs =
  sa_bridge :: "('s, 'req, 'rep) bridge"
  sa_queue :: "(nat \<times> 'req) list"
  sa_next :: nat
  sa_clients :: "nat \<Rightarrow> 'm client option"

datatype 's sa_event = Opens nat bytes | Reads nat | Ends nat | TimesOut nat | Connects "'s option" | Serves

definition set_client ::
    "nat \<Rightarrow> 'm client option \<Rightarrow> ('s, 'm, 'req, 'rep) sa_programs \<Rightarrow> ('s, 'm, 'req, 'rep) sa_programs" where
  "set_client k c s = s\<lparr>sa_clients := (sa_clients s)(k := c)\<rparr>"

text \<open>
  The next message of a connection that does not wait. With the channel full its request is
  not taken before the main loop has made room.
\<close>

definition CHANNEL_SIZE :: nat where
  "CHANNEL_SIZE = 32"

definition client_reads ::
    "('m, 'req, 'rep) local_protocol \<Rightarrow> nat \<Rightarrow> 'm client \<Rightarrow> ('s, 'm, 'req, 'rep) sa_programs \<Rightarrow>
      ('s, 'm, 'req, 'rep) sa_programs option" where
  "client_reads lp k c s =
     (case lp_read lp (co_rest c) of
        None \<Rightarrow> None
      | Some (m, rest) \<Rightarrow>
          (case lp_asks lp m of
             None \<Rightarrow> Some (set_client k (Some (c\<lparr>co_rest := rest, co_output := co_output c @ lp_answer lp m None\<rparr>)) s)
           | Some r \<Rightarrow>
               if length (sa_queue s) < CHANNEL_SIZE
               then Some (set_client k (Some (c\<lparr>co_rest := rest, co_waits := Some (sa_next s, m)\<rparr>))
                 (s\<lparr>sa_queue := sa_queue s @ [(sa_next s, r)], sa_next := sa_next s + 1\<rparr>))
               else None))"

text \<open>A reply goes to the connection that still waits for it, if there is one.\<close>

definition deliver :: "('m, 'req, 'rep) local_protocol \<Rightarrow> nat \<Rightarrow> 'rep \<Rightarrow> 'm client \<Rightarrow> 'm client" where
  "deliver lp t reply c =
     (case co_waits c of
        Some (t', m) \<Rightarrow>
          if t' = t then c\<lparr>co_output := co_output c @ lp_answer lp m (Some reply), co_waits := None\<rparr> else c
      | None \<Rightarrow> c)"

definition main_serves ::
    "json_text \<Rightarrow> 's peer \<Rightarrow> ('req, 'rep) service \<Rightarrow> ('m, 'req, 'rep) local_protocol \<Rightarrow>
      ('s, 'm, 'req, 'rep) sa_programs \<Rightarrow> ('s, 'm, 'req, 'rep) sa_programs option" where
  "main_serves J peer sv lp s =
     (case sa_queue s of
        [] \<Rightarrow> None
      | (t, r) # q \<Rightarrow>
          map_option (\<lambda>b. s\<lparr>sa_bridge := b, sa_queue := q,
              sa_clients := \<lambda>k. map_option (deliver lp t (snd (last (br_replies b)))) (sa_clients s k)\<rparr>)
            (bridge_step J peer sv (sa_bridge s) (Requested r)))"

text \<open>\<open>None\<close> for an event that cannot happen.\<close>

fun sa_step ::
    "json_text \<Rightarrow> 's peer \<Rightarrow> ('req, 'rep) service \<Rightarrow> ('m, 'req, 'rep) local_protocol \<Rightarrow>
      ('s, 'm, 'req, 'rep) sa_programs \<Rightarrow> 's sa_event \<Rightarrow> ('s, 'm, 'req, 'rep) sa_programs option" where
  "sa_step J peer sv lp s (Opens k input) =
     (if sa_clients s k = None
      then Some (set_client k (Some \<lparr>co_sent = input, co_rest = input, co_output = [], co_waits = None\<rparr>) s) else None)"
| "sa_step J peer sv lp s (Reads k) =
     (case sa_clients s k of
        Some c \<Rightarrow> if co_waits c = None then client_reads lp k c s else None
      | None \<Rightarrow> None)"
| "sa_step J peer sv lp s (Ends k) =
     (case sa_clients s k of
        Some c \<Rightarrow> if co_waits c = None \<and> lp_read lp (co_rest c) = None then Some (set_client k None s) else None
      | None \<Rightarrow> None)"
| "sa_step J peer sv lp s (TimesOut k) =
     (case sa_clients s k of
        Some c \<Rightarrow>
          (case co_waits c of
             Some (t, m) \<Rightarrow> if lp_times_out lp
               then Some (set_client k (Some (c\<lparr>co_output := co_output c @ lp_answer lp m None, co_waits := None\<rparr>)) s)
               else None
           | None \<Rightarrow> None)
      | None \<Rightarrow> None)"
| "sa_step J peer sv lp s (Connects outcome) =
     map_option (\<lambda>b. s\<lparr>sa_bridge := b\<rparr>)
       (bridge_step J peer sv (sa_bridge s) (case outcome of None \<Rightarrow> Refused | Some st \<Rightarrow> Accepted st))"
| "sa_step J peer sv lp s Serves = main_serves J peer sv lp s"

fun sa_run ::
    "json_text \<Rightarrow> 's peer \<Rightarrow> ('req, 'rep) service \<Rightarrow> ('m, 'req, 'rep) local_protocol \<Rightarrow>
      ('s, 'm, 'req, 'rep) sa_programs \<Rightarrow> 's sa_event list \<Rightarrow> ('s, 'm, 'req, 'rep) sa_programs option" where
  "sa_run J peer sv lp s [] = Some s"
| "sa_run J peer sv lp s (e # es) = Option.bind (sa_step J peer sv lp s e) (\<lambda>s'. sa_run J peer sv lp s' es)"

definition sa_init :: "('s, 'm, 'req, 'rep) sa_programs" where
  "sa_init = \<lparr>sa_bridge = bridge_init, sa_queue = [], sa_next = 0, sa_clients = \<lambda>_. None\<rparr>"

section \<open>The two protocols\<close>

text \<open>An SSH agent connection waits for a reply for 30 seconds.\<close>

definition agent_asks :: "bytes \<Rightarrow> agent_request option" where
  "agent_asks payload =
     (if payload ! 0 = SSH_AGENTC_REQUEST_IDENTITIES then Some RequestIdentities
      else if payload ! 0 = SSH_AGENTC_SIGN_REQUEST then parse_sign_request (drop 1 payload)
      else None)"

definition ssh_local :: "(bytes, agent_request, agent_reply) local_protocol" where
  "ssh_local = \<lparr>lp_read = \<lambda>s. ok_of (read_frame AGENT_LIMIT s), lp_asks = agent_asks,
     lp_answer = \<lambda>payload reply. write_frame (agent_message
       (\<lambda>_. case reply of None \<Rightarrow> ReplyTimeout | Some rep \<Rightarrow> Replied rep) payload),
     lp_times_out = True\<rparr>"

text \<open>A Nostr client connection waits for its reply without a timeout.\<close>

definition nostr_local :: "nostr_lib \<Rightarrow> (json, client_request, json_rpc_response) local_protocol" where
  "nostr_local L = \<lparr>lp_read = read_framed_message (nl_text L), lp_asks = client_request_of,
     lp_answer = \<lambda>msg reply. (case client_answer
         (\<lambda>_. case reply of None \<Rightarrow> RequestDropped | Some rep \<Rightarrow> ClientReply rep) msg of
       None \<Rightarrow> [] | Some v \<Rightarrow> write_framed_message (nl_text L) v),
     lp_times_out = False\<rparr>"

section \<open>The contract of a protocol\<close>

text \<open>
  A client connection on its own, with a function for the main loop (as in \<open>Ssh_Agent\<close> and
  \<open>Nostr_Sa\<close>), does the same with each message.
\<close>

locale local_server =
  fixes lp :: "('m, 'req, 'rep) local_protocol"
    and loop :: "('req \<Rightarrow> 'rep) \<Rightarrow> bytes \<Rightarrow> bytes"
  assumes loop_reads: "lp_read lp s = Some (m, rest) \<Longrightarrow>
      loop f s = lp_answer lp m (map_option f (lp_asks lp m)) @ loop f rest"
begin

text \<open>
  When each reply is a function of its request, a connection among others is the connection on
  its own.
\<close>

lemma interleaved_as_alone:
  "decode_many (lp_read lp) (length log) s = Some (map fst log, rest) \<Longrightarrow>
     \<forall>(m, reply) \<in> set log. reply = map_option f (lp_asks lp m) \<Longrightarrow>
     loop f s = concat (map (\<lambda>(m, reply). lp_answer lp m reply) log) @ loop f rest"
proof (induction log arbitrary: s)
  case (Cons e log)
  obtain m reply where e: "e = (m, reply)" by fastforce
  with Cons.prems(1) obtain s1 where "lp_read lp s = Some (m, s1)"
    "decode_many (lp_read lp) (length log) s1 = Some (map fst log, rest)"
    by (auto split: option.splits)
  with Cons e loop_reads show ?case by auto
qed simp

end

lemma agent_message_asks:
  "agent_message (\<lambda>r. Replied (f r)) payload = agent_message
     (\<lambda>_. case map_option f (agent_asks payload) of None \<Rightarrow> ReplyTimeout | Some rep \<Rightarrow> Replied rep) payload"
  by (auto simp: agent_message_def agent_asks_def Let_def split: option.split)

interpretation ssh_clients: local_server ssh_local "\<lambda>f. agent_connection (\<lambda>r. Replied (f r))"
proof unfold_locales
  fix s m rest and f :: "agent_request \<Rightarrow> agent_reply"
  assume "lp_read ssh_local s = Some (m, rest)"
  then have "agent_turn (\<lambda>r. Replied (f r)) s =
      Some (lp_answer ssh_local m (map_option f (lp_asks ssh_local m)), rest)"
    by (simp add: ssh_local_def agent_turn_def ok_of_def agent_message_asks [of f] split: sum.splits)
  then show "agent_connection (\<lambda>r. Replied (f r)) s =
      lp_answer ssh_local m (map_option f (lp_asks ssh_local m)) @ agent_connection (\<lambda>r. Replied (f r)) rest"
    by (subst agent_connection.simps) simp
qed

interpretation nostr_clients: local_server "nostr_local L" "\<lambda>f. handle_client L (\<lambda>r. ClientReply (f r))" for L
proof unfold_locales
  fix s m rest and f :: "client_request \<Rightarrow> json_rpc_response"
  assume "lp_read (nostr_local L) s = Some (m, rest)"
  then have "read_framed_message (nl_text L) s = Some (m, rest)" by (simp add: nostr_local_def)
  then show "handle_client L (\<lambda>r. ClientReply (f r)) s =
      lp_answer (nostr_local L) m (map_option f (lp_asks (nostr_local L) m)) @ handle_client L (\<lambda>r. ClientReply (f r)) rest"
    by (subst handle_client.simps) (auto simp: nostr_local_def client_answer_def split: option.splits)
qed

section \<open>Routing\<close>

text \<open>
  A log of messages and the replies they were answered with: what it says of the bytes that
  were read from and written to a connection. A message that waits for its reply is read but
  not in the log.
\<close>

definition transcript ::
    "('m, 'req, 'rep) local_protocol \<Rightarrow> 'm client \<Rightarrow> ('m \<times> 'rep option) list \<Rightarrow> bool" where
  "transcript lp c log \<longleftrightarrow>
     (case co_waits c of
        None \<Rightarrow> decode_many (lp_read lp) (length log) (co_sent c) = Some (map fst log, co_rest c)
      | Some (_, m) \<Rightarrow> decode_many (lp_read lp) (Suc (length log)) (co_sent c) = Some (map fst log @ [m], co_rest c)) \<and>
     co_output c = concat (map (\<lambda>(m, reply). lp_answer lp m reply) log)"

definition waits_for :: "('s, 'm, 'req, 'rep) sa_programs \<Rightarrow> nat \<Rightarrow> nat \<Rightarrow> 'm \<Rightarrow> bool" where
  "waits_for s k t m \<longleftrightarrow> (\<exists>c. sa_clients s k = Some c \<and> co_waits c = Some (t, m))"

text \<open>
  Event \<open>j\<close> of the run \<open>es\<close> answered message \<open>m\<close> of connection \<open>k\<close>. Without a reply: the message
  made no request and was read, or it waited and timed out. With a reply: the message waited for
  the request that the main loop took from the channel, and this is the reply that the bridge
  made of that request, in its state at that moment.
\<close>

definition answered_at ::
    "json_text \<Rightarrow> 's peer \<Rightarrow> ('req, 'rep) service \<Rightarrow> ('m, 'req, 'rep) local_protocol \<Rightarrow> 's sa_event list \<Rightarrow>
      nat \<Rightarrow> 'm \<Rightarrow> 'rep option \<Rightarrow> nat \<Rightarrow> bool" where
  "answered_at J peer sv lp es k m reply j \<longleftrightarrow>
     (\<exists>s. j < length es \<and> sa_run J peer sv lp sa_init (take j es) = Some s \<and>
        (case reply of
           None \<Rightarrow> es ! j = Reads k \<and> lp_asks lp m = None \<or> es ! j = TimesOut k \<and> (\<exists>t. waits_for s k t m)
         | Some rep \<Rightarrow> es ! j = Serves \<and>
             (\<exists>t r queue b. waits_for s k t m \<and> lp_asks lp m = Some r \<and> sa_queue s = (t, r) # queue \<and>
                bridge_step J peer sv (sa_bridge s) (Requested r) = Some b \<and>
                br_replies b = br_replies (sa_bridge s) @ [(r, rep)])))"

text \<open>The log of each connection, with the events that answered; no event answers two messages.\<close>

type_synonym ('m, 'rep) client_log = "('m \<times> 'rep option \<times> nat) list"

definition log_answers :: "('m, 'rep) client_log \<Rightarrow> ('m \<times> 'rep option) list" where
  "log_answers log = map (\<lambda>(m, reply, j). (m, reply)) log"

definition log_events :: "('m, 'rep) client_log \<Rightarrow> nat list" where
  "log_events log = map (\<lambda>(m, reply, j). j) log"

definition routed_client ::
    "json_text \<Rightarrow> 's peer \<Rightarrow> ('req, 'rep) service \<Rightarrow> ('m, 'req, 'rep) local_protocol \<Rightarrow> 's sa_event list \<Rightarrow>
      nat \<Rightarrow> 'm client option \<Rightarrow> ('m, 'rep) client_log \<Rightarrow> bool" where
  "routed_client J peer sv lp es k c log \<longleftrightarrow>
     (\<forall>(m, reply, j) \<in> set log. answered_at J peer sv lp es k m reply j) \<and> sorted_wrt (<) (log_events log) \<and>
     (case c of None \<Rightarrow> log = [] | Some c \<Rightarrow> transcript lp c (log_answers log))"

definition routed ::
    "json_text \<Rightarrow> 's peer \<Rightarrow> ('req, 'rep) service \<Rightarrow> ('m, 'req, 'rep) local_protocol \<Rightarrow> 's sa_event list \<Rightarrow>
      ('s, 'm, 'req, 'rep) sa_programs \<Rightarrow> (nat \<Rightarrow> ('m, 'rep) client_log) \<Rightarrow> bool" where
  "routed J peer sv lp es s log \<longleftrightarrow>
     (\<forall>k. routed_client J peer sv lp es k (sa_clients s k) (log k)) \<and>
     (\<forall>k k'. k \<noteq> k' \<longrightarrow> set (log_events (log k)) \<inter> set (log_events (log k')) = {})"

text \<open>Each waiting connection has a request in the channel, with a ticket no other waits for.\<close>

definition waiting_ok :: "('m, 'req, 'rep) local_protocol \<Rightarrow> (nat \<Rightarrow> nat \<Rightarrow> 'm \<Rightarrow> bool) \<Rightarrow> (nat \<times> 'req) list \<Rightarrow> bool" where
  "waiting_ok lp W queue \<longleftrightarrow>
     (\<forall>k t m. W k t m \<longrightarrow> (\<exists>r. lp_asks lp m = Some r \<and> (t, r) \<in> set queue)) \<and>
     (\<forall>k k' t m m'. W k t m \<longrightarrow> W k' t m' \<longrightarrow> k = k')"

definition tickets_ok :: "('m, 'req, 'rep) local_protocol \<Rightarrow> ('s, 'm, 'req, 'rep) sa_programs \<Rightarrow> bool" where
  "tickets_ok lp s \<longleftrightarrow>
     map fst (sa_queue s) = [length (br_replies (sa_bridge s))..<sa_next s] \<and>
     length (br_replies (sa_bridge s)) + length (sa_queue s) = sa_next s \<and> length (sa_queue s) \<le> CHANNEL_SIZE \<and>
     waiting_ok lp (waits_for s) (sa_queue s)"

lemma waiting_ok_mono: "waiting_ok lp W queue \<Longrightarrow> (\<And>k t m. W' k t m \<Longrightarrow> W k t m) \<Longrightarrow> waiting_ok lp W' queue"
  unfolding waiting_ok_def by metis

lemma waiting_ok_taken:
  assumes "waiting_ok lp W queue" and "lp_asks lp m = Some r" and "t \<notin> fst ` set queue"
  shows "waiting_ok lp (\<lambda>k' t' m'. if k' = k then t' = t \<and> m' = m else W k' t' m') (queue @ [(t, r)])"
proof -
  have "\<not> W k' t m'" for k' m' using assms(1,3) unfolding waiting_ok_def by force
  with assms(1,2) show ?thesis unfolding waiting_ok_def by (simp add: Ball_def) metis
qed

lemma waiting_ok_served:
  assumes "waiting_ok lp W ((t, r) # queue)" and "\<And>k t' m. W' k t' m \<Longrightarrow> W k t' m \<and> t' \<noteq> t"
  shows "waiting_ok lp W' queue"
  unfolding waiting_ok_def
proof (intro conjI allI impI)
  fix k t' m assume "W' k t' m"
  with assms show "\<exists>r. lp_asks lp m = Some r \<and> (t', r) \<in> set queue" unfolding waiting_ok_def by fastforce
next
  fix k k' t' m m' assume "W' k t' m" "W' k' t' m'"
  with assms show "k = k'" unfolding waiting_ok_def by metis
qed

lemma waits_for_set_client:
  "waits_for (set_client k' c s) k t m \<longleftrightarrow>
     (if k = k' then (\<exists>c'. c = Some c' \<and> co_waits c' = Some (t, m)) else waits_for s k t m)"
  by (auto simp: waits_for_def set_client_def)

lemma tickets_distinct: "tickets_ok lp s \<Longrightarrow> distinct (map fst (sa_queue s))"
  by (simp add: tickets_ok_def)

lemma bridge_step_request:
  "bridge_step J peer sv b (Requested r) = Some b' \<Longrightarrow> \<exists>reply. br_replies b' = br_replies b @ [(r, reply)]"
  by (auto simp: bridge_step_def bridge_serve_def reconnect_def Let_def split: phase.splits prod.splits if_splits)

lemma bridge_step_other:
  "bridge_step J peer sv b e = Some b' \<Longrightarrow> (\<And>r. e \<noteq> Requested r) \<Longrightarrow> br_replies b' = br_replies b"
  by (auto simp: bridge_step_def bridge_connected_def reconnect_def
      split: phase.splits bridge_event.splits prod.splits handshake.splits)

lemma sa_run_append:
  "sa_run J peer sv lp s es = Some s1 \<Longrightarrow> sa_run J peer sv lp s (es @ es') = sa_run J peer sv lp s1 es'"
  by (induction es arbitrary: s) (auto simp: bind_eq_Some_conv simp del: sa_step.simps)

lemma sa_run_snoc:
  "sa_run J peer sv lp s (es @ [e]) = Option.bind (sa_run J peer sv lp s es) (\<lambda>s1. sa_step J peer sv lp s1 e)"
  by (induction es arbitrary: s) (simp_all del: sa_step.simps)

text \<open>The step at an index of a run.\<close>

lemma sa_run_nth:
  "sa_run J peer sv lp s es = Some s' \<Longrightarrow> j < length es \<Longrightarrow>
     \<exists>s1 s2. sa_run J peer sv lp s (take j es) = Some s1 \<and> sa_step J peer sv lp s1 (es ! j) = Some s2 \<and>
       sa_run J peer sv lp s2 (drop (Suc j) es) = Some s'"
proof (induction es arbitrary: s j)
  case (Cons e es)
  then show ?case by (cases j) (auto simp: bind_eq_Some_conv simp del: sa_step.simps)
qed simp

text \<open>The tickets.\<close>

lemma tickets_kept:
  assumes "tickets_ok lp s" and "sa_queue s' = sa_queue s" and "sa_next s' = sa_next s"
    and "br_replies (sa_bridge s') = br_replies (sa_bridge s)"
    and "\<And>k t m. waits_for s' k t m \<Longrightarrow> waits_for s k t m"
  shows "tickets_ok lp s'"
  using assms waiting_ok_mono [of lp "waits_for s" "sa_queue s" "waits_for s'"] by (simp add: tickets_ok_def)

lemma tickets_taken:
  assumes "tickets_ok lp s" and "lp_asks lp m = Some r" and "length (sa_queue s) < CHANNEL_SIZE"
  shows "tickets_ok lp (set_client k (Some (c\<lparr>co_rest := rest, co_waits := Some (sa_next s, m)\<rparr>))
    (s\<lparr>sa_queue := sa_queue s @ [(sa_next s, r)], sa_next := sa_next s + 1\<rparr>))" (is "tickets_ok lp ?s")
proof -
  have waits: "waits_for ?s = (\<lambda>k' t' m'. if k' = k then t' = sa_next s \<and> m' = m else waits_for s k' t' m')"
    by (auto simp: fun_eq_iff waits_for_def set_client_def)
  have "sa_next s \<notin> fst ` set (sa_queue s)"
    using assms(1) by (simp add: tickets_ok_def flip: list.set_map)
  then have "waiting_ok lp (waits_for ?s) (sa_queue s @ [(sa_next s, r)])"
    unfolding waits using assms(1,2) by (intro waiting_ok_taken) (simp_all add: tickets_ok_def)
  with assms(1,3) show ?thesis by (simp add: tickets_ok_def set_client_def)
qed

lemma co_waits_deliver:
  "co_waits (deliver lp t reply c) = Some (t', m) \<longleftrightarrow> co_waits c = Some (t', m) \<and> t' \<noteq> t"
  by (auto simp: deliver_def split: option.splits if_splits)

lemma tickets_served:
  assumes "tickets_ok lp s" and "main_serves J peer sv lp s = Some s'"
  shows "tickets_ok lp s'"
proof -
  obtain t r q b where queue: "sa_queue s = (t, r) # q" and b: "bridge_step J peer sv (sa_bridge s) (Requested r) = Some b"
    and s': "s' = s\<lparr>sa_bridge := b, sa_queue := q,
      sa_clients := \<lambda>k. map_option (deliver lp t (snd (last (br_replies b)))) (sa_clients s k)\<rparr>"
    using assms(2) by (auto simp: main_serves_def split: list.splits)
  obtain reply where reps: "br_replies b = br_replies (sa_bridge s) @ [(r, reply)]" using bridge_step_request [OF b] by blast
  have waits: "waits_for s k t' m \<and> t' \<noteq> t" if "waits_for s' k t' m" for k t' m
    using that by (auto simp: waits_for_def s' co_waits_deliver)
  have "waiting_ok lp (waits_for s) ((t, r) # q)" using assms(1) queue by (simp add: tickets_ok_def)
  from waiting_ok_served [OF this waits] have "waiting_ok lp (waits_for s') q" .
  moreover have "map fst q = [Suc (length (br_replies (sa_bridge s)))..<sa_next s]"
    using assms(1) queue upt_conv_Cons [of "length (br_replies (sa_bridge s))" "sa_next s"] by (simp add: tickets_ok_def)
  moreover have "Suc (length (br_replies (sa_bridge s)) + length q) = sa_next s" "length q \<le> CHANNEL_SIZE"
    using assms(1) queue by (simp_all add: tickets_ok_def)
  ultimately show ?thesis unfolding tickets_ok_def by (simp add: s' reps)
qed

text \<open>A step that leaves the connection \<open>k\<close> without a request in the channel.\<close>

lemma tickets_replace:
  assumes "tickets_ok lp s" and "\<And>c. c' = Some c \<Longrightarrow> co_waits c = None"
  shows "tickets_ok lp (set_client k c' s)"
proof -
  have "waits_for s k' t m" if "waits_for (set_client k c' s) k' t m" for k' t m
    using that assms(2) by (auto simp: waits_for_set_client split: if_splits)
  then show ?thesis by (intro tickets_kept [OF assms(1)]) (simp_all add: set_client_def)
qed

lemma tickets_step:
  assumes "tickets_ok lp s" and "sa_step J peer sv lp s e = Some s'"
  shows "tickets_ok lp s'"
proof (cases e)
  case (Reads k)
  then obtain c m rest where c: "sa_clients s k = Some c" "co_waits c = None" "lp_read lp (co_rest c) = Some (m, rest)"
    and reads: "client_reads lp k c s = Some s'"
    using assms(2) by (auto simp: client_reads_def split: option.splits if_splits)
  show ?thesis
  proof (cases "lp_asks lp m")
    case None
    with reads c show ?thesis by (auto simp: client_reads_def intro: tickets_replace [OF assms(1)])
  next
    case (Some r)
    with reads c tickets_taken [OF assms(1) Some] show ?thesis by (auto simp: client_reads_def split: if_splits)
  qed
next
  case (Connects outcome)
  then obtain b where b: "bridge_step J peer sv (sa_bridge s) (case outcome of None \<Rightarrow> Refused | Some st \<Rightarrow> Accepted st) = Some b"
    and s': "s' = s\<lparr>sa_bridge := b\<rparr>" using assms(2) by auto
  have "br_replies b = br_replies (sa_bridge s)" by (rule bridge_step_other [OF b]) (simp split: option.split)
  then show ?thesis by (intro tickets_kept [OF assms(1)]) (simp_all add: s' waits_for_def)
next
  case Serves
  with assms(2) tickets_served [OF assms(1)] show ?thesis by auto
qed (use assms in \<open>auto intro!: tickets_replace split: option.splits if_splits\<close>)

lemma tickets_run: "tickets_ok lp s \<Longrightarrow> sa_run J peer sv lp s es = Some s' \<Longrightarrow> tickets_ok lp s'"
  by (induction es arbitrary: s) (auto simp: bind_eq_Some_conv intro: tickets_step simp del: sa_step.simps)

lemma tickets_init: "tickets_ok lp sa_init"
  by (simp add: sa_init_def tickets_ok_def bridge_init_def waits_for_def waiting_ok_def)

text \<open>The logs. What a run has answered stays answered when it goes on.\<close>

lemma answered_at_later: "answered_at J peer sv lp es k m reply j \<Longrightarrow> answered_at J peer sv lp (es @ es') k m reply j"
  by (cases reply) (auto simp: answered_at_def nth_append)

lemma answered_at_less: "answered_at J peer sv lp es k m reply j \<Longrightarrow> j < length es"
  by (auto simp: answered_at_def)

lemma routed_client_later:
  "routed_client J peer sv lp es k c log \<Longrightarrow> routed_client J peer sv lp (es @ es') k c log"
  unfolding routed_client_def using answered_at_later by fast

lemma routed_client_events:
  "routed_client J peer sv lp es k c log \<Longrightarrow> j \<in> set (log_events log) \<Longrightarrow> j < length es"
  by (auto simp: routed_client_def log_events_def dest: answered_at_less)

lemma routed_client_snoc:
  assumes "routed_client J peer sv lp es k c log" and "answered_at J peer sv lp (es @ [e]) k m reply (length es)"
    and "transcript lp c' (log_answers log @ [(m, reply)])"
  shows "routed_client J peer sv lp (es @ [e]) k (Some c') (log @ [(m, reply, length es)])"
proof -
  have "\<forall>j \<in> set (log_events log). j < length es" using routed_client_events [OF assms(1)] by blast
  with routed_client_later [OF assms(1), of "[e]"] assms(2,3) show ?thesis
    by (auto simp: routed_client_def log_events_def log_answers_def sorted_wrt_append)
qed

lemma transcript_answer:
  assumes "transcript lp c log"
    and "co_waits c = None \<and> lp_read lp (co_rest c) = Some (m, rest) \<or> (\<exists>t. co_waits c = Some (t, m) \<and> rest = co_rest c)"
  shows "transcript lp (c\<lparr>co_rest := rest, co_output := co_output c @ lp_answer lp m reply, co_waits := None\<rparr>)
    (log @ [(m, reply)])"
  using assms by (auto simp: transcript_def dest!: decode_many_snoc simp del: decode_many.simps)

lemma deliver_waiting:
  "co_waits c = Some (t, m) \<Longrightarrow> deliver lp t reply c =
     c\<lparr>co_rest := co_rest c, co_output := co_output c @ lp_answer lp m (Some reply), co_waits := None\<rparr>"
  by (simp add: deliver_def)

lemma deliver_other: "(\<And>m. co_waits c \<noteq> Some (t, m)) \<Longrightarrow> deliver lp t reply c = c"
  by (auto simp: deliver_def split: option.split)

lemma deliver_nobody:
  "(\<And>m. \<not> waits_for s k t m) \<Longrightarrow> map_option (deliver lp t reply) (sa_clients s k) = sa_clients s k"
  by (cases "sa_clients s k") (auto simp: waits_for_def intro: deliver_other)

text \<open>An event of one connection.\<close>

lemma routed_replace:
  assumes "routed J peer sv lp es s log" and "sa_clients s' = (sa_clients s)(k := c')"
    and "routed_client J peer sv lp (es @ [e]) k c' l"
    and "set (log_events l) \<subseteq> insert (length es) (set (log_events (log k)))"
  shows "routed J peer sv lp (es @ [e]) s' (log(k := l))"
proof -
  have old: "routed_client J peer sv lp es k' (sa_clients s k') (log k')" for k' using assms(1) by (simp add: routed_def)
  then have "length es \<notin> set (log_events (log k'))" for k' using routed_client_events by blast
  with assms(1,4) have "set (log_events l) \<inter> set (log_events (log k')) = {}" if "k' \<noteq> k" for k'
    using that unfolding routed_def by blast
  then have "set (log_events ((log(k := l)) k1)) \<inter> set (log_events ((log(k := l)) k2)) = {}" if "k1 \<noteq> k2" for k1 k2
    using that assms(1) unfolding routed_def by (simp add: inf_commute)
  moreover have "routed_client J peer sv lp (es @ [e]) k' (sa_clients s' k') ((log(k := l)) k')" for k'
    using assms(2,3) routed_client_later [OF old] by simp
  ultimately show ?thesis unfolding routed_def by blast
qed

lemma routed_same:
  assumes "routed J peer sv lp es s log" and "sa_clients s' = sa_clients s"
  shows "routed J peer sv lp (es @ [e]) s' log"
  using assms routed_client_later unfolding routed_def by (metis (no_types))

lemma routed_read:
  assumes "routed J peer sv lp es s log" and "sa_run J peer sv lp sa_init es = Some s"
    and "sa_clients s k = Some c" and "co_waits c = None" and "client_reads lp k c s = Some s'"
  shows "\<exists>log'. routed J peer sv lp (es @ [Reads k]) s' log'"
proof -
  have old: "routed_client J peer sv lp es k (Some c) (log k)" using assms(1,3) by (metis routed_def)
  then have tr: "transcript lp c (log_answers (log k))" by (simp add: routed_client_def)
  obtain m rest where m: "lp_read lp (co_rest c) = Some (m, rest)"
    using assms(5) by (auto simp: client_reads_def split: option.splits)
  show ?thesis
  proof (cases "lp_asks lp m")
    case None
    let ?c = "c\<lparr>co_rest := rest, co_output := co_output c @ lp_answer lp m None, co_waits := None\<rparr>"
    have "answered_at J peer sv lp (es @ [Reads k]) k m None (length es)"
      using assms(2) None by (simp add: answered_at_def)
    from routed_client_snoc [OF old this, of ?c] transcript_answer [OF tr, of m rest None] assms(4) m
    have new: "routed_client J peer sv lp (es @ [Reads k]) k (Some ?c) (log k @ [(m, None, length es)])" by simp
    have "?c = c\<lparr>co_rest := rest, co_output := co_output c @ lp_answer lp m None\<rparr>" by (simp add: assms(4))
    then have "sa_clients s' = (sa_clients s)(k := Some ?c)"
      using assms(5) m None by (auto simp: client_reads_def set_client_def)
    from routed_replace [OF assms(1) this new] show ?thesis by (auto simp: log_events_def)
  next
    case (Some r)
    let ?c = "c\<lparr>co_rest := rest, co_waits := Some (sa_next s, m)\<rparr>"
    have "transcript lp ?c (log_answers (log k))"
    proof -
      have "decode_many (lp_read lp) (length (log_answers (log k))) (co_sent c) = Some (map fst (log_answers (log k)), co_rest c)"
        using tr assms(4) by (simp add: transcript_def)
      from decode_many_snoc [OF this m] tr show ?thesis by (simp add: transcript_def assms(4) del: decode_many.simps)
    qed
    with routed_client_later [OF old] have "routed_client J peer sv lp (es @ [Reads k]) k (Some ?c) (log k)"
      by (simp add: routed_client_def)
    moreover have "sa_clients s' = (sa_clients s)(k := Some ?c)"
      using assms(5) m Some by (auto simp: client_reads_def set_client_def split: if_splits)
    ultimately show ?thesis using routed_replace [OF assms(1)] by blast
  qed
qed

text \<open>The main loop serves a request: the connection that waits for it has one more reply.\<close>

lemma routed_serves:
  assumes "routed J peer sv lp es s log" and "sa_run J peer sv lp sa_init es = Some s" and "tickets_ok lp s"
    and "main_serves J peer sv lp s = Some s'"
  shows "\<exists>log'. routed J peer sv lp (es @ [Serves]) s' log'"
proof -
  obtain t r q b where queue: "sa_queue s = (t, r) # q" and b: "bridge_step J peer sv (sa_bridge s) (Requested r) = Some b"
    and s': "s' = s\<lparr>sa_bridge := b, sa_queue := q,
      sa_clients := \<lambda>k. map_option (deliver lp t (snd (last (br_replies b)))) (sa_clients s k)\<rparr>"
    using assms(4) by (auto simp: main_serves_def split: list.splits)
  obtain reply where reps: "br_replies b = br_replies (sa_bridge s) @ [(r, reply)]" using bridge_step_request [OF b] by blast
  show ?thesis
  proof (cases "\<exists>k m. waits_for s k t m")
    case True
    then obtain k m c where waits: "waits_for s k t m" and c: "sa_clients s k = Some c" "co_waits c = Some (t, m)"
      by (auto simp: waits_for_def)
    have only: "k' = k" if "waits_for s k' t m'" for k' m'
      using assms(3) waits that unfolding tickets_ok_def waiting_ok_def by blast
    obtain r' where "lp_asks lp m = Some r'" "(t, r') \<in> set (sa_queue s)"
      using assms(3) waits unfolding tickets_ok_def waiting_ok_def by blast
    moreover have "t \<notin> fst ` set q" using tickets_distinct [OF assms(3)] queue by simp
    ultimately have asks: "lp_asks lp m = Some r" using queue by force
    have old: "routed_client J peer sv lp es k (Some c) (log k)" using assms(1) c(1) by (metis routed_def)
    then have tr: "transcript lp c (log_answers (log k))" by (simp add: routed_client_def)
    have "answered_at J peer sv lp (es @ [Serves]) k m (Some reply) (length es)"
      using assms(2) waits asks queue b reps by (auto simp: answered_at_def)
    from routed_client_snoc [OF old this] transcript_answer [OF tr, of m "co_rest c" "Some reply"] c(2)
    have new: "routed_client J peer sv lp (es @ [Serves]) k (Some (deliver lp t reply c)) (log k @ [(m, Some reply, length es)])"
      unfolding deliver_waiting [OF c(2)] by blast
    have "map_option (deliver lp t reply) (sa_clients s k') = sa_clients s k'" if "k' \<noteq> k" for k'
      using that only by (intro deliver_nobody) blast
    then have "sa_clients s' = (sa_clients s)(k := Some (deliver lp t reply c))" by (auto simp: s' reps c(1))
    from routed_replace [OF assms(1) this new] show ?thesis by (auto simp: log_events_def)
  next
    case False
    then have "map_option (deliver lp t reply) (sa_clients s k') = sa_clients s k'" for k'
      by (intro deliver_nobody) blast
    then have "sa_clients s' = sa_clients s" by (auto simp: s' reps)
    with routed_same [OF assms(1)] show ?thesis by blast
  qed
qed

lemma routed_step:
  assumes "routed J peer sv lp es s log" and "sa_run J peer sv lp sa_init es = Some s" and "tickets_ok lp s"
    and "sa_step J peer sv lp s e = Some s'"
  shows "\<exists>log'. routed J peer sv lp (es @ [e]) s' log'"
proof (cases e)
  case (Opens k input)
  let ?c = "\<lparr>co_sent = input, co_rest = input, co_output = [], co_waits = None\<rparr>"
  have "routed_client J peer sv lp (es @ [e]) k (Some ?c) []"
    by (simp add: routed_client_def log_events_def log_answers_def transcript_def)
  moreover have "sa_clients s' = (sa_clients s)(k := Some ?c)"
    using assms(4) Opens by (auto simp: set_client_def split: if_splits)
  ultimately show ?thesis using routed_replace [OF assms(1)] by (fastforce simp: log_events_def)
next
  case (Reads k)
  with assms(4) routed_read [OF assms(1,2)] show ?thesis by (auto split: option.splits if_splits)
next
  case (Ends k)
  have "routed_client J peer sv lp (es @ [e]) k None []" by (simp add: routed_client_def log_events_def)
  moreover have "sa_clients s' = (sa_clients s)(k := None)"
    using assms(4) Ends by (auto simp: set_client_def split: option.splits if_splits)
  ultimately show ?thesis using routed_replace [OF assms(1)] by (fastforce simp: log_events_def)
next
  case (TimesOut k)
  then obtain c t m where c: "sa_clients s k = Some c" "co_waits c = Some (t, m)"
    and s': "s' = set_client k (Some (c\<lparr>co_output := co_output c @ lp_answer lp m None, co_waits := None\<rparr>)) s"
    using assms(4) by (auto split: option.splits if_splits)
  let ?c = "c\<lparr>co_rest := co_rest c, co_output := co_output c @ lp_answer lp m None, co_waits := None\<rparr>"
  have old: "routed_client J peer sv lp es k (Some c) (log k)" using assms(1) c(1) by (metis routed_def)
  then have tr: "transcript lp c (log_answers (log k))" by (simp add: routed_client_def)
  have "answered_at J peer sv lp (es @ [e]) k m None (length es)"
    using assms(2) c TimesOut by (auto simp: answered_at_def waits_for_def)
  from routed_client_snoc [OF old this, of ?c] transcript_answer [OF tr, of m "co_rest c" None] c(2)
  have new: "routed_client J peer sv lp (es @ [e]) k (Some ?c) (log k @ [(m, None, length es)])" by blast
  have "sa_clients s' = (sa_clients s)(k := Some ?c)" by (simp add: s' set_client_def)
  from routed_replace [OF assms(1) this new] show ?thesis by (auto simp: log_events_def)
next
  case (Connects outcome)
  then have "sa_clients s' = sa_clients s" using assms(4) by auto
  with routed_same [OF assms(1)] show ?thesis by blast
next
  case Serves
  with assms(4) routed_serves [OF assms(1-3)] show ?thesis by auto
qed

lemma run_routed:
  "sa_run J peer sv lp sa_init es = Some s \<Longrightarrow> tickets_ok lp s \<and> (\<exists>log. routed J peer sv lp es s log)"
proof (induction es arbitrary: s rule: rev_induct)
  case Nil
  have "routed J peer sv lp [] sa_init (\<lambda>_. [])"
    by (simp add: routed_def routed_client_def log_events_def sa_init_def)
  with Nil tickets_init show ?case by auto
next
  case (snoc e es)
  then obtain s1 where s1: "sa_run J peer sv lp sa_init es = Some s1" "sa_step J peer sv lp s1 e = Some s"
    unfolding sa_run_snoc bind_eq_Some_conv by blast
  from snoc.IH [OF s1(1)] obtain log where "tickets_ok lp s1" "routed J peer sv lp es s1 log" by blast
  with routed_step [OF _ s1(1) _ s1(2)] tickets_step [OF _ s1(2)] show ?case by blast
qed

section \<open>The bridge under the clients\<close>

definition connects_only :: "('s \<Rightarrow> bool) \<Rightarrow> 's sa_event list \<Rightarrow> bool" where
  "connects_only P es \<longleftrightarrow> (\<forall>st. Connects (Some st) \<in> set es \<longrightarrow> P st)"

lemma sa_step_bridge:
  assumes "sa_step J peer sv lp s e = Some s'"
  shows "\<exists>bes. bridge_run J peer sv (sa_bridge s) bes = Some (sa_bridge s') \<and> (\<forall>st. Accepted st \<in> set bes \<longrightarrow> e = Connects (Some st))"
proof (cases "(\<exists>outcome. e = Connects outcome) \<or> e = Serves")
  case True
  let ?be = "case e of Connects None \<Rightarrow> Refused | Connects (Some st) \<Rightarrow> Accepted st | _ \<Rightarrow> Requested (snd (hd (sa_queue s)))"
  have "bridge_step J peer sv (sa_bridge s) ?be = Some (sa_bridge s')"
    using True assms by (auto simp: main_serves_def split: list.splits option.splits)
  moreover have "?be = Accepted st \<Longrightarrow> e = Connects (Some st)" for st
    by (simp split: sa_event.splits option.splits)
  ultimately show ?thesis by (intro exI [of _ "[?be]"]) auto
next
  case False
  with assms have "sa_bridge s' = sa_bridge s"
    by (cases e) (auto simp: set_client_def client_reads_def split: option.splits if_splits)
  then show ?thesis by (intro exI [of _ "[]"]) simp
qed

lemma bridge_run_append:
  "bridge_run J peer sv b es = Some b1 \<Longrightarrow> bridge_run J peer sv b (es @ es') = bridge_run J peer sv b1 es'"
  by (induction es arbitrary: b) (auto simp: bind_eq_Some_conv)

text \<open>What holds of the bridge after all its own runs holds of it under its clients.\<close>

lemma sa_run_bridge:
  assumes "sa_run J peer sv lp s es = Some s'" and "connects_only P es"
  shows "\<exists>bes. bridge_run J peer sv (sa_bridge s) bes = Some (sa_bridge s') \<and> accepts_only P bes"
  using assms
proof (induction es arbitrary: s)
  case Nil
  then show ?case by (intro exI [of _ "[]"]) (simp add: accepts_only_def)
next
  case (Cons e es)
  then obtain s1 where s1: "sa_step J peer sv lp s e = Some s1" "sa_run J peer sv lp s1 es = Some s'"
    by (auto simp: bind_eq_Some_conv)
  obtain bes1 where bes1: "bridge_run J peer sv (sa_bridge s) bes1 = Some (sa_bridge s1)"
    "\<And>st. Accepted st \<in> set bes1 \<Longrightarrow> e = Connects (Some st)" using sa_step_bridge [OF s1(1)] by blast
  obtain bes2 where "bridge_run J peer sv (sa_bridge s1) bes2 = Some (sa_bridge s')" "accepts_only P bes2"
    using Cons.IH [OF s1(2)] Cons.prems(2) by (auto simp: connects_only_def)
  with bes1 Cons.prems(2) show ?case
    by (intro exI [of _ "bes1 @ bes2"]) (auto simp: bridge_run_append accepts_only_def connects_only_def)
qed

text \<open>Replies are never taken back.\<close>

lemma replies_step:
  assumes "sa_step J peer sv lp s e = Some s'"
  shows "set (br_replies (sa_bridge s)) \<subseteq> set (br_replies (sa_bridge s'))"
proof (cases e)
  case (Connects outcome)
  then obtain b where b: "bridge_step J peer sv (sa_bridge s) (case outcome of None \<Rightarrow> Refused | Some st \<Rightarrow> Accepted st) = Some b"
    and s': "s' = s\<lparr>sa_bridge := b\<rparr>" using assms by auto
  have "br_replies b = br_replies (sa_bridge s)" by (rule bridge_step_other [OF b]) (simp split: option.split)
  then show ?thesis by (simp add: s')
next
  case Serves
  with assms show ?thesis by (auto simp: main_serves_def split: list.splits dest!: bridge_step_request)
qed (use assms in \<open>auto simp: set_client_def client_reads_def split: option.splits if_splits\<close>)

lemma replies_run:
  "sa_run J peer sv lp s es = Some s' \<Longrightarrow> set (br_replies (sa_bridge s)) \<subseteq> set (br_replies (sa_bridge s'))"
  by (induction es arbitrary: s) (auto simp: bind_eq_Some_conv simp del: sa_step.simps dest!: replies_step)

text \<open>Each answer with a reply belongs to a request that the main loop served then.\<close>

lemma routed_reply:
  assumes "routed J peer sv lp es s log" and "sa_run J peer sv lp sa_init es = Some s"
    and "(m, Some reply, j) \<in> set (log k)"
  shows "\<exists>s0 t r queue b. j < length es \<and> es ! j = Serves \<and> sa_run J peer sv lp sa_init (take j es) = Some s0 \<and>
    waits_for s0 k t m \<and> lp_asks lp m = Some r \<and> sa_queue s0 = (t, r) # queue \<and>
    bridge_step J peer sv (sa_bridge s0) (Requested r) = Some b \<and> br_replies b = br_replies (sa_bridge s0) @ [(r, reply)] \<and>
    (r, reply) \<in> set (br_replies (sa_bridge s))"
proof -
  have "answered_at J peer sv lp es k m (Some reply) j"
    using assms(1,3) by (fastforce simp: routed_def routed_client_def)
  then obtain s0 t r queue b where at: "j < length es" "es ! j = Serves" "sa_run J peer sv lp sa_init (take j es) = Some s0"
    "waits_for s0 k t m" "lp_asks lp m = Some r" "sa_queue s0 = (t, r) # queue"
    "bridge_step J peer sv (sa_bridge s0) (Requested r) = Some b" "br_replies b = br_replies (sa_bridge s0) @ [(r, reply)]"
    by (auto simp: answered_at_def)
  from sa_run_nth [OF assms(2) at(1)] at obtain s2 where s2: "sa_step J peer sv lp s0 Serves = Some s2"
    and rest: "sa_run J peer sv lp s2 (drop (Suc j) es) = Some s" by auto
  from s2 at have "sa_bridge s2 = b" by (auto simp: main_serves_def)
  with replies_run [OF rest] at show ?thesis by (auto intro!: exI [of _ s0] exI [of _ t] exI [of _ r])
qed

text \<open>Only a protocol with a timeout answers a request without a reply.\<close>

lemma routed_no_reply:
  assumes "routed J peer sv lp es s log" and "sa_run J peer sv lp sa_init es = Some s"
    and "(m, None, j) \<in> set (log k)" and "lp_asks lp m \<noteq> None"
  shows "lp_times_out lp"
proof -
  have "answered_at J peer sv lp es k m None j"
    using assms(1,3) by (fastforce simp: routed_def routed_client_def)
  with assms(4) obtain s0 where at: "j < length es" "es ! j = TimesOut k" "sa_run J peer sv lp sa_init (take j es) = Some s0"
    by (auto simp: answered_at_def)
  from sa_run_nth [OF assms(2) at(1)] at obtain s2 where "sa_step J peer sv lp s0 (TimesOut k) = Some s2" by auto
  then show ?thesis by (auto split: option.splits if_splits)
qed

text \<open>One client, one request: the run behind the samples.\<close>

lemma one_client_run:
  assumes "bridge_run J peer sv bridge_init [Accepted st, Requested r] = Some b" and "br_replies b = [(r, reply)]"
    and "lp_read lp input = Some (m, [])" and "lp_asks lp m = Some r"
  shows "sa_run J peer sv lp sa_init [Opens 0 input, Reads 0, Connects (Some st), Serves] =
    Some \<lparr>sa_bridge = b, sa_queue = [], sa_next = 1,
      sa_clients = [0 \<mapsto> \<lparr>co_sent = input, co_rest = [], co_output = lp_answer lp m (Some reply), co_waits = None\<rparr>]\<rparr>"
proof -
  obtain b1 where b: "bridge_step J peer sv bridge_init (Accepted st) = Some b1" "bridge_step J peer sv b1 (Requested r) = Some b"
    using assms(1) by (auto simp: bind_eq_Some_conv)
  show ?thesis
    by (simp add: sa_init_def set_client_def client_reads_def assms(2-4) main_serves_def CHANNEL_SIZE_def b deliver_def fun_eq_iff)
qed

text \<open>The log of a connection with one message, which has been answered.\<close>

lemma transcript_one:
  assumes "transcript lp c log" and "co_waits c = None" and "lp_read lp (co_sent c) = Some (m, [])"
    and "lp_read lp [] = None" and "co_output c \<noteq> []"
  shows "\<exists>reply. log = [(m, reply)] \<and> co_output c = lp_answer lp m reply"
proof (cases log)
  case Nil
  with assms show ?thesis by (simp add: transcript_def)
next
  case (Cons e es)
  with assms have "es = []" "fst e = m" by (cases es; auto simp: transcript_def split: option.splits)+
  with Cons assms show ?thesis by (cases e) (simp add: transcript_def)
qed

lemma signed_answer:
  assumes "lp_answer ssh_local m reply = write_frame (build_sign_response sig kt)"
    and "agent_asks m = Some (SignRequest key d flags)"
  shows "\<exists>sig' kt'. reply = Some (Signed (Some sig') kt')"
proof -
  have "lp_answer ssh_local m reply ! 4 = SSH_AGENT_SIGN_RESPONSE"
    by (simp add: assms(1) write_frame_def u32_to_be_bytes_def build_sign_response_def Let_def)
  then show ?thesis using assms(2)
    by (auto simp: ssh_local_def agent_asks_def agent_message_def sign_response_def write_frame_def u32_to_be_bytes_def
        SSH_AGENT_FAILURE_def SSH_AGENT_SIGN_RESPONSE_def split: if_splits option.splits agent_reply.splits agent_outcome.splits)
qed

text \<open>
  With replies that depend on the request alone, and no timeouts, a connection among others is
  the connection on its own.
\<close>

context local_server
begin

lemma routed_as_alone:
  assumes "routed J peer sv lp es s log" and "sa_run J peer sv lp sa_init es = Some s"
    and "sa_clients s k = Some c" and "co_waits c = None" and "\<not> lp_times_out lp"
    and "\<And>r reply. (r, reply) \<in> set (br_replies (sa_bridge s)) \<Longrightarrow> reply = f r"
  shows "loop f (co_sent c) = co_output c @ loop f (co_rest c)"
proof -
  let ?log = "log_answers (log k)"
  have client: "routed_client J peer sv lp es k (Some c) (log k)" using assms(1,3) by (metis routed_def)
  have "reply = map_option f (lp_asks lp m)" if entry: "(m, reply) \<in> set ?log" for m reply
  proof -
    obtain j where j: "(m, reply, j) \<in> set (log k)" using entry by (auto simp: log_answers_def)
    show ?thesis
    proof (cases reply)
      case None
      with routed_no_reply [OF assms(1,2), of m j k] j assms(5) None show ?thesis by (cases "lp_asks lp m") auto
    next
      case (Some rep)
      with routed_reply [OF assms(1,2), of m rep j k] j obtain r where "lp_asks lp m = Some r"
        "(r, rep) \<in> set (br_replies (sa_bridge s))" by blast
      with assms(6) Some show ?thesis by simp
    qed
  qed
  moreover have "decode_many (lp_read lp) (length ?log) (co_sent c) = Some (map fst ?log, co_rest c)"
    and "co_output c = concat (map (\<lambda>(m, reply). lp_answer lp m reply) ?log)"
    using client assms(4) by (simp_all add: routed_client_def transcript_def)
  ultimately show ?thesis using interleaved_as_alone [of ?log "co_sent c" "co_rest c" f] by (simp add: split_beta)
qed

end

text \<open>
  Progress: with an avatar \<open>st\<close> whose handshake succeeds, the main loop empties the channel by
  connecting when it has to and serving, even when every exchange after the handshake fails.
\<close>

definition accepts_handshake :: "json_text \<Rightarrow> 's peer \<Rightarrow> ('req, 'rep) service \<Rightarrow> 's \<Rightarrow> bool" where
  "accepts_handshake J peer sv st \<longleftrightarrow>
     handshake_of (fst (send_and_receive J peer (st, []) (sv_connect sv))) = Established"

lemma bridge_step_running:
  "bridge_step J peer sv b e = Some b' \<Longrightarrow> e \<noteq> ChannelsClosed \<Longrightarrow> br_phase b' \<noteq> Stopped"
  by (auto simp: bridge_step_def bridge_connected_def bridge_serve_def reconnect_def Let_def
      split: phase.splits bridge_event.splits prod.splits handshake.splits if_splits)

lemma sa_step_running:
  assumes "sa_step J peer sv lp s e = Some s'" and "br_phase (sa_bridge s) \<noteq> Stopped"
  shows "br_phase (sa_bridge s') \<noteq> Stopped"
  using assms
  by (cases e) (auto simp: main_serves_def set_client_def client_reads_def
      split: option.splits if_splits list.splits dest!: bridge_step_running)

lemma sa_run_running:
  "sa_run J peer sv lp s es = Some s' \<Longrightarrow> br_phase (sa_bridge s) \<noteq> Stopped \<Longrightarrow> br_phase (sa_bridge s') \<noteq> Stopped"
  by (induction es arbitrary: s) (auto simp: bind_eq_Some_conv simp del: sa_step.simps dest: sa_step_running)

text \<open>One request, with at most one connection before it.\<close>

lemma serves_next:
  assumes "br_phase (sa_bridge s) \<noteq> Stopped" and "accepts_handshake J peer sv st" and "sa_queue s = x # q"
  shows "\<exists>es s'. set es \<subseteq> {Connects (Some st), Serves} \<and> length es \<le> 2 \<and> sa_run J peer sv lp s es = Some s' \<and> sa_queue s' = q"
proof -
  have serve: "\<exists>s'. sa_step J peer sv lp s Serves = Some s' \<and> sa_queue s' = q"
    if "br_phase (sa_bridge s) = Linked conn" "sa_queue s = x # q" for s :: "('a, 'd, 'b, 'c) sa_programs" and conn
    using that by (cases x) (simp add: main_serves_def bridge_step_def)
  show ?thesis
  proof (cases "br_phase (sa_bridge s)")
    case (Connecting d)
    let ?s1 = "s\<lparr>sa_bridge := bridge_connected J peer sv st (sa_bridge s)\<rparr>"
    have one: "sa_step J peer sv lp s (Connects (Some st)) = Some ?s1" using Connecting by (simp add: bridge_step_def)
    obtain conn where "br_phase (sa_bridge ?s1) = Linked conn"
      using assms(2) by (cases "send_and_receive J peer (st, []) (sv_connect sv)")
        (simp add: accepts_handshake_def bridge_connected_def)
    from serve [OF this] assms(3) obtain s' where "sa_step J peer sv lp ?s1 Serves = Some s'" "sa_queue s' = q" by auto
    with one show ?thesis by (intro exI [of _ "[Connects (Some st), Serves]"]) (simp del: sa_step.simps)
  next
    case (Linked conn)
    from serve [OF this assms(3)] show ?thesis by (intro exI [of _ "[Serves]"]) (auto simp del: sa_step.simps)
  qed (use assms(1) in simp)
qed

lemma channel_drains:
  assumes "accepts_handshake J peer sv st"
  shows "br_phase (sa_bridge s) \<noteq> Stopped \<Longrightarrow>
    \<exists>es s'. set es \<subseteq> {Connects (Some st), Serves} \<and> length es \<le> 2 * length (sa_queue s) \<and>
      sa_run J peer sv lp s es = Some s' \<and> sa_queue s' = []"
proof (induction "sa_queue s" arbitrary: s)
  case Nil
  then show ?case by (intro exI [of _ "[]"] exI [of _ s]) simp
next
  case (Cons x q)
  obtain es s1 where es: "set es \<subseteq> {Connects (Some st), Serves}" "length es \<le> 2" "sa_run J peer sv lp s es = Some s1" "sa_queue s1 = q"
    using serves_next [OF Cons.prems assms Cons.hyps(2) [symmetric]] by blast
  obtain es' s' where es': "set es' \<subseteq> {Connects (Some st), Serves}" "length es' \<le> 2 * length q"
    "sa_run J peer sv lp s1 es' = Some s'" "sa_queue s' = []"
    using Cons.hyps(1) [OF es(4) [symmetric] sa_run_running [OF es(3) Cons.prems]] es(4) by auto
  from es es' Cons.hyps(2) [symmetric] show ?case
    by (intro exI [of _ "es @ es'"] exI [of _ s']) (auto simp: sa_run_append [OF es(3)])
qed

lemma sa_run_serving:
  "sa_run J peer sv lp s es = Some s' \<Longrightarrow> set es \<subseteq> {Connects (Some st), Serves} \<Longrightarrow> sa_next s' = sa_next s"
proof (induction es arbitrary: s)
  case (Cons e es)
  then obtain s1 where s1: "sa_step J peer sv lp s e = Some s1" "sa_run J peer sv lp s1 es = Some s'"
    by (auto simp: bind_eq_Some_conv)
  then have "sa_next s1 = sa_next s" using Cons.prems(2) by (auto simp: main_serves_def split: list.splits)
  with Cons s1(2) show ?case by simp
qed simp

text \<open>The fate of a request that was taken: it stays in the channel until the main loop serves it.\<close>

definition taken :: "('s, 'm, 'req, 'rep) sa_programs \<Rightarrow> nat \<Rightarrow> 'req \<Rightarrow> bool" where
  "taken s t r \<longleftrightarrow>
     (if t < length (br_replies (sa_bridge s)) then fst (br_replies (sa_bridge s) ! t) = r else (t, r) \<in> set (sa_queue s))"

lemma taken_served:
  assumes "tickets_ok lp s" and "main_serves J peer sv lp s = Some s'" and "taken s t r"
  shows "taken s' t r"
proof -
  obtain t0 r0 q b where queue: "sa_queue s = (t0, r0) # q" and b: "bridge_step J peer sv (sa_bridge s) (Requested r0) = Some b"
    and s': "sa_bridge s' = b" "sa_queue s' = q"
    using assms(2) by (auto simp: main_serves_def split: list.splits)
  obtain reply where "br_replies b = br_replies (sa_bridge s) @ [(r0, reply)]" using bridge_step_request [OF b] by blast
  moreover have "t0 \<notin> fst ` set q" using queue tickets_distinct [OF assms(1)] by simp
  moreover have "t0 = length (br_replies (sa_bridge s))"
    using assms(1) queue by (auto simp: tickets_ok_def upt_conv_Cons)
  ultimately show ?thesis using assms(3) queue by (force simp: taken_def s' nth_append less_Suc_eq split: if_splits)
qed

lemma taken_step:
  assumes "tickets_ok lp s" and "sa_step J peer sv lp s e = Some s'" and "taken s t r"
  shows "taken s' t r"
proof (cases e)
  case (Connects outcome)
  then obtain b where "bridge_step J peer sv (sa_bridge s) (case outcome of None \<Rightarrow> Refused | Some st \<Rightarrow> Accepted st) = Some b"
    and s': "s' = s\<lparr>sa_bridge := b\<rparr>" using assms(2) by auto
  from bridge_step_other [OF this(1)] have "br_replies b = br_replies (sa_bridge s)" by (simp split: option.splits)
  with assms(3) show ?thesis by (simp add: taken_def s')
next
  case Serves
  with assms taken_served [of lp s] show ?thesis by simp
qed (use assms(2,3) in \<open>auto simp: taken_def set_client_def client_reads_def split: option.splits if_splits\<close>)

lemma taken_run:
  "tickets_ok lp s \<Longrightarrow> sa_run J peer sv lp s es = Some s' \<Longrightarrow> taken s t r \<Longrightarrow> taken s' t r"
  by (induction es arbitrary: s)
    (auto simp: bind_eq_Some_conv simp del: sa_step.simps intro: tickets_step taken_step)

text \<open>A ticket that nobody waits for and that was given out stays so.\<close>

lemma waits_for_old:
  assumes "sa_step J peer sv lp s e = Some s'" and "waits_for s' k t m" and "t < sa_next s"
  shows "waits_for s k t m"
  using assms by (cases e) (auto simp: waits_for_def set_client_def client_reads_def main_serves_def co_waits_deliver
      split: option.splits if_splits list.splits)

lemma sa_next_mono: "sa_step J peer sv lp s e = Some s' \<Longrightarrow> sa_next s \<le> sa_next s'"
  by (cases e) (auto simp: set_client_def client_reads_def main_serves_def split: option.splits if_splits list.splits)

lemma abandoned_run:
  "sa_run J peer sv lp s es = Some s' \<Longrightarrow> t < sa_next s \<Longrightarrow> (\<And>k m. \<not> waits_for s k t m) \<Longrightarrow> \<not> waits_for s' k t m"
proof (induction es arbitrary: s)
  case (Cons e es)
  then obtain s1 where s1: "sa_step J peer sv lp s e = Some s1" "sa_run J peer sv lp s1 es = Some s'"
    by (auto simp: bind_eq_Some_conv)
  show ?case
    by (rule Cons.IH [OF s1(2)]) (use Cons.prems(2,3) waits_for_old [OF s1(1)] sa_next_mono [OF s1(1)] in fastforce)+
qed simp

section \<open>Properties\<close>

text \<open>
  C28. Many clients at once: in every run of a service avatar with any number of connections, each
  connection has read its messages in order and got exactly one answer for each of them, but for
  one it still waits with. Each answer was given by an event of the run of its own: a message
  that makes no request when it was read; a message that waited and whose wait timed out; or, with
  a reply, the main loop serving the request of that very message, taken from the channel while
  the connection waited for it, and the bytes written are those of the reply that the bridge made
  of that request then. No event answers two messages. A connection that waits has its request
  in the channel, under a ticket of its own. Requests are served in the order they were taken,
  none is lost and none is served twice: the channel holds those taken and not served, at most 32.
\<close>

theorem replies_reach_their_clients:
  assumes "sa_run J peer sv lp sa_init es = Some s"
  shows "(\<exists>log. routed J peer sv lp es s log) \<and>
    (\<forall>k t m. waits_for s k t m \<longrightarrow> (\<exists>r. lp_asks lp m = Some r \<and> (t, r) \<in> set (sa_queue s))) \<and>
    (\<forall>k k' t m m'. waits_for s k t m \<longrightarrow> waits_for s k' t m' \<longrightarrow> k = k') \<and>
    map fst (sa_queue s) = [length (br_replies (sa_bridge s))..<sa_next s] \<and> length (sa_queue s) \<le> CHANNEL_SIZE"
  using run_routed [OF assms] unfolding tickets_ok_def waiting_ok_def by blast

definition identities_frame :: bytes where
  "identities_frame = write_frame [SSH_AGENTC_REQUEST_IDENTITIES]"

lemma identities_read:
  "lp_read ssh_local identities_frame = Some ([SSH_AGENTC_REQUEST_IDENTITIES], [])"
  "lp_asks ssh_local [SSH_AGENTC_REQUEST_IDENTITIES] = Some RequestIdentities"
  using read_write_frame [of "[SSH_AGENTC_REQUEST_IDENTITIES]" AGENT_LIMIT "[]"]
  by (simp_all add: ssh_local_def identities_frame_def ok_of_def AGENT_LIMIT_def agent_asks_def)

lemma connect_line:
  "read_line_message (toy_text (encode_response connect_ok)) decode_response (as_bytes ''x'' @ [0x0A]) = Inr (connect_ok, [])"
  by (rule toy_response_line)
    (simp add: wire_response_def connect_ok_def response_success_def json_of_nat_def wire_opt_def json_object_def map_of_entries_def)

text \<open>An avatar that answers the handshake and then closes.\<close>

abbreviation "mute_step \<equiv> bridge_step (toy_text (encode_response connect_ok)) mute_peer (ssh_service toy_base64 ''n'')"
abbreviation "mute_run \<equiv> sa_run (toy_text (encode_response connect_ok)) mute_peer (ssh_service toy_base64 ''n'') ssh_local"

lemma mute_steps:
  "\<exists>b1 b2. mute_step bridge_init (Accepted 1) = Some b1 \<and> mute_step b1 (Requested RequestIdentities) = Some b2 \<and>
     map fst (br_replies b2) = [RequestIdentities]"
  using connect_line by (simp add: bridge_step_def bridge_init_def bridge_connected_def send_and_receive_def mute_peer_def
      handshake_of_def connect_ok_def response_success_def ssh_service_def bridge_serve_def reconnect_def Let_def
      split: prod.split)

lemma agent_answer_not_empty: "lp_answer ssh_local m reply \<noteq> []"
  by (simp add: ssh_local_def write_frame_def u32_to_be_bytes_def)

abbreviation two_clients_run :: "nat sa_event list" where
  "two_clients_run \<equiv>
     [Opens 0 identities_frame, Opens 1 identities_frame, Reads 0, Connects (Some 1), Reads 1, TimesOut 1, Serves]"

lemma two_agent_clients:
  "\<exists>s. mute_run sa_init two_clients_run = Some s \<and> sa_next s = 2 \<and> length (br_replies (sa_bridge s)) = 1 \<and>
     (\<forall>k \<in> {0, 1}. \<exists>c. sa_clients s k = Some c \<and> co_sent c = identities_frame \<and> co_waits c = None \<and> co_output c \<noteq> [])"
proof -
  obtain b1 b2 where b: "mute_step bridge_init (Accepted 1) = Some b1" "mute_step b1 (Requested RequestIdentities) = Some b2"
      "map fst (br_replies b2) = [RequestIdentities]" using mute_steps by (elim exE conjE) (rule that)
  then have len: "length (br_replies b2) = 1" by (metis length_map length_Cons list.size(3) One_nat_def)
  have times: "lp_times_out ssh_local" by (simp add: ssh_local_def)
  show ?thesis
    by (simp add: sa_init_def set_client_def client_reads_def identities_read times main_serves_def CHANNEL_SIZE_def b
        deliver_def agent_answer_not_empty len del: One_nat_def)
qed

lemma one_abandoned_client:
  "\<exists>s s1 s2. mute_run sa_init [Opens 0 identities_frame, Reads 0] = Some s \<and>
     waits_for s 0 0 [SSH_AGENTC_REQUEST_IDENTITIES] \<and>
     sa_step (toy_text (encode_response connect_ok)) mute_peer (ssh_service toy_base64 ''n'') ssh_local s (TimesOut 0) = Some s1 \<and>
     mute_run s1 [Connects (Some 1), Serves] = Some s2 \<and> length (br_replies (sa_bridge s2)) = 1"
proof -
  obtain b1 b2 where b: "mute_step bridge_init (Accepted 1) = Some b1" "mute_step b1 (Requested RequestIdentities) = Some b2"
      "map fst (br_replies b2) = [RequestIdentities]" using mute_steps by (elim exE conjE) (rule that)
  then have len: "length (br_replies b2) = 1" by (metis length_map length_Cons list.size(3) One_nat_def)
  have times: "lp_times_out ssh_local" by (simp add: ssh_local_def)
  show ?thesis
    by (simp add: sa_init_def set_client_def client_reads_def identities_read times main_serves_def CHANNEL_SIZE_def b len
        waits_for_def del: One_nat_def)
qed

text \<open>Two connections: one is served, the other gives up before.\<close>

theorem replies_reach_their_clients_witness:
  "\<exists>s log (rep :: agent_reply). mute_run sa_init two_clients_run = Some s \<and>
     log (0 :: nat) = [([SSH_AGENTC_REQUEST_IDENTITIES], Some rep, 6 :: nat)] \<and> log 1 = [([SSH_AGENTC_REQUEST_IDENTITIES], None, 5)] \<and>
     map fst (sa_queue s) = [1]"
proof -
  let ?m = "[SSH_AGENTC_REQUEST_IDENTITIES]" and ?J = "toy_text (encode_response connect_ok)"
  let ?sv = "ssh_service toy_base64 ''n''"
  obtain s where s: "mute_run sa_init two_clients_run = Some s" "sa_next s = 2" "length (br_replies (sa_bridge s)) = 1"
    and clients: "\<forall>k \<in> {0, 1}. \<exists>c. sa_clients s k = Some c \<and> co_sent c = identities_frame \<and> co_waits c = None \<and> co_output c \<noteq> []"
    using two_agent_clients by blast
  from replies_reach_their_clients [OF s(1)] obtain log where log: "routed ?J mute_peer ?sv ssh_local two_clients_run s log"
    and queue: "map fst (sa_queue s) = [1]" by (auto simp: s(2,3) upt_rec)
  have entry: "\<exists>reply j. log k = [(?m, reply, j)] \<and> answered_at ?J mute_peer ?sv ssh_local two_clients_run k ?m reply j"
    if "k \<in> {0, 1}" for k
  proof -
    obtain c where c: "sa_clients s k = Some c" "co_sent c = identities_frame" "co_waits c = None" "co_output c \<noteq> []"
      using clients \<open>k \<in> {0, 1}\<close> by blast
    have r: "routed_client ?J mute_peer ?sv ssh_local two_clients_run k (Some c) (log k)" using log c(1) by (metis routed_def)
    have "lp_read ssh_local [] = None" by (simp add: ssh_local_def read_frame_def read_exact_def)
    with transcript_one [of ssh_local c "log_answers (log k)" ?m] r c identities_read(1)
    obtain reply where "log_answers (log k) = [(?m, reply)]" by (auto simp: routed_client_def)
    then obtain j where "log k = [(?m, reply, j)]" by (auto simp: log_answers_def)
    with r show ?thesis by (auto simp: routed_client_def)
  qed
  obtain rep0 j0 where e0: "log 0 = [(?m, rep0, j0)]" "answered_at ?J mute_peer ?sv ssh_local two_clients_run 0 ?m rep0 j0"
    using entry [of 0] by auto
  obtain rep1 j1 where e1: "log 1 = [(?m, rep1, j1)]" "answered_at ?J mute_peer ?sv ssh_local two_clients_run 1 ?m rep1 j1"
    using entry [of 1] by auto
  have at: "j < 7 \<and> (case reply of None \<Rightarrow> two_clients_run ! j = TimesOut k | Some _ \<Rightarrow> two_clients_run ! j = Serves)"
    if "answered_at ?J mute_peer ?sv ssh_local two_clients_run k ?m reply j" for k reply j
    using that identities_read(2) by (cases reply) (auto simp: answered_at_def)
  have where_in: "j \<in> {0, 1, 2, 3, 4, 5, 6}" if "j < 7" for j :: nat using that by auto
  have "rep0 \<noteq> None \<and> j0 = 6" using at [OF e0(2)] where_in [of j0] by (cases rep0) auto
  moreover have "set (log_events (log 0)) \<inter> set (log_events (log 1)) = {}"
    using log unfolding routed_def by (metis zero_neq_one)
  then have "j1 \<noteq> j0" unfolding e0(1) e1(1) by (simp add: log_events_def)
  moreover have "rep1 = None \<and> j1 = 5 \<or> j1 = 6" using at [OF e1(2)] where_in [of j1] by (cases rep1) auto
  ultimately obtain rep where "rep0 = Some rep" "j0 = 6" "rep1 = None" "j1 = 5" by blast
  with s(1) e0(1) e1(1) queue show ?thesis by (intro exI [of _ s] exI [of _ log] exI [of _ rep]) (simp del: sa_run.simps)
qed

text \<open>
  C29. No client waits for ever: in any state of a service avatar with its clients, the main loop
  can go on so that every connection that waits is answered, with one exchange for each request
  in the channel and at most one new connection before each, provided that an avatar takes the
  connections and accepts the handshake. The exchanges themselves may all fail: a client then
  gets the failure reply, and its request is not sent again.
\<close>

theorem waiting_clients_get_answers:
  assumes "sa_run J peer sv lp sa_init es = Some s" and "accepts_handshake J peer sv st"
  shows "\<exists>es' s'. set es' \<subseteq> {Connects (Some st), Serves} \<and> length es' \<le> 2 * length (sa_queue s) \<and>
    sa_run J peer sv lp s es' = Some s' \<and> (\<forall>k t m. \<not> waits_for s' k t m) \<and>
    length (br_replies (sa_bridge s')) = length (br_replies (sa_bridge s)) + length (sa_queue s)"
proof -
  have "br_phase (sa_bridge s) \<noteq> Stopped"
    using sa_run_running [OF assms(1)] by (simp add: sa_init_def bridge_init_def)
  from channel_drains [OF assms(2) this] obtain es' s' where run: "set es' \<subseteq> {Connects (Some st), Serves}"
    "length es' \<le> 2 * length (sa_queue s)" "sa_run J peer sv lp s es' = Some s'" "sa_queue s' = []" by blast
  have ok: "tickets_ok lp s" "tickets_ok lp s'"
    using tickets_run [OF tickets_init assms(1)] tickets_run [OF _ run(3)] by blast+
  have tickets: "sa_next s' = sa_next s" using sa_run_serving [OF run(3,1)] .
  from ok run(4) have "\<not> waits_for s' k t m" for k t m
    by (auto simp: tickets_ok_def waiting_ok_def)
  moreover have "length (br_replies (sa_bridge s')) = length (br_replies (sa_bridge s)) + length (sa_queue s)"
    using ok run(4) tickets by (simp add: tickets_ok_def)
  ultimately show ?thesis using run by blast
qed

theorem waiting_clients_get_answers_witness:
  "\<exists>s es' s'. sa_run (toy_text (encode_response connect_ok)) mute_peer (ssh_service toy_base64 ''n'') ssh_local sa_init
       [Opens 0 identities_frame, Reads 0] = Some s \<and> waits_for s 0 0 [SSH_AGENTC_REQUEST_IDENTITIES] \<and>
     sa_run (toy_text (encode_response connect_ok)) mute_peer (ssh_service toy_base64 ''n'') ssh_local s es' = Some s' \<and>
     length es' \<le> 2 \<and> length (br_replies (sa_bridge s')) = 1 \<and> (\<forall>k t m. \<not> waits_for s' k t m)"
proof -
  let ?J = "toy_text (encode_response connect_ok)" and ?sv = "ssh_service toy_base64 ''n''"
  obtain s where s: "sa_run ?J mute_peer ?sv ssh_local sa_init [Opens 0 identities_frame, Reads 0] = Some s"
    "waits_for s 0 0 [SSH_AGENTC_REQUEST_IDENTITIES]" "length (sa_queue s) = 1" "br_replies (sa_bridge s) = []"
    by (simp add: sa_init_def set_client_def client_reads_def identities_read CHANNEL_SIZE_def waits_for_def bridge_init_def)
  have "accepts_handshake ?J mute_peer ?sv 1"
    using connect_line by (simp add: accepts_handshake_def send_and_receive_def mute_peer_def handshake_of_def
        connect_ok_def response_success_def split: prod.split)
  from waiting_clients_get_answers [OF s(1) this] s show ?thesis by auto
qed

text \<open>
  C30. A request outlives its client: when a connection of the SSH agent gives up waiting, its
  request stays in the channel; whatever happens afterwards, it is still there until the main
  loop serves it like any other, so a sign request whose client was told that it failed is
  still sent to the KeyMaster, and no connection ever gets the reply.
\<close>

theorem abandoned_request_still_served:
  assumes "sa_run J peer sv lp sa_init es = Some s" and "waits_for s k t m"
    and "sa_step J peer sv lp s (TimesOut k) = Some s1" and "sa_run J peer sv lp s1 es' = Some s2"
  shows "\<exists>r. lp_asks lp m = Some r \<and>
    (if t < length (br_replies (sa_bridge s2)) then fst (br_replies (sa_bridge s2) ! t) = r else (t, r) \<in> set (sa_queue s2)) \<and>
    (\<forall>k' m'. \<not> waits_for s2 k' t m')"
proof -
  have ok: "tickets_ok lp s" using tickets_run [OF tickets_init assms(1)] .
  then obtain r where r: "lp_asks lp m = Some r" "(t, r) \<in> set (sa_queue s)"
    using assms(2) unfolding tickets_ok_def waiting_ok_def by blast
  have only: "k' = k" if "waits_for s k' t m'" for k' m'
    using ok assms(2) that unfolding tickets_ok_def waiting_ok_def by blast
  have "t \<in> set (map fst (sa_queue s))" using r(2) by force
  then have range: "length (br_replies (sa_bridge s)) \<le> t" "t < sa_next s"
    using ok unfolding tickets_ok_def by simp_all
  with r(2) have "taken s t r" by (simp add: taken_def)
  from taken_run [OF tickets_step [OF ok assms(3)] assms(4) taken_step [OF ok assms(3) this]] have "taken s2 t r" .
  moreover have "\<not> waits_for s1 k' t m'" for k' m'
    using assms(3) only [of k'] by (auto simp: waits_for_def set_client_def split: option.splits if_splits)
  then have "\<not> waits_for s2 k' t m'" for k' m'
    using abandoned_run [OF assms(4)] sa_next_mono [OF assms(3)] range(2) by (meson less_le_trans)
  ultimately show ?thesis using r(1) by (auto simp: taken_def)
qed

theorem abandoned_request_still_served_witness:
  "\<exists>s s1 s2. waits_for s 0 0 [SSH_AGENTC_REQUEST_IDENTITIES] \<and>
     sa_step (toy_text (encode_response connect_ok)) mute_peer (ssh_service toy_base64 ''n'') ssh_local s (TimesOut 0) = Some s1 \<and>
     mute_run s1 [Connects (Some 1), Serves] = Some s2 \<and>
     fst (br_replies (sa_bridge s2) ! 0) = RequestIdentities \<and> (\<forall>k m. \<not> waits_for s2 k 0 m)"
proof -
  obtain s s1 s2 where s: "mute_run sa_init [Opens 0 identities_frame, Reads 0] = Some s"
    "waits_for s 0 0 [SSH_AGENTC_REQUEST_IDENTITIES]"
    "sa_step (toy_text (encode_response connect_ok)) mute_peer (ssh_service toy_base64 ''n'') ssh_local s (TimesOut 0) = Some s1"
    "mute_run s1 [Connects (Some 1), Serves] = Some s2" "length (br_replies (sa_bridge s2)) = 1"
    using one_abandoned_client by (elim exE conjE) (rule that)
  from abandoned_request_still_served [OF s(1-4)] s(2-5) show ?thesis by (auto simp: identities_read)
qed

text \<open>
  C31. Nostr clients do not disturb each other: when the main loop's replies depend on the request
  alone, then however the connections, their requests and the reconnects of km-nostr-sa
  interleave, each connection that does not wait has got exactly the bytes that it would get as
  the only one, served at once.
\<close>

theorem nostr_clients_as_alone:
  assumes "sa_run J peer sv (nostr_local L) sa_init es = Some s"
    and "sa_clients s k = Some c" and "co_waits c = None"
    and "\<And>r reply. (r, reply) \<in> set (br_replies (sa_bridge s)) \<Longrightarrow> reply = f r"
  shows "handle_client L (\<lambda>r. ClientReply (f r)) (co_sent c) =
    co_output c @ handle_client L (\<lambda>r. ClientReply (f r)) (co_rest c)"
proof -
  obtain log where "routed J peer sv (nostr_local L) es s log" using run_routed [OF assms(1)] by blast
  then show ?thesis using nostr_clients.routed_as_alone [OF _ assms(1-3) _ assms(4)] by (simp add: nostr_local_def)
qed

definition two_docs :: json_text where
  "two_docs = \<lparr>json_to_string = (\<lambda>_. ''x''),
     json_from_str = (\<lambda>s. if s = ''x'' then Some (encode_response connect_ok)
       else if s = ''m'' then Some (JObject [(''id'', JNull), (''method'', JString ''ping'')]) else None)\<rparr>"

abbreviation no_connection :: "client_request \<Rightarrow> json_rpc_response" where
  "no_connection q \<equiv> response_error (cr_client_id q) JSONRPC_INTERNAL_ERROR ''avatar connection error: bad''"

lemma one_nostr_client:
  "\<exists>s c. sa_run two_docs mute_peer (nostr_service (toy_nostr_lib two_docs) (\<lambda>_. ''bad'')) (nostr_local (toy_nostr_lib two_docs)) sa_init
      [Opens 0 (write_frame (as_bytes ''m'')), Reads 0, Connects (Some 1), Serves] = Some s \<and>
     sa_clients s 0 = Some c \<and> co_waits c = None \<and> co_rest c = [] \<and>
     (\<exists>q. br_replies (sa_bridge s) = [(q, no_connection q)])"
proof -
  let ?sv = "nostr_service (toy_nostr_lib two_docs) (\<lambda>_. ''bad'')" and ?lp = "nostr_local (toy_nostr_lib two_docs)"
  let ?m = "JObject [(''id'', JNull), (''method'', JString ''ping'')]"
  let ?q = "\<lparr>cr_method = ''ping'', cr_params = json_object [], cr_client_id = JNull\<rparr>"
  have J: "nl_text (toy_nostr_lib two_docs) = two_docs" by (simp add: toy_nostr_lib_def)
  have "sendable_line two_docs encode_response connect_ok"
    by (simp add: sendable_line_def prints_line_def two_docs_def MAX_LINE_SIZE_def as_bytes_def utf8_valid_ascii ascii_ws_def)
  from read_write_line [where rest = "[]", OF this, of decode_response, OF decode_encode_response]
  have line: "read_line_message two_docs decode_response (as_bytes ''x'' @ [0x0A]) = Inr (connect_ok, [])"
    by (simp add: write_line_message_def two_docs_def wire_response_def connect_ok_def response_success_def
        json_of_nat_def wire_opt_def json_object_def map_of_entries_def)
  have "read_frame MAX_MESSAGE_SIZE (write_frame (as_bytes ''m'')) = Inr (as_bytes ''m'', [])"
    using read_write_frame [of "as_bytes ''m''" MAX_MESSAGE_SIZE "[]"] by (simp add: MAX_MESSAGE_SIZE_def as_bytes_def)
  moreover have "from_utf8 (as_bytes ''m'') = Some ''m''"
    by (rule from_utf8_as_bytes) (simp add: as_bytes_def utf8_valid_ascii)
  moreover have "norm_json ?m = ?m" by (rule norm_json_wf) (simp add: map_sorted_def)
  moreover have "json_from_str two_docs ''m'' = Some ?m" by (simp add: two_docs_def)
  ultimately have read: "lp_read ?lp (write_frame (as_bytes ''m'')) = Some (?m, [])"
    by (simp add: nostr_local_def J read_framed_message_def json_from_slice_def from_str_value_def)
  have asks: "lp_asks ?lp ?m = Some ?q"
    by (simp add: nostr_local_def client_request_of_def get_str_def json_default_def)
  have "\<exists>b. bridge_run two_docs mute_peer ?sv bridge_init [Accepted 1, Requested ?q] = Some b \<and>
      br_replies b = [(?q, no_connection ?q)]"
    using line by (simp add: bridge_step_def bridge_init_def bridge_connected_def send_and_receive_def mute_peer_def
        handshake_of_def connect_ok_def response_success_def nostr_service_def bridge_serve_def reconnect_def Let_def
        bridge_nostr_response_def split: prod.split)
  then obtain b where b: "bridge_run two_docs mute_peer ?sv bridge_init [Accepted 1, Requested ?q] = Some b"
      "br_replies b = [(?q, no_connection ?q)]" by (elim exE conjE) (rule that)
  show ?thesis by (subst one_client_run [OF b read asks]) (simp add: b(2))
qed

theorem nostr_clients_as_alone_witness:
  "\<exists>s c. sa_clients s 0 = Some c \<and> (\<exists>q. br_replies (sa_bridge s) = [(q, no_connection q)]) \<and>
     sa_run two_docs mute_peer (nostr_service (toy_nostr_lib two_docs) (\<lambda>_. ''bad'')) (nostr_local (toy_nostr_lib two_docs)) sa_init
       [Opens 0 (write_frame (as_bytes ''m'')), Reads 0, Connects (Some 1), Serves] = Some s \<and>
     handle_client (toy_nostr_lib two_docs) (\<lambda>r. ClientReply (no_connection r)) (co_sent c) = co_output c"
proof -
  obtain s c q where s: "sa_run two_docs mute_peer (nostr_service (toy_nostr_lib two_docs) (\<lambda>_. ''bad''))
      (nostr_local (toy_nostr_lib two_docs)) sa_init
      [Opens 0 (write_frame (as_bytes ''m'')), Reads 0, Connects (Some 1), Serves] = Some s"
    "sa_clients s 0 = Some c" "co_waits c = None" "co_rest c = []" "br_replies (sa_bridge s) = [(q, no_connection q)]"
    using one_nostr_client by (elim exE conjE) (rule that)
  have "handle_client (toy_nostr_lib two_docs) (\<lambda>r. ClientReply (no_connection r)) [] = []"
    by (simp add: handle_client.simps read_framed_message_def read_frame_def read_exact_def)
  with nostr_clients_as_alone [OF s(1-3), of no_connection] s show ?thesis by auto
qed

end
