(* ===== verification/Spec2Isabelle.thy ===== *)
theory Spec2Isabelle
  imports Daemon_Start Gpg_Link Nostr_Client Pkcs11 Service_Clients
begin

text \<open>
  A verification development of the KeyMaster avatar (a Rust workspace, crates/ in the
  repository). A phone, the KeyMaster, holds the keys of a user. The daemon \<open>avatar\<close> on the
  computer talks to it over a Nostr relay: the phone attaches, which opens a root session with
  one derived channel for each service. Service avatars (\<open>km-ssh-sa\<close>, \<open>km-gpg-sa\<close>,
  \<open>km-nostr-sa\<close>) connect to a Unix socket of the daemon and present the keys to local programs
  as an SSH agent, as a smartcard daemon and as a Nostr signer.

  \<^bold>\<open>Theories and code.\<close>

  \<^item> \<^theory_text>\<open>Prelude\<close>, \<^theory_text>\<open>Rust_Str\<close>, \<^theory_text>\<open>Json\<close>: bytes, hash maps as association lists, invariants of
    step relations, frames on a byte stream; the string functions of Rust's standard library on
    UTF-8 byte strings; JSON documents with the normal form of \<open>serde_json\<close>.
  \<^item> \<^theory_text>\<open>Protocol\<close> (avatar-protocol/src/lib.rs): messages, serde's encoders and decoders on JSON
    documents, the line transport. \<^theory_text>\<open>Framing\<close>: length-prefixed frames.
  \<^item> \<^theory_text>\<open>Seed\<close> (avatar/src/seed.rs), \<^theory_text>\<open>Startup\<close> and \<^theory_text>\<open>Daemon_Start\<close> (avatar-protocol/src/config.rs and
    \<open>main\<close> in avatar/src/main.rs): seed file, key derivation, settings, descriptor and the first
    socket, with the file system as an explicit state; the connection to the relay, the event
    loop, the program from its command line on (\<open>avatar_main\<close>), and the listener that reconnects
    the relay on a wake.
  \<^item> \<^theory_text>\<open>Session\<close> (avatar/src/session.rs), \<^theory_text>\<open>User_Map\<close> (user_map.rs), \<^theory_text>\<open>Connector\<close> and \<^theory_text>\<open>Avatar\<close>
    (the handlers of avatar/src/main.rs): the session manager, the verification of an attach,
    and one event of the relay as a function from state to state.
  \<^item> \<^theory_text>\<open>Local_Api\<close> (avatar/src/local_api.rs): the connections of the service avatars, with the
    events of the relay, as an interleaved step relation.
  \<^item> \<^theory_text>\<open>Service_Link\<close>: what the service avatars share, connecting with a growing delay and one
    exchange with the daemon. \<^theory_text>\<open>Ssh_Agent\<close> (km-ssh-sa/src/ssh_agent.rs and the translation in
    main.rs), \<^theory_text>\<open>Nostr_Sa\<close> (km-nostr-sa/src/main.rs) with its client library \<^theory_text>\<open>Nostr_Client\<close>
    (km-nostr-client/src/lib.rs), and \<^theory_text>\<open>Bridge\<close>, the main loop of both: connect, hand over one
    request at a time, start over when the connection is lost. \<^theory_text>\<open>Service_Clients\<close> runs any number of
    local connections around that loop, with the channel between them, as a step function.
  \<^item> \<^theory_text>\<open>Gpg_Sa\<close> (km-gpg-sa/src/main.rs): the start-up of GnuPG as a sequence of effects that may
    fail, and the proxy that the connections of the shims share, in any interleaving.
  \<^item> \<^theory_text>\<open>Daemon_Link\<close>: the daemon of \<^theory_text>\<open>Local_Api\<close> as the peer that the bridges of the service avatars
    talk to; it meets what they assume of it. A turn of the daemon is a message and any schedule
    of events after it; how a wait ended is said of the events of that turn (\<open>wait_ended\<close>). Only the
    link to a service avatar lets the 30 seconds of the daemon end at last (\<open>link_schedule\<close>), as
    the code does. \<^theory_text>\<open>Gpg_Link\<close>: the shims, the proxy and the daemon as
    one system of steps. The last section here puts the SSH and Nostr programs together with it.
  \<^item> \<^theory_text>\<open>Pkcs11_Types\<close>, \<^theory_text>\<open>Local_Client\<close>, \<^theory_text>\<open>Der\<close>, \<^theory_text>\<open>Pkcs11_Module\<close> and \<^theory_text>\<open>Pkcs11\<close> (pkcs11-gpg/src): the
    Cryptoki module, its client, the certificates it makes up, and its properties.
    \<^theory_text>\<open>Scd_Shim\<close> (scd-shim/src/main.rs): the Assuan commands of the smartcard daemon.

  \<^bold>\<open>How code is modelled.\<close> A struct is a record, an enum a datatype; a function that locks
  a shared state takes it and returns it. A \<open>Result\<close> is a sum, a panic is \<open>None\<close>. Strings are
  their UTF-8 bytes as characters. Words keep their width where it can be exceeded. A connection
  is the bytes that will arrive on it; loops over a connection are recursive functions that
  consume input, so they end. The iteration order of a hash map is a parameter that only has to
  be a permutation. What is not in the repository is a parameter with its documented law as a
  hypothesis, and every such hypothesis is met by a concrete instance in a witness: the text of
  JSON and TOML, base64 and hex, SHA-1 and SHA-256, BIP-32 and secp256k1, NIP-44, the
  user database, the relay.

  \<^bold>\<open>What is shown.\<close> Encoders are read back by the decoders (lines, frames, SSH agent answers,
  Assuan data lines, DER certificates). The session manager refines a map from KeyMasters to
  sessions. From the command line on, a session exists only for an attach that passed the connector
  check against the key of the seed file and the allowlist read at the start; events of one KeyMaster never change the session of another; each response reaches
  the connection that sent the request, once; a per-user connection only reaches its own
  identity. The invariants of the daemon and of the Cryptoki module hold on every interleaving.
  Signing is followed from the local program to the signature it gets, for the Cryptoki module,
  the smartcard daemon, the SSH agent and the Nostr client. The bridges and the proxy stay in
  step with the avatar over every sequence of connections, losses and requests, each reply reaches
  the local connection that waits for it, a request is served once and no client waits for ever
  while an avatar accepts connections, and gpg-agent is
  only asked to learn the card when everything it needs is in place. With the daemon behind
  them, a signature that an SSH agent client, gpg-agent or a Nostr client gets is traced, event
  by event of the run, to the turn of the daemon that served its own request, and to the relay
  event of that turn that replied to what the daemon had sent (\<open>relayed\<close>, \<open>relayed_at\<close>). Where the code loses an
  answer, mixes up two or breaks a convention, a theorem states the exact run.

  \<^bold>\<open>Bounds and fuel.\<close> No definition has fuel. The limits are those of the code: 1 MiB lines and
  frames, 256 KiB SSH agent messages, 32-bit lengths, 64 KiB for a DER length,
  32 requests in the channel of a service avatar.

  \<^bold>\<open>Not modelled.\<close> Command line parsing, logging and the QR code (calls of libraries only); what
  the relay client makes of a filter and of a reconnect; what the commands that \<open>km-gpg-sa\<close> runs
  do themselves; the capacity of the daemon's own channels; a write that fails in the
  middle of a message; a peer of a service avatar that neither answers nor closes (the code has
  no timeout there and waits); the read timeout of the shims in \<^theory_text>\<open>Gpg_Link\<close>, whose effect is shown
  in \<^theory_text>\<open>Scd_Shim\<close>; the Bluetooth script bt-pan (Python, D-Bus calls only).
\<close>

section \<open>Across the programs\<close>

text \<open>
  Event \<open>j\<close> of a run of a service avatar served the request of message \<open>m\<close>, for which connection
  \<open>k\<close> was waiting, by an exchange with the daemon in which the KeyMaster answered: the request
  was the first in the channel, the main loop was connected to the daemon, in its state \<open>l\<close> at
  that moment, and \<open>resp\<close> is the answer that this turn of the daemon relayed.
\<close>

definition relayed_at ::
    "avatar_env \<Rightarrow> (string \<Rightarrow> string) \<Rightarrow> nat \<Rightarrow> ('req, 'rep) service \<Rightarrow> ('m, 'req, 'rep) local_protocol \<Rightarrow>
      daemon_link sa_event list \<Rightarrow> nat \<Rightarrow> 'm \<Rightarrow> string \<Rightarrow> json \<Rightarrow> json_rpc_response \<Rightarrow> nat \<Rightarrow> bool" where
  "relayed_at E json_error c sv lp es k m meth params resp j \<longleftrightarrow>
     (\<exists>s t r queue l. j < length es \<and> es ! j = Serves \<and>
        sa_run (env_J E) (daemon_peer E json_error c) sv lp sa_init (take j es) = Some s \<and>
        waits_for s k t m \<and> lp_asks lp m = Some r \<and> sa_queue s = (t, r) # queue \<and>
        br_phase (sa_bridge s) = Linked (l, []) \<and> relayed E json_error c l meth params resp)"

text \<open>
  A reply that the main loop makes in a run comes from what the daemon answers to the request, in
  the state of the link at that moment.
\<close>

lemma served_by_daemon:
  assumes "compact_text (env_J E)" and "connects_only (link_ok E json_error author c) es" and "bridge_service sv"
    and "sa_run (env_J E) (daemon_peer E json_error c) sv lp sa_init es = Some s"
    and "bridge_step (env_J E) (daemon_peer E json_error c) sv (sa_bridge s) (Requested q) = Some b"
    and "br_replies b = br_replies (sa_bridge s) @ [(q, reply)]"
  shows "\<exists>l rid. br_phase (sa_bridge s) = Linked (l, []) \<and> link_ok E json_error author c l \<and>
    reply = fst (sv_reply sv q (own_response (env_J E) (daemon_peer E json_error c) l (sv_request sv rid q)))"
proof -
  note one = daemon_peer_one_line [OF assms(1), of json_error c]
  obtain bes where bes: "bridge_run (env_J E) (daemon_peer E json_error c) sv bridge_init bes = Some (sa_bridge s)"
    "accepts_only (link_ok E json_error author c) bes"
    using sa_run_bridge [OF assms(4,2)] by (auto simp: sa_init_def)
  have "in_step (env_J E) (daemon_peer E json_error c) (link_ok E json_error author c) sv (sa_bridge s)"
    by (rule bridge_service.in_step_run [OF assms(3) one daemon_peer_keeps_link bes(2)
        bridge_service.in_step_init [OF assms(3)] bes(1)])
  then obtain l where l: "br_phase (sa_bridge s) = Linked (l, [])" "link_ok E json_error author c l"
    using assms(5) by (auto simp: in_step_def bridge_step_def split: phase.splits)
  have "reply = fst (sv_reply sv q (own_response (env_J E) (daemon_peer E json_error c) l
      (sv_request sv (br_next_id (sa_bridge s)) q)))"
    using assms(5,6) by (auto simp: bridge_step_def l(1) bridge_serve_def send_and_receive_sync [OF one] reconnect_def Let_def
        split: prod.splits if_splits)
  with l show ?thesis by blast
qed

text \<open>An answer in the log of a connection, with the exchange behind it.\<close>

lemma logged_by_daemon:
  assumes "compact_text (env_J E)" and "connects_only (link_ok E json_error author c) es" and "bridge_service sv"
    and "sa_run (env_J E) (daemon_peer E json_error c) sv lp sa_init es = Some s"
    and "routed (env_J E) (daemon_peer E json_error c) sv lp es s log" and "(m, Some reply, j) \<in> set (log k)"
  shows "\<exists>l rid q. lp_asks lp m = Some q \<and> link_ok E json_error author c l \<and> (q, reply) \<in> set (br_replies (sa_bridge s)) \<and>
    reply = fst (sv_reply sv q (own_response (env_J E) (daemon_peer E json_error c) l (sv_request sv rid q))) \<and>
    (\<forall>meth params resp. relayed E json_error c l meth params resp \<longrightarrow>
       relayed_at E json_error c sv lp es k m meth params resp j)"
proof -
  from routed_reply [OF assms(5,4,6)] obtain s0 t q queue b where
    at: "j < length es" "es ! j = Serves" "sa_run (env_J E) (daemon_peer E json_error c) sv lp sa_init (take j es) = Some s0"
      "waits_for s0 k t m" "lp_asks lp m = Some q" "sa_queue s0 = (t, q) # queue"
    and b: "bridge_step (env_J E) (daemon_peer E json_error c) sv (sa_bridge s0) (Requested q) = Some b"
      "br_replies b = br_replies (sa_bridge s0) @ [(q, reply)]" "(q, reply) \<in> set (br_replies (sa_bridge s))" by blast
  have "connects_only (link_ok E json_error author c) (take j es)"
    using assms(2) in_set_takeD unfolding connects_only_def by fast
  from served_by_daemon [OF assms(1) this assms(3) at(3) b(1,2)] obtain l rid where
    l: "br_phase (sa_bridge s0) = Linked (l, [])" "link_ok E json_error author c l"
    "reply = fst (sv_reply sv q (own_response (env_J E) (daemon_peer E json_error c) l (sv_request sv rid q)))" by blast
  have "relayed_at E json_error c sv lp es k m meth params resp j" if "relayed E json_error c l meth params resp"
    for meth params resp
    using at l(1) that unfolding relayed_at_def by blast
  with at(5) l b(3) show ?thesis by blast
qed

text \<open>A signature among the answers of the daemon.\<close>

lemma ssh_reply_provenance:
  assumes "compact_text (env_J E)" and "iter_order (env_order E)" and "link_ok E json_error author c l"
    and "Signed (Some sig) kt = fst (sv_reply (ssh_service B npub) (SignRequest k d flags) (own_response (env_J E)
      (daemon_peer E json_error c) l (sv_request (ssh_service B npub) rid (SignRequest k d flags))))"
  shows "\<exists>params resp. relayed E json_error c l ''ssh.sign_request'' params resp \<and>
    get_str params ''key_blob'' = Some (b64_encode B k) \<and> get_str params ''data'' = Some (b64_encode B d) \<and>
    jget params ''flags'' = Some (json_of_nat (unat flags)) \<and> signature_of B resp = Some sig"
proof -
  let ?req = "bridge_request B rid (SignRequest k d flags)"
  have reply: "fst (bridge_reply B (SignRequest k d flags)
      (ok_of (own_response (env_J E) (daemon_peer E json_error c) l ?req))) = Signed (Some sig) kt"
    using assms(4) by (simp add: ssh_service_def)
  from bridge_reply_signature [OF reply] obtain resp where
    own: "own_response (env_J E) (daemon_peer E json_error c) l ?req = Inr resp" "resp_error resp = None"
    and sig: "signature_of B resp = Some sig"
    by (cases "own_response (env_J E) (daemon_peer E json_error c) l ?req") auto
  have norm: "norm_json (req_params ?req) = req_params ?req"
    by (intro norm_json_wf) (auto simp: bridge_request_def request_new_def json_of_nat_def intro!: json_wf_object)
  from daemon_success [OF assms(1-3) own] sig show ?thesis
    unfolding norm by (intro exI [of _ "req_params ?req"] exI [of _ resp])
      (simp add: bridge_request_def request_new_def get_str_def jget_json_object)
qed

text \<open>
  C2. A signature that an SSH client gets was given for its own request, whatever the other
  clients of the agent socket and the connections to the daemon do. In every run of km-ssh-sa
  against the daemon, a connection is answered message by message, and each answer has an event
  of the run of its own. When a sign request got a signature, that event was the main loop
  serving this request while the connection waited for it; the daemon sent the key, the data and
  the flags of this request in a relay event, and the signature is taken from the text that the
  daemon read, in that same turn and while it waited, from a relay event of its own run that
  replies to the event it had just sent.
\<close>

theorem ssh_signature_provenance:
  assumes "compact_text (env_J E)" and "iter_order (env_order E)"
    and "connects_only (link_ok E json_error author c) es"
    and "sa_run (env_J E) (daemon_peer E json_error c) (ssh_service B npub) ssh_local sa_init es = Some s"
    and "sa_clients s k = Some client"
  shows "\<exists>log. transcript ssh_local client (log_answers log) \<and> sorted_wrt (<) (log_events log) \<and>
    (\<forall>m key d flags sig kt j. (m, Some (Signed (Some sig) kt), j) \<in> set log \<longrightarrow>
      agent_asks m = Some (SignRequest key d flags) \<longrightarrow>
      (\<exists>params resp. relayed_at E json_error c (ssh_service B npub) ssh_local es k m ''ssh.sign_request'' params resp j \<and>
        get_str params ''key_blob'' = Some (b64_encode B key) \<and> get_str params ''data'' = Some (b64_encode B d) \<and>
        jget params ''flags'' = Some (json_of_nat (unat flags)) \<and> signature_of B resp = Some sig))"
proof -
  obtain log where log: "routed (env_J E) (daemon_peer E json_error c) (ssh_service B npub) ssh_local es s log"
    using run_routed [OF assms(4)] by blast
  have sv: "bridge_service (ssh_service B npub)" by unfold_locales (rule ssh.reply_keeps_connection)
  have client: "transcript ssh_local client (log_answers (log k))" "sorted_wrt (<) (log_events (log k))"
    using log assms(5) unfolding routed_def routed_client_def by (metis option.simps(5))+
  have "\<exists>params resp. relayed_at E json_error c (ssh_service B npub) ssh_local es k m ''ssh.sign_request'' params resp j \<and>
      get_str params ''key_blob'' = Some (b64_encode B key) \<and> get_str params ''data'' = Some (b64_encode B d) \<and>
      jget params ''flags'' = Some (json_of_nat (unat flags)) \<and> signature_of B resp = Some sig"
    if entry: "(m, Some (Signed (Some sig) kt), j) \<in> set (log k)" and asks: "agent_asks m = Some (SignRequest key d flags)"
    for m key d flags sig kt j
  proof -
    have "lp_asks ssh_local m = Some (SignRequest key d flags)" by (simp add: ssh_local_def asks)
    with logged_by_daemon [OF assms(1,3) sv assms(4) log entry] obtain l rid where l: "link_ok E json_error author c l"
      "Signed (Some sig) kt = fst (sv_reply (ssh_service B npub) (SignRequest key d flags) (own_response (env_J E)
        (daemon_peer E json_error c) l (sv_request (ssh_service B npub) rid (SignRequest key d flags))))"
      and at: "\<And>meth params resp. relayed E json_error c l meth params resp \<Longrightarrow>
        relayed_at E json_error c (ssh_service B npub) ssh_local es k m meth params resp j" by fastforce
    from ssh_reply_provenance [OF assms(1,2) l] at show ?thesis by meson
  qed
  with client show ?thesis by blast
qed

definition ssh_sample_text :: json_text where
  "ssh_sample_text = docs_text (link_docs (ssh_service toy_base64 ''n'') (SignRequest [1] [2, 3] 4) signed_response [])"

definition sign_message :: bytes where
  "sign_message = SSH_AGENTC_SIGN_REQUEST # wire_string [1] @ wire_string [2, 3] @ u32_to_be_bytes 4"

lemma sign_message_asks:
  "agent_asks sign_message = Some (SignRequest [1] [2, 3] 4)"
  "lp_read ssh_local (write_frame sign_message) = Some (sign_message, [])" "lp_read ssh_local [] = None"
proof -
  show "agent_asks sign_message = Some (SignRequest [1] [2, 3] 4)"
    using parse_sign_request_wire [of "[1]" "[2, 3]" 4]
    by (simp add: agent_asks_def sign_message_def SSH_AGENTC_SIGN_REQUEST_def SSH_AGENTC_REQUEST_IDENTITIES_def)
  show "lp_read ssh_local (write_frame sign_message) = Some (sign_message, [])"
    using read_write_frame [of sign_message AGENT_LIMIT "[]"]
    by (simp add: ssh_local_def AGENT_LIMIT_def sign_message_def wire_string_def u32_to_be_bytes_def)
  show "lp_read ssh_local [] = None" by (simp add: ssh_local_def read_frame_def read_exact_def)
qed

lemma ssh_sample_run:
  "\<exists>b. bridge_run ssh_sample_text (daemon_peer (sample_env_with ssh_sample_text) id 0) (ssh_service toy_base64 ''n'') bridge_init
      [Accepted (link_start ssh_sample_text 1), Requested (SignRequest [1] [2, 3] 4)] = Some b \<and>
     br_replies b = [(SignRequest [1] [2, 3] 4, Signed (Some [7, 8]) ''ssh-rsa'')]"
proof -
  let ?sv = "ssh_service toy_base64 ''n''" and ?q = "SignRequest [1] [2, 3] 4"
  have r: "wire_response signed_response = signed_response" "resp_result signed_response \<noteq> None"
    by (simp_all add: signed_response_def response_success_def wire_response_def wire_opt_def json_of_nat_def map_of_entries_def)
  have reply: "sv_reply ?sv ?q (Inr signed_response) = (Signed (Some [7, 8]) ''ssh-rsa'', True)"
    using toy_base64_laws
    by (simp add: ssh_service_def bridge_reply_def signed_response_def response_success_def get_str_def base64_laws_def)
  have conn: "req_method (sv_connect ?sv) = ''connect''" "str_param (norm_json (req_params (sv_connect ?sv))) ''type'' = ''ssh''"
    "req_method (sv_request ?sv 2 ?q) \<noteq> ''connect''"
    by (simp_all add: ssh_service_def ssh_connect_request_def bridge_request_def request_new_def json_wf_object str_param_def
        get_str_def jget_json_object)
  from link_bridge_run [OF r _ conn _ link_docs_plain(1) ssh_sample_text_def] reply show ?thesis by auto
qed

abbreviation ssh_sample_events :: "daemon_link sa_event list" where
  "ssh_sample_events \<equiv>
     [Opens 0 (write_frame sign_message), Reads 0, Connects (Some (link_start ssh_sample_text 1)), Serves]"

lemma fourth_serves:
  assumes "relayed_at E json_error c sv lp [Opens k1 input, Reads k2, Connects x, Serves] k m meth params resp j"
  shows "j = 3"
proof -
  from assms have "j < 4" "[Opens k1 input, Reads k2, Connects x, Serves] ! j = Serves" by (auto simp: relayed_at_def)
  moreover from this have "j = 0 \<or> j = 1 \<or> j = 2 \<or> j = 3" by arith
  ultimately show ?thesis by (elim disjE) simp_all
qed

theorem ssh_signature_provenance_witness:
  "\<exists>s client params resp sig. sa_clients s 0 = Some client \<and>
     sa_run ssh_sample_text (daemon_peer (sample_env_with ssh_sample_text) id 0) (ssh_service toy_base64 ''n'') ssh_local sa_init
       ssh_sample_events = Some s \<and>
     co_output client = write_frame (build_sign_response [7, 8] ''ssh-rsa'') \<and>
     relayed_at (sample_env_with ssh_sample_text) id 0 (ssh_service toy_base64 ''n'') ssh_local ssh_sample_events 0 sign_message
       ''ssh.sign_request'' params resp 3 \<and>
     get_str params ''data'' = Some (b64_encode toy_base64 [2, 3]) \<and> signature_of toy_base64 resp = Some sig"
proof -
  let ?E = "sample_env_with ssh_sample_text" and ?sv = "ssh_service toy_base64 ''n''" and ?q = "SignRequest [1] [2, 3] 4"
  obtain b where b: "bridge_run ssh_sample_text (daemon_peer ?E id 0) ?sv bridge_init [Accepted (link_start ssh_sample_text 1), Requested ?q] = Some b"
      "br_replies b = [(?q, Signed (Some [7, 8]) ''ssh-rsa'')]" using ssh_sample_run by auto
  have asks: "lp_asks ssh_local sign_message = Some ?q" by (simp add: ssh_local_def sign_message_asks(1))
  let ?out = "lp_answer ssh_local sign_message (Some (Signed (Some [7, 8]) ''ssh-rsa''))"
  let ?c = "\<lparr>co_sent = write_frame sign_message, co_rest = [], co_output = ?out, co_waits = None\<rparr>"
  let ?s = "\<lparr>sa_bridge = b, sa_queue = [], sa_next = 1, sa_clients = [0 \<mapsto> ?c]\<rparr>"
  have run: "sa_run (env_J ?E) (daemon_peer ?E id 0) ?sv ssh_local sa_init ssh_sample_events = Some ?s"
    unfolding sample_with_J by (rule one_client_run [OF b sign_message_asks(2) asks])
  have out: "?out = write_frame (build_sign_response [7, 8] ''ssh-rsa'')"
    using sign_message_asks(1) by (auto simp: ssh_local_def agent_message_def agent_asks_def sign_response_def
        split: if_splits)
  have ok: "compact_text (env_J ?E)" "connects_only (link_ok ?E id sample_author 0) ssh_sample_events"
    using link_start_ok by (simp_all add: ssh_sample_text_def docs_text_compact link_docs_plain connects_only_def)
  have cl: "sa_clients ?s 0 = Some ?c" by simp
  from ssh_signature_provenance [OF ok(1) sample_env_order ok(2) run cl]
  obtain log where log: "transcript ssh_local ?c (log_answers log)"
      "\<And>sig kt j. (sign_message, Some (Signed (Some sig) kt), j) \<in> set log \<Longrightarrow>
      \<exists>params resp. relayed_at ?E id 0 ?sv ssh_local ssh_sample_events 0 sign_message ''ssh.sign_request'' params resp j \<and>
        get_str params ''data'' = Some (b64_encode toy_base64 [2, 3]) \<and> signature_of toy_base64 resp = Some sig"
    using sign_message_asks(1) by (elim exE conjE) (rule that, assumption, blast)
  obtain reply where "log_answers log = [(sign_message, reply)]" "?out = lp_answer ssh_local sign_message reply"
    using transcript_one [OF log(1), of sign_message] sign_message_asks(2,3) out by (auto simp: write_frame_def u32_to_be_bytes_def)
  then obtain sig kt j where "(sign_message, Some (Signed (Some sig) kt), j) \<in> set log"
    using signed_answer [OF _ sign_message_asks(1), of reply "[7, 8]" "''ssh-rsa''"] out by (auto simp: log_answers_def)
  from log(2) [OF this] obtain params resp where
    at: "relayed_at ?E id 0 ?sv ssh_local ssh_sample_events 0 sign_message ''ssh.sign_request'' params resp j"
    "get_str params ''data'' = Some (b64_encode toy_base64 [2, 3])" "signature_of toy_base64 resp = Some sig" by blast
  show ?thesis using run [unfolded sample_with_J] out at(2,3) at(1) [unfolded fourth_serves [OF at(1)]]
    by (intro exI [of _ ?s] exI [of _ ?c] exI [of _ params] exI [of _ resp] exI [of _ sig]) simp
qed

text \<open>The same for a reply of km-nostr-sa, read back by the client library.\<close>

lemma nostr_reply_provenance:
  assumes "compact_text (env_J E)" and "iter_order (env_order E)" and "nl_text L = env_J E" and "hex_laws (nl_hex L)"
    and "link_ok E json_error author c l"
    and "reply = fst (sv_reply (nostr_service L disp) q (own_response (env_J E) (daemon_peer E json_error c) l
      (sv_request (nostr_service L disp) rid q)))"
    and "message = call_request ''sign_event'' (sign_event_params (nl_hex L) pubkey event_hash)"
    and "client_request_of message = Some q"
    and "framed_printable (nl_text L) message" and "framed_printable (nl_text L) (norm_json (encode_response reply))"
    and "Nostr_Client.sign_event (nl_hex L)
      (call (nl_text L) (\<lambda>s. Some (handle_client L (\<lambda>_. ClientReply reply) s))) pubkey event_hash = Inr sig"
  shows "\<exists>params resp res s. relayed E json_error c l ''nostr.sign_event'' params resp \<and>
    get_str params ''public_key'' = Some (b64_encode (nl_base64 L) pubkey) \<and>
    get_str params ''event_hash'' = Some (b64_encode (nl_base64 L) event_hash) \<and>
    resp_result resp = Some res \<and> get_str res ''signature'' = Some s \<and> length sig = 64 \<and>
    (case b64_decode (nl_base64 L) s of Some bs \<Rightarrow> bs = sig | None \<Rightarrow> hex_dec (nl_hex L) s = Some sig)"
proof -
  let ?params = "sign_event_params (nl_hex L) pubkey event_hash"
  have q: "cr_method q = ''sign_event''" "cr_params q = ?params"
    using assms(7,8) by (auto simp: client_request_of_call)
  obtain r where r: "own_response (env_J E) (daemon_peer E json_error c) l (bridge_nostr_request L rid q) = r"
    and reply: "reply = fst (bridge_nostr_response L q (map_sum disp id r))"
    using assms(6) by (simp add: nostr_service_def)
  have "call (nl_text L) (\<lambda>s. Some (handle_client L (\<lambda>_. ClientReply reply) s)) ''sign_event'' ?params =
      response_result (norm_json (encode_response reply))"
    using call_served [where serve = "\<lambda>_. reply", OF sign_event_params_wf assms(9) [unfolded assms(7)] refl assms(10)] .
  with sign_event_accepts [OF assms(11)] obtain res' s' where
    "response_result (norm_json (encode_response reply)) = Inr res'" and
    s': "get_str res' ''signature'' = Some s'" "hex_dec (nl_hex L) s' = Some sig" "length sig = 64"
    by auto
  then obtain res1 where res1: "resp_error reply = None" "resp_result reply = Some res1" "res' = norm_json res1"
    by (auto simp: response_result_encode)
  with reply obtain resp res where resp: "r = Inr resp" "resp_error resp = None" "resp_result resp = Some res"
    and tr: "res1 = translate_response_result L ''sign_event'' res"
    by (cases r) (auto simp: bridge_nostr_response_def response_error_def q)
  have sent: "req_method (bridge_nostr_request L rid q) = ''nostr.sign_event'' \<and>
      get_str (req_params (bridge_nostr_request L rid q)) ''public_key'' = Some (b64_encode (nl_base64 L) pubkey) \<and>
      get_str (req_params (bridge_nostr_request L rid q)) ''event_hash'' = Some (b64_encode (nl_base64 L) event_hash)"
    by (rule sign_event_forwarded [OF assms(4) q])
  have norm: "norm_json (req_params (bridge_nostr_request L rid q)) = req_params (bridge_nostr_request L rid q)"
    by (simp add: bridge_nostr_request_def request_new_def q translate_request_wf sign_event_params_wf)
  have rel: "relayed E json_error c l ''nostr.sign_event'' (req_params (bridge_nostr_request L rid q)) resp"
    using daemon_success [OF assms(1,2,5) r [unfolded resp(1)] resp(2)] sent norm by simp
  have "json_wf res" using relayed_wf [OF rel resp(3)] .
  then have "res' = base64_to_hex_field L ''signature'' res"
    using res1(3) tr by (simp add: translate_response_result_def json_wf_field)
  with s'(1) obtain s where s: "get_str res ''signature'' = Some s"
    by (cases "get_str res ''signature''") (simp_all add: base64_to_hex_field_def)
  then have "case b64_decode (nl_base64 L) s of Some bs \<Rightarrow> bs = sig | None \<Rightarrow> hex_dec (nl_hex L) s = Some sig"
    using s'(1,2) \<open>res' = base64_to_hex_field L ''signature'' res\<close> assms(4)
    by (auto simp: base64_to_hex_field_def get_str_jset hex_laws_def split: option.splits)
  with rel sent resp(3) s s'(3) show ?thesis by blast
qed

text \<open>What a connection got that wrote one request.\<close>

lemma nostr_client_reply:
  assumes "routed (env_J E) (daemon_peer E json_error c) (nostr_service L disp) (nostr_local L) es s log"
    and "sa_run (env_J E) (daemon_peer E json_error c) (nostr_service L disp) (nostr_local L) sa_init es = Some s"
    and "sa_clients s k = Some client" and "co_waits client = None"
    and "co_sent client = write_framed_message (nl_text L) message" and "framed_printable (nl_text L) message"
    and "json_wf message" and "client_request_of message = Some q" and "co_output client \<noteq> []"
  shows "\<exists>reply j. (message, Some reply, j) \<in> set (log k) \<and>
    co_output client = handle_client L (\<lambda>_. ClientReply reply) (co_sent client)"
proof -
  have client: "transcript (nostr_local L) client (log_answers (log k))"
    using assms(1,3) unfolding routed_def routed_client_def by (metis option.simps(5))
  have read: "lp_read (nostr_local L) (co_sent client) = Some (message, [])" "lp_read (nostr_local L) [] = None"
    using read_write_framed [of "nl_text L" message "[]"] assms(5-7)
    by (simp_all add: nostr_local_def framed_printable_def read_framed_message_def read_frame_def read_exact_def)
  have asks: "lp_asks (nostr_local L) message = Some q" by (simp add: nostr_local_def assms(8))
  obtain r where r: "log_answers (log k) = [(message, r)]" "co_output client = lp_answer (nostr_local L) message r"
    using transcript_one [OF client assms(4) read assms(9)] by blast
  then obtain j where j: "(message, r, j) \<in> set (log k)" by (auto simp: log_answers_def)
  obtain reply where reply: "r = Some reply"
    using routed_no_reply [OF assms(1,2), of message j k] j asks by (cases r) (auto simp: nostr_local_def)
  have "handle_client L (\<lambda>_. ClientReply reply) (co_sent client) = co_output client @ handle_client L (\<lambda>_. ClientReply reply) []"
    using nostr_clients.loop_reads [OF read(1), of "\<lambda>_. reply"] asks r(2) reply by simp
  moreover have "handle_client L (\<lambda>_. ClientReply reply) [] = []"
    by (simp add: handle_client.simps read_framed_message_def read_frame_def read_exact_def)
  ultimately show ?thesis using j reply by auto
qed

text \<open>
  C4. A signature that a Nostr client gets was given for its own event, whatever the other
  clients and the connections to the daemon do. When a connection of any run of km-nostr-sa
  against the daemon wrote a client's \<open>sign_event\<close> for a key and an event hash, and the client
  library returns a signature for what that connection got, then it has 64 bytes, and at one
  event of the run the main loop served this message while the connection waited for it: the
  daemon sent the same key and hash in a relay event, and the signature is the one in the text
  that the daemon read, in that same turn and while it waited, from a relay event of its own run
  that replies to the event it had just sent. It is the base64 text there; only a text that is
  not base64 is taken as hexadecimal.
\<close>

theorem nostr_signature_provenance:
  assumes "compact_text (env_J E)" and "iter_order (env_order E)" and "nl_text L = env_J E" and "hex_laws (nl_hex L)"
    and "connects_only (link_ok E json_error author c) es"
    and "sa_run (env_J E) (daemon_peer E json_error c) (nostr_service L disp) (nostr_local L) sa_init es = Some s"
    and "sa_clients s k = Some client" and "co_waits client = None"
    and "message = call_request ''sign_event'' (sign_event_params (nl_hex L) pubkey event_hash)"
    and "co_sent client = write_framed_message (nl_text L) message" and "framed_printable (nl_text L) message"
    and "\<forall>(q, reply) \<in> set (br_replies (sa_bridge s)). framed_printable (nl_text L) (norm_json (encode_response reply))"
    and "Nostr_Client.sign_event (nl_hex L)
      (call (nl_text L) (\<lambda>sent. if sent = co_sent client then Some (co_output client) else None)) pubkey event_hash = Inr sig"
  shows "\<exists>j params resp res s.
    relayed_at E json_error c (nostr_service L disp) (nostr_local L) es k message ''nostr.sign_event'' params resp j \<and>
    get_str params ''public_key'' = Some (b64_encode (nl_base64 L) pubkey) \<and>
    get_str params ''event_hash'' = Some (b64_encode (nl_base64 L) event_hash) \<and>
    resp_result resp = Some res \<and> get_str res ''signature'' = Some s \<and> length sig = 64 \<and>
    (case b64_decode (nl_base64 L) s of Some bs \<Rightarrow> bs = sig | None \<Rightarrow> hex_dec (nl_hex L) s = Some sig)"
proof -
  let ?params = "sign_event_params (nl_hex L) pubkey event_hash"
  have sv: "bridge_service (nostr_service L disp)" by unfold_locales (rule nostr.reply_keeps_connection)
  obtain log where log: "routed (env_J E) (daemon_peer E json_error c) (nostr_service L disp) (nostr_local L) es s log"
    using run_routed [OF assms(6)] by blast
  obtain q where q: "client_request_of message = Some q" using assms(9) by (simp add: client_request_of_call)
  have same: "call (nl_text L) f ''sign_event'' ?params = call (nl_text L) g ''sign_event'' ?params"
    if "f (co_sent client) = g (co_sent client)" for f g
    using that assms(9,10) by (simp add: call_def write_framed_message_def)
  have "co_output client \<noteq> []"
    using sign_event_accepts [OF assms(13)] assms(9,10)
    by (auto simp: call_def write_framed_message_def read_response_def read_exact_def bind_result_def)
  with nostr_client_reply [OF log assms(6-8,10,11) _ q] assms(9) json_wf_request [OF sign_event_params_wf]
  obtain reply j where entry: "(message, Some reply, j) \<in> set (log k)"
    "co_output client = handle_client L (\<lambda>_. ClientReply reply) (co_sent client)" by auto
  have "lp_asks (nostr_local L) message = Some q" by (simp add: nostr_local_def q)
  with logged_by_daemon [OF assms(1,5) sv assms(6) log entry(1)] obtain l rid where l: "link_ok E json_error author c l"
    "reply = fst (sv_reply (nostr_service L disp) q (own_response (env_J E)
      (daemon_peer E json_error c) l (sv_request (nostr_service L disp) rid q)))" "(q, reply) \<in> set (br_replies (sa_bridge s))"
    and at: "\<And>meth params resp. relayed E json_error c l meth params resp \<Longrightarrow>
      relayed_at E json_error c (nostr_service L disp) (nostr_local L) es k message meth params resp j" by fastforce
  have "Nostr_Client.sign_event (nl_hex L) (call (nl_text L) (\<lambda>s. Some (handle_client L (\<lambda>_. ClientReply reply) s)))
      pubkey event_hash = Inr sig"
    using assms(13) same [of "\<lambda>sent. if sent = co_sent client then Some (co_output client) else None"
        "\<lambda>s. Some (handle_client L (\<lambda>_. ClientReply reply) s)"] entry(2)
    by (simp add: Nostr_Client.sign_event_def)
  moreover have "framed_printable (nl_text L) (norm_json (encode_response reply))" using assms(12) l(3) by blast
  ultimately show ?thesis
    using nostr_reply_provenance [OF assms(1-4) l(1,2) assms(9) q assms(11)] at by meson
qed

definition nostr_sample_request :: client_request where
  "nostr_sample_request = \<lparr>cr_method = ''sign_event'',
     cr_params = sign_event_params (nl_hex (toy_nostr_lib (toy_text JNull))) [1] [2], cr_client_id = json_of_nat 1\<rparr>"

definition nostr_sample_answer :: json_rpc_response where
  "nostr_sample_answer = response_success (json_of_nat 2) signature_result"

definition nostr_sample_reply :: json_rpc_response where
  "nostr_sample_reply = fst (bridge_nostr_response (toy_nostr_lib (toy_text JNull)) nostr_sample_request
     (Inr nostr_sample_answer))"

definition nostr_sample_text :: json_text where
  "nostr_sample_text = docs_text (link_docs (nostr_service (toy_nostr_lib (toy_text JNull)) (\<lambda>_. ''bad''))
     nostr_sample_request nostr_sample_answer
     [(''1'', signature_request), (''2'', norm_json (encode_response nostr_sample_reply))])"

lemma toy_nostr_fields:
  "hex_to_base64_field (toy_nostr_lib J) = hex_to_base64_field (toy_nostr_lib J')"
  "base64_to_hex_field (toy_nostr_lib J) = base64_to_hex_field (toy_nostr_lib J')"
  by (rule field_translation_cong, simp_all add: toy_nostr_lib_def)+

lemma toy_nostr_service: "nostr_service (toy_nostr_lib J) disp = nostr_service (toy_nostr_lib J') disp"
  unfolding nostr_service_def bridge_nostr_request_def [abs_def] bridge_nostr_response_def [abs_def]
    translate_request_params_def [abs_def] translate_response_result_def [abs_def] toy_nostr_fields [of J J'] ..

abbreviation "sample_nostr \<equiv> toy_nostr_lib nostr_sample_text"
abbreviation "sample_nostr_env \<equiv> sample_env_with nostr_sample_text"
abbreviation "sample_nostr_service \<equiv> nostr_service sample_nostr (\<lambda>_. ''bad'')"

lemma nostr_sample_run:
  "\<exists>b. bridge_run nostr_sample_text (daemon_peer sample_nostr_env id 0) sample_nostr_service bridge_init
      [Accepted (link_start nostr_sample_text 1), Requested nostr_sample_request] = Some b \<and>
     br_replies b = [(nostr_sample_request, nostr_sample_reply)]"
proof -
  let ?sv = sample_nostr_service and ?q = nostr_sample_request
  have r: "wire_response nostr_sample_answer = nostr_sample_answer" "resp_result nostr_sample_answer \<noteq> None"
    by (simp_all add: nostr_sample_answer_def response_success_def wire_response_def wire_opt_def json_of_nat_def
        signature_result_def map_of_entries_def)
  have sv: "?sv = nostr_service (toy_nostr_lib (toy_text JNull)) (\<lambda>_. ''bad'')" by (rule toy_nostr_service)
  have conn: "req_method (sv_connect ?sv) = ''connect''" "str_param (norm_json (req_params (sv_connect ?sv))) ''type'' = ''nostr''"
    "req_method (sv_request ?sv 2 ?q) \<noteq> ''connect''" "snd (sv_reply ?sv ?q (Inr nostr_sample_answer))"
    and reply: "fst (sv_reply ?sv ?q (Inr nostr_sample_answer)) = nostr_sample_reply"
    unfolding sv by (simp_all add: nostr_service_def nostr_connect_request_def bridge_nostr_request_def request_new_def
        json_wf_object str_param_def get_str_def jget_json_object bridge_nostr_response_def nostr_sample_reply_def)
  from link_bridge_run [OF r _ conn link_docs_plain(2) nostr_sample_text_def [folded sv]] show ?thesis
    unfolding reply by auto
qed

lemma nostr_sample_docs:
  "framed_printable nostr_sample_text signature_request"
  "framed_printable nostr_sample_text (norm_json (encode_response nostr_sample_reply))"
  unfolding nostr_sample_text_def by (rule docs_text_framed [OF link_docs_plain(2)], simp add: link_docs_def)+

lemma nostr_sample_hex: "nl_hex sample_nostr = nl_hex (toy_nostr_lib (toy_text JNull))" "nl_text sample_nostr = nostr_sample_text"
  by (simp_all add: toy_nostr_lib_def)

lemma nostr_sample_signed:
  "Nostr_Client.sign_event (nl_hex sample_nostr)
     (call nostr_sample_text (\<lambda>s. Some (handle_client sample_nostr (\<lambda>_. ClientReply nostr_sample_reply) s))) [1] [2] =
     Inr (replicate 64 5)"
proof -
  let ?res = "base64_to_hex_field (toy_nostr_lib (toy_text JNull)) ''signature'' signature_result"
  have wf: "json_wf signature_result" by (simp add: signature_result_def map_sorted_def)
  have "get_str ?res ''signature'' = Some (hex_enc (nl_hex sample_nostr) (replicate 64 5))"
    unfolding nostr_sample_hex by (subst base64_to_hex_field_spec [OF toy_nostr_laws(2)])
      (simp_all add: signature_result_def get_str_def toy_nostr_lib_def)
  moreover have "resp_result nostr_sample_reply = Some ?res" "resp_error nostr_sample_reply = None"
    by (simp_all add: nostr_sample_reply_def bridge_nostr_response_def nostr_sample_answer_def response_success_def
        nostr_sample_request_def translate_response_result_def)
  then have "response_result (norm_json (encode_response nostr_sample_reply)) = Inr ?res"
    by (simp add: response_result_encode json_wf_field [OF wf])
  moreover have "call nostr_sample_text (\<lambda>s. Some (handle_client sample_nostr (\<lambda>_. ClientReply nostr_sample_reply) s))
      ''sign_event'' (sign_event_params (nl_hex sample_nostr) [1] [2]) = response_result (norm_json (encode_response nostr_sample_reply))"
    using call_served [where serve = "\<lambda>_. nostr_sample_reply" and L = sample_nostr, OF sign_event_params_wf _ refl]
      nostr_sample_docs unfolding signature_request_def nostr_sample_hex by simp
  ultimately show ?thesis using toy_nostr_laws(1) [of nostr_sample_text]
    by (simp add: Nostr_Client.sign_event_def bind_result_def get_str_field_def or_error_def hex_to_64_def hex_to_n_def
        hex_laws_def)
qed

theorem nostr_signature_provenance_witness:
  "\<exists>s client params resp. sa_clients s 0 = Some client \<and>
     sa_run nostr_sample_text (daemon_peer sample_nostr_env id 0) sample_nostr_service (nostr_local sample_nostr) sa_init
       [Opens 0 (write_framed_message nostr_sample_text signature_request), Reads 0,
        Connects (Some (link_start nostr_sample_text 1)), Serves] = Some s \<and>
     relayed_at sample_nostr_env id 0 sample_nostr_service (nostr_local sample_nostr)
       [Opens 0 (write_framed_message nostr_sample_text signature_request), Reads 0,
        Connects (Some (link_start nostr_sample_text 1)), Serves] 0 signature_request ''nostr.sign_event'' params resp 3 \<and>
     get_str params ''event_hash'' = Some (b64_encode toy_base64 [2]) \<and>
     Option.bind (resp_result resp) (\<lambda>res. Option.bind (get_str res ''signature'') (b64_decode toy_base64)) = Some (replicate 64 5)"
proof -
  let ?L = sample_nostr and ?E = sample_nostr_env and ?r = nostr_sample_reply and ?m = signature_request
  let ?in = "write_framed_message nostr_sample_text ?m" and ?out = "lp_answer (nostr_local ?L) ?m (Some ?r)"
  let ?es = "[Opens 0 ?in, Reads 0, Connects (Some (link_start nostr_sample_text 1)), Serves]"
  obtain b where b: "bridge_run nostr_sample_text (daemon_peer ?E id 0) sample_nostr_service bridge_init
      [Accepted (link_start nostr_sample_text 1), Requested nostr_sample_request] = Some b"
    "br_replies b = [(nostr_sample_request, ?r)]" using nostr_sample_run by blast
  have m: "?m = call_request ''sign_event'' (sign_event_params (nl_hex ?L) [1] [2])" "json_wf ?m"
    unfolding signature_request_def by (simp_all add: nostr_sample_hex json_wf_request sign_event_params_wf)
  have read: "lp_read (nostr_local ?L) ?in = Some (?m, [])" "lp_asks (nostr_local ?L) ?m = Some nostr_sample_request"
    using read_write_framed [of nostr_sample_text ?m "[]"] nostr_sample_docs(1) m(2)
    by (simp_all add: nostr_local_def framed_printable_def nostr_sample_hex(2))
      (simp add: client_request_of_call nostr_sample_request_def signature_request_def)
  let ?c = "\<lparr>co_sent = ?in, co_rest = [], co_output = ?out, co_waits = None\<rparr>"
  let ?s = "\<lparr>sa_bridge = b, sa_queue = [], sa_next = 1, sa_clients = [0 \<mapsto> ?c]\<rparr>"
  have run: "sa_run (env_J ?E) (daemon_peer ?E id 0) sample_nostr_service (nostr_local ?L) sa_init ?es = Some ?s"
    unfolding sample_with_J by (rule one_client_run [OF b read])
  have "handle_client ?L (\<lambda>_. ClientReply ?r) ?in = ?out"
    using nostr_clients.loop_reads [OF read(1), of "\<lambda>_. ?r"] read(2)
    by (simp add: handle_client.simps [of _ _ "[]"] read_framed_message_def read_frame_def read_exact_def)
  then have signed: "Nostr_Client.sign_event (nl_hex ?L)
      (call (nl_text ?L) (\<lambda>sent. if sent = co_sent ?c then Some (co_output ?c) else None)) [1] [2] = Inr (replicate 64 5)"
    using nostr_sample_signed m(1)
    by (simp add: Nostr_Client.sign_event_def call_def nostr_sample_hex(2) flip: write_framed_message_def)
  have ok: "compact_text (env_J ?E)" "nl_text ?L = env_J ?E" "connects_only (link_ok ?E id sample_author 0) ?es"
    using link_start_ok by (simp_all add: nostr_sample_text_def docs_text_compact link_docs_plain toy_nostr_lib_def connects_only_def)
  have docs: "framed_printable (nl_text ?L) ?m" "co_sent ?c = write_framed_message (nl_text ?L) ?m"
    "\<forall>(q, reply) \<in> set (br_replies (sa_bridge ?s)). framed_printable (nl_text ?L) (norm_json (encode_response reply))"
    "sa_clients ?s 0 = Some ?c" "co_waits ?c = None"
    using nostr_sample_docs by (simp_all add: nostr_sample_hex(2) b(2))
  from nostr_signature_provenance [OF ok(1) sample_env_order ok(2) toy_nostr_laws(1) ok(3) run docs(4,5) m(1) docs(2,1,3) signed]
  obtain j params resp res s where p:
    "relayed_at ?E id 0 sample_nostr_service (nostr_local ?L) ?es 0 ?m ''nostr.sign_event'' params resp j"
    "get_str params ''event_hash'' = Some (b64_encode (nl_base64 ?L) [2])"
    "resp_result resp = Some res" "get_str res ''signature'' = Some s"
    "case b64_decode (nl_base64 ?L) s of Some bs \<Rightarrow> bs = replicate 64 5 | None \<Rightarrow> hex_dec (nl_hex ?L) s = Some (replicate 64 5)"
    by blast
  then show ?thesis using run [unfolded sample_with_J] docs(4) p(1) [unfolded fourth_serves [OF p(1)]]
    by (intro exI [of _ ?s] exI [of _ ?c] exI [of _ params] exI [of _ resp]) (auto simp: toy_nostr_lib_def split: option.splits)
qed

end
